theory Spec2Isabelle
  imports Main "HOL-Library.Sublist" "HOL-Library.AList"
begin

section \<open>Python strings\<close>

text \<open>
  A Python \<open>str\<close> is a sequence of Unicode code points, so a character is a natural
  number and not an 8-bit \<^typ>\<open>char\<close>.  \<open>py\<close> reads an ASCII literal of the source.
\<close>

type_synonym pychar = nat
type_synonym pystr = "pychar list"

definition py :: "string \<Rightarrow> pystr" where
  "py cs = map of_char cs"

definition hyphen :: pychar where
  "hyphen = 45"

definition newline :: pychar where
  "newline = 10"

definition slash :: pychar where
  "slash = 47"

definition ascii_alnum :: "pychar \<Rightarrow> bool" where
  "ascii_alnum c = ((48 \<le> c \<and> c \<le> 57) \<or> (65 \<le> c \<and> c \<le> 90) \<or> (97 \<le> c \<and> c \<le> 122))"

text \<open>
  \<open>\w\<close> of a \<open>str\<close> pattern: alphanumeric or underscore.  On ASCII that is
  \<open>[A-Za-z0-9_]\<close>; beyond ASCII it is \<open>str.isalnum\<close> of the Unicode database, which
  is not part of the repository and is the parameter \<open>ua\<close>.
\<close>

definition is_word :: "(pychar \<Rightarrow> bool) \<Rightarrow> pychar \<Rightarrow> bool" where
  "is_word ua c = (if c < 128 then ascii_alnum c \<or> c = 95 else ua c)"

text \<open>\<open>sep.join(xs)\<close>\<close>

fun join :: "pystr \<Rightarrow> pystr list \<Rightarrow> pystr" where
  "join sep [] = []"
| "join sep [x] = x"
| "join sep (x # y # ys) = x @ sep @ join sep (y # ys)"

text \<open>
  \<open>s.split(sep)\<close> for a non-empty separator (an empty one raises in Python; the source
  only passes the constants \<open>"-"\<close> and \<open>"_|-"\<close>).  \<open>split_acc\<close> carries the field read so far.
\<close>

function split_acc :: "pystr \<Rightarrow> pystr \<Rightarrow> pystr \<Rightarrow> pystr list" where
  "split_acc sep acc s =
     (if s = [] then [acc]
      else if sep \<noteq> [] \<and> prefix sep s then acc # split_acc sep [] (drop (length sep) s)
      else split_acc sep (acc @ [hd s]) (tl s))"
  by pat_completeness auto
termination
  by (relation "measure (\<lambda>(sep, acc, s). length s)") (auto simp: neq_Nil_conv)

definition split :: "pystr \<Rightarrow> pystr \<Rightarrow> pystr list" where
  "split s sep = split_acc sep [] s"

text \<open>\<open>s.replace(old, new)\<close> for a non-empty \<open>old\<close>: every occurrence, left to right.\<close>

function replace :: "pystr \<Rightarrow> pystr \<Rightarrow> pystr \<Rightarrow> pystr" where
  "replace s old new =
     (if s = [] then []
      else if old \<noteq> [] \<and> prefix old s then new @ replace (drop (length old) s) old new
      else hd s # replace (tl s) old new)"
  by pat_completeness auto
termination
  by (relation "measure (\<lambda>(s, old, new). length s)") (auto simp: neq_Nil_conv)

section \<open>The curated application name\<close>

text \<open>
  \<^verbatim>\<open>curated_app_name = re.sub(r"-+", "-", re.sub(r"\W", "-", app_name)).strip("-")\<close>
\<close>

definition sub_nonword :: "(pychar \<Rightarrow> bool) \<Rightarrow> pystr \<Rightarrow> pystr" where
  "sub_nonword ua s = map (\<lambda>c. if is_word ua c then c else hyphen) s"

fun sub_hyphens :: "pystr \<Rightarrow> pystr" where
  "sub_hyphens (c # d # cs) =
     (if c = hyphen \<and> d = hyphen then sub_hyphens (d # cs) else c # sub_hyphens (d # cs))"
| "sub_hyphens cs = cs"

definition strip_hyphens :: "pystr \<Rightarrow> pystr" where
  "strip_hyphens s =
     rev (dropWhile (\<lambda>c. c = hyphen) (rev (dropWhile (\<lambda>c. c = hyphen) s)))"

definition curated_name :: "(pychar \<Rightarrow> bool) \<Rightarrow> pystr \<Rightarrow> pystr" where
  "curated_name ua app_name = strip_hyphens (sub_hyphens (sub_nonword ua app_name))"

section \<open>The search for \<open>app_name\<close> in the config text\<close>

text \<open>
  \<^verbatim>\<open>re.search(r"app_name=[\"'](?P<app_name>.+)[\"'],", text)\<close>:
  the leftmost position where the pattern matches; there the greedy \<open>.+\<close> first takes the
  whole rest of the line (\<open>.\<close> is any character but the newline) and gives characters back
  one at a time until a quote and a comma follow.
\<close>

definition is_quote :: "pychar \<Rightarrow> bool" where
  "is_quote c = (c = 34 \<or> c = 39)"

definition closes :: "pystr \<Rightarrow> bool" where
  "closes t = (case t of q # c # _ \<Rightarrow> is_quote q \<and> c = 44 | _ \<Rightarrow> False)"

fun backtrack :: "pystr \<Rightarrow> nat \<Rightarrow> pystr option" where
  "backtrack rest 0 = None"
| "backtrack rest (Suc k) =
     (if closes (drop (Suc k) rest) then Some (take (Suc k) rest) else backtrack rest k)"

definition match_group :: "pystr \<Rightarrow> pystr option" where
  "match_group rest = backtrack rest (length (takeWhile (\<lambda>c. c \<noteq> newline) rest))"

definition match_here :: "pystr \<Rightarrow> pystr option" where
  "match_here t =
     (if prefix (py ''app_name='') t
      then (case drop 9 t of
              q # rest \<Rightarrow> if is_quote q then match_group rest else None
            | [] \<Rightarrow> None)
      else None)"

fun search_app_name :: "pystr \<Rightarrow> pystr option" where
  "search_app_name [] = None"
| "search_app_name (c # cs) =
     (case match_here (c # cs) of Some g \<Rightarrow> Some g | None \<Rightarrow> search_app_name cs)"

section \<open>Paths and the local filesystem\<close>

text \<open>
  A POSIX filesystem without symbolic links: a tree whose directories list their entries
  in the order the operating system enumerates them.  A path is the list of its
  components below the root \<open>/\<close> (a root of exactly two slashes, which \<open>pathlib\<close> keeps
  apart, is read as the ordinary root).
\<close>

datatype node = File pystr | Dir "(pystr \<times> node) list"

type_synonym path = "pystr list"

definition path_str :: "path \<Rightarrow> pystr" where
  "path_str p = slash # join [slash] p"

text \<open>\<open>str\<close> of a relative path: \<open>pathlib\<close> prints the empty one as a dot.\<close>

definition rel_str :: "path \<Rightarrow> pystr" where
  "rel_str p = (if p = [] then py ''.'' else join [slash] p)"

text \<open>The components \<open>pathlib\<close> keeps of a string: empty ones and \<open>.\<close> are dropped.\<close>

definition parts :: "pystr \<Rightarrow> path" where
  "parts s = filter (\<lambda>c. c \<noteq> [] \<and> c \<noteq> py ''.'') (split s [slash])"

text \<open>\<open>base / s\<close>: an absolute right operand replaces the left one.\<close>

definition joinpath :: "path \<Rightarrow> pystr \<Rightarrow> path" where
  "joinpath base s = (if prefix [slash] s then parts s else base @ parts s)"

text \<open>\<open>p.parent\<close> is lexical; the parent of the root is the root.\<close>

definition parent :: "path \<Rightarrow> path" where
  "parent p = butlast p"

text \<open>\<open>p.relative_to(base)\<close>; \<open>None\<close> is the \<open>ValueError\<close> of a path outside \<open>base\<close>.\<close>

definition relative_to :: "path \<Rightarrow> path \<Rightarrow> path option" where
  "relative_to p base = (if prefix base p then Some (drop (length base) p) else None)"

text \<open>\<open>Path(s).resolve()\<close> from the working directory: without links, \<open>..\<close> is lexical.\<close>

definition normalize :: "path \<Rightarrow> path" where
  "normalize p = foldl (\<lambda>acc c. if c = py ''..'' then butlast acc else acc @ [c]) [] p"

definition resolve :: "path \<Rightarrow> pystr \<Rightarrow> path" where
  "resolve cwd s = normalize (joinpath cwd s)"

text \<open>Lookup of a path without \<open>..\<close> components.\<close>

fun get :: "node \<Rightarrow> path \<Rightarrow> node option" where
  "get n [] = Some n"
| "get (File v) (c # cs) = None"
| "get (Dir es) (c # cs) = (case map_of es c of None \<Rightarrow> None | Some n \<Rightarrow> get n cs)"

text \<open>
  What the operating system does with a path: every component but the last must lead
  through a directory, and \<open>..\<close> steps back to the parent.  \<open>cur\<close> is where the walk is.
\<close>

fun walk :: "node \<Rightarrow> path \<Rightarrow> path \<Rightarrow> path option" where
  "walk r cur [] = (case get r cur of None \<Rightarrow> None | Some n \<Rightarrow> Some cur)"
| "walk r cur (c # cs) =
     (case get r cur of
        Some (Dir es) \<Rightarrow>
          if c = py ''..'' then walk r (butlast cur) cs else walk r (cur @ [c]) cs
      | _ \<Rightarrow> None)"

definition stat :: "node \<Rightarrow> path \<Rightarrow> node option" where
  "stat r p = (case walk r [] p of None \<Rightarrow> None | Some q \<Rightarrow> get r q)"

definition is_file :: "node \<Rightarrow> path \<Rightarrow> bool" where
  "is_file r p = (case stat r p of Some (File v) \<Rightarrow> True | _ \<Rightarrow> False)"

definition is_dir :: "node \<Rightarrow> path \<Rightarrow> bool" where
  "is_dir r p = (case stat r p of Some (Dir es) \<Rightarrow> True | _ \<Rightarrow> False)"

definition exists_path :: "node \<Rightarrow> path \<Rightarrow> bool" where
  "exists_path r p = (stat r p \<noteq> None)"

text \<open>
  \<open>d.glob("**/*")\<close>: the directories below \<open>d\<close> in pre-order, \<open>d\<close> first, and for each of
  them all its entries.  \<open>descendants\<close> gives the paths relative to \<open>d\<close>.
\<close>

fun descendants :: "node \<Rightarrow> path list" where
  "descendants (File v) = []"
| "descendants (Dir es) =
     map (\<lambda>e. [fst e]) es @ concat (map (\<lambda>e. map ((#) (fst e)) (descendants (snd e))) es)"

definition glob_all :: "node \<Rightarrow> path \<Rightarrow> path list" where
  "glob_all r d = (case stat r d of Some n \<Rightarrow> map (\<lambda>q. d @ q) (descendants n) | None \<Rightarrow> [])"

text \<open>
  Storing a file, with the directories above it created as needed; \<open>None\<close> when a
  component is a file or the target is a directory.
\<close>

fun fresh :: "path \<Rightarrow> pystr \<Rightarrow> node" where
  "fresh [] v = File v"
| "fresh (c # cs) v = Dir [(c, fresh cs v)]"

fun put :: "node \<Rightarrow> path \<Rightarrow> pystr \<Rightarrow> node option" where
  "put (File u) [] v = Some (File v)"
| "put (Dir es) [] v = None"
| "put (File u) (c # cs) v = None"
| "put (Dir es) (c # cs) v =
     (case map_of es c of
        None \<Rightarrow> Some (Dir (es @ [(c, fresh cs v)]))
      | Some n \<Rightarrow> (case put n cs v of
                    None \<Rightarrow> None
                  | Some n' \<Rightarrow> Some (Dir (AList.update c n' es))))"

section \<open>Errors, commit operations, repository cards\<close>

text \<open>
  Every exception of a run is a value.  \<open>ExternalError\<close> is whatever the backend or a
  library raises (an HTTP error, no credentials, a card that does not parse).
\<close>

datatype error =
    ValueError pystr
  | UnboundLocalError pystr
  | OSError pystr
  | ExternalError pystr

text \<open>The content of an added file: bytes built in memory, or a local file to upload.\<close>

datatype payload = Bytes pystr | LocalFile path

datatype operation =
    CommitOperationAdd pystr payload
  | CommitOperationDelete pystr bool

text \<open>A repository card: its metadata block as key and value pairs, and its body text.\<close>

record repocard =
  card_data :: "(pystr \<times> pystr) list"
  card_text :: pystr

definition read_text :: "node \<Rightarrow> path \<Rightarrow> error + pystr" where
  "read_text r p =
     (case stat r p of
        Some (File v) \<Rightarrow> Inr v
      | Some (Dir es) \<Rightarrow> Inl (OSError (py ''IsADirectoryError''))
      | None \<Rightarrow> Inl (OSError (py ''FileNotFoundError'')))"

section \<open>The environment of a run\<close>

text \<open>
  \<open>world\<close> is everything a run meets that is not in the repository: the working
  directory, the answers of the hosting backend, where the hub client caches a
  download, and the library functions whose tables are not in the source
  (\<open>str.isalnum\<close>, \<open>str.capitalize\<close>, the parser and printer of a repository card).
\<close>

record world =
  cwd :: path
  whoami :: "pystr option \<Rightarrow> error + pystr"
  post_duplicate :: "pystr \<Rightarrow> bool \<Rightarrow> pystr option \<Rightarrow> error + nat"
  remote_file :: "pystr \<Rightarrow> pystr \<Rightarrow> pystr option \<Rightarrow> error + pystr"
  cache_path :: "pystr \<Rightarrow> pystr \<Rightarrow> path"
  create_commit :: "pystr \<Rightarrow> pystr \<Rightarrow> operation list \<Rightarrow> pystr option \<Rightarrow> error + unit"
  isalnum :: "pychar \<Rightarrow> bool"
  capitalize :: "pystr \<Rightarrow> pystr"
  parse_card :: "pystr \<Rightarrow> error + repocard"
  card_content :: "repocard \<Rightarrow> pystr"

text \<open>
  What a run changes: the local filesystem, the sequence of console lines and backend
  calls, and the two local variables of \<open>deploy\<close> that later statements read back,
  \<open>operations\<close> and \<open>is_new\<close> (\<open>None\<close> while it is unbound).
\<close>

datatype event =
    Print pystr
  | Whoami "pystr option"
  | Post pystr bool
  | HubDownload pystr pystr
  | CreateCommit pystr pystr "operation list"

record state =
  fs :: node
  out :: "event list"
  operations :: "operation list"
  is_new :: "bool option"

type_synonym 'a run = "state \<Rightarrow> (error + 'a) \<times> state"

definition ret :: "'a \<Rightarrow> 'a run" where
  "ret x st = (Inr x, st)"

definition raise :: "error \<Rightarrow> 'a run" where
  "raise e st = (Inl e, st)"

definition bnd :: "'a run \<Rightarrow> ('a \<Rightarrow> 'b run) \<Rightarrow> 'b run" where
  "bnd m f st = (case m st of (Inl e, st') \<Rightarrow> (Inl e, st') | (Inr x, st') \<Rightarrow> f x st')"

definition seq :: "unit run \<Rightarrow> 'a run \<Rightarrow> 'a run" where
  "seq m n = bnd m (\<lambda>u. n)"

definition block :: "unit run list \<Rightarrow> unit run" where
  "block ms = foldr seq ms (ret ())"

definition lift :: "error + 'a \<Rightarrow> 'a run" where
  "lift v = (case v of Inl e \<Rightarrow> raise e | Inr x \<Rightarrow> ret x)"

definition emit :: "event \<Rightarrow> unit run" where
  "emit ev st = (Inr (), st\<lparr>out := out st @ [ev]\<rparr>)"

definition print :: "pystr \<Rightarrow> unit run" where
  "print line = emit (Print line)"

definition with_fs :: "(node \<Rightarrow> 'a run) \<Rightarrow> 'a run" where
  "with_fs f st = f (fs st) st"

definition append_op :: "operation \<Rightarrow> unit run" where
  "append_op opn st = (Inr (), st\<lparr>operations := operations st @ [opn]\<rparr>)"

definition set_operations :: "operation list \<Rightarrow> unit run" where
  "set_operations ops st = (Inr (), st\<lparr>operations := ops\<rparr>)"

definition set_is_new :: "bool \<Rightarrow> unit run" where
  "set_is_new b st = (Inr (), st\<lparr>is_new := Some b\<rparr>)"

text \<open>Reading \<open>is_new\<close> while it is unbound raises, as the interpreter does.\<close>

definition read_is_new :: "bool run" where
  "read_is_new st =
     (case is_new st of
        None \<Rightarrow> raise (UnboundLocalError (py ''is_new'')) st
      | Some b \<Rightarrow> ret b st)"

section \<open>The hub client\<close>

text \<open>
  \<open>hf_hub_download\<close> fetches a file of the remote repository, stores it in the client's
  local cache and returns the path of the cached file, which the caller then reads.
\<close>

definition hf_hub_download :: "world \<Rightarrow> pystr \<Rightarrow> pystr \<Rightarrow> pystr option \<Rightarrow> path run" where
  "hf_hub_download w repo filename tok =
     seq (emit (HubDownload repo filename))
       (bnd (lift (remote_file w repo filename tok)) (\<lambda>v.
          (\<lambda>st. case put (fs st) (cache_path w repo filename) v of
                  None \<Rightarrow> raise (OSError (py ''cache'')) st
                | Some r \<Rightarrow> ret (cache_path w repo filename) (st\<lparr>fs := r\<rparr>))))"

text \<open>
  \<open>RepoCard.load(repo_id_or_path, token=...)\<close>: a path that exists locally is read as it
  is, anything else is taken for a repository whose \<open>README.md\<close> is downloaded.
\<close>

definition RepoCard_load :: "world \<Rightarrow> pystr \<Rightarrow> pystr option \<Rightarrow> repocard run" where
  "RepoCard_load w repo_id_or_path tok =
     bnd (with_fs (\<lambda>r.
            if exists_path r (joinpath (cwd w) repo_id_or_path)
            then ret (joinpath (cwd w) repo_id_or_path)
            else hf_hub_download w repo_id_or_path (py ''README.md'') tok)) (\<lambda>card_path.
     bnd (with_fs (\<lambda>r. lift (read_text r card_path))) (\<lambda>v.
     lift (parse_card w v)))"

text \<open>
  The client checks the path of a commit operation when the operation is built
  (\<open>_validate_path_in_repo\<close>): a leading slash is dropped, the paths \<open>.\<close> and \<open>..\<close> and
  those that start with \<open>../\<close> raise \<open>ValueError\<close>, and a leading \<open>./\<close> is dropped.
\<close>

definition validate_path_in_repo :: "pystr \<Rightarrow> error + pystr" where
  "validate_path_in_repo path_in_repo =
     (let p = (if prefix [slash] path_in_repo then drop 1 path_in_repo else path_in_repo) in
      if p = py ''.'' \<or> p = py ''..'' \<or> prefix (py ''../'') p
      then Inl (ValueError (py ''Invalid path_in_repo in CommitOperation: '' @ p))
      else Inr (if prefix (py ''./'') p then drop 2 p else p))"

text \<open>
  \<open>CommitOperationDelete(path_in_repo, is_folder=...)\<close>: without the flag (\<open>None\<close> here), a
  path that ends with a slash is taken for a folder.
\<close>

definition CommitOperationDelete_init :: "pystr \<Rightarrow> bool option \<Rightarrow> error + operation" where
  "CommitOperationDelete_init path_in_repo is_folder =
     (case validate_path_in_repo path_in_repo of
        Inl e \<Rightarrow> Inl e
      | Inr p \<Rightarrow> Inr (CommitOperationDelete p
                   (case is_folder of None \<Rightarrow> p \<noteq> [] \<and> last p = slash | Some b \<Rightarrow> b)))"

text \<open>
  \<open>CommitOperationAdd(path_in_repo, path_or_fileobj)\<close>: bytes are taken as they are; a
  local path must be a file once it is normalized (\<open>os.path.normpath\<close>, then
  \<open>os.path.isfile\<close>), and the file is then read for its size and hash.
\<close>

definition CommitOperationAdd_init :: "node \<Rightarrow> pystr \<Rightarrow> payload \<Rightarrow> error + operation" where
  "CommitOperationAdd_init r path_in_repo path_or_fileobj =
     (case validate_path_in_repo path_in_repo of
        Inl e \<Rightarrow> Inl e
      | Inr p \<Rightarrow>
          (case path_or_fileobj of
             Bytes b \<Rightarrow> Inr (CommitOperationAdd p (Bytes b))
           | LocalFile f \<Rightarrow>
               if \<not> is_file r (normalize f)
               then Inl (ValueError (py ''Provided path: '' @ [39] @ path_str (normalize f) @ [39]
                           @ py '' is not a file on the local file system''))
               else (case read_text r f of
                       Inl e \<Rightarrow> Inl e
                     | Inr v \<Rightarrow> Inr (CommitOperationAdd p (LocalFile f)))))"

text \<open>\<open>operations.append(CommitOperationAdd(...))\<close> and \<open>operations.append(CommitOperationDelete(...))\<close>\<close>

definition append_add :: "pystr \<Rightarrow> payload \<Rightarrow> unit run" where
  "append_add path_in_repo path_or_fileobj =
     bnd (with_fs (\<lambda>r. lift (CommitOperationAdd_init r path_in_repo path_or_fileobj))) append_op"

definition append_delete :: "pystr \<Rightarrow> bool option \<Rightarrow> unit run" where
  "append_delete path_in_repo is_folder =
     bnd (lift (CommitOperationDelete_init path_in_repo is_folder)) append_op"

section \<open>deploy\<close>

text \<open>The values \<open>deploy\<close> computes once and then only reads.\<close>

record locals =
  pcconfig_path :: path
  app_name :: pystr
  app_path :: path
  assets_path :: path
  username :: pystr
  curated_app_name :: pystr
  repo_id :: pystr
  space_url :: pystr
  space_url_embed :: pystr
  token :: "pystr option"

text \<open>Lines 25 to 43: the config file, the application name, the two folders.\<close>

definition find_app :: "world \<Rightarrow> pystr \<Rightarrow> (path \<times> pystr \<times> path \<times> path) run" where
  "find_app w arg =
     with_fs (\<lambda>r.
       if \<not> is_file r (resolve (cwd w) arg)
       then raise (ValueError (py ''Could not find pcconfig file at ''
                                 @ path_str (resolve (cwd w) arg)))
       else bnd (lift (read_text r (resolve (cwd w) arg))) (\<lambda>config_text.
         case search_app_name config_text of
           None \<Rightarrow> raise (ValueError (py ''Could not find app_name in ''
                                        @ path_str (resolve (cwd w) arg)))
         | Some name \<Rightarrow>
             if \<not> is_dir r (joinpath (parent (resolve (cwd w) arg)) name)
             then raise (ValueError (py ''Could not find app folder at ''
                    @ path_str (joinpath (parent (resolve (cwd w) arg)) name)))
             else if \<not> is_dir r (joinpath (parent (resolve (cwd w) arg)) (py ''assets''))
             then raise (ValueError (py ''Could not find assets folder at ''
                    @ path_str (joinpath (parent (resolve (cwd w) arg)) (py ''assets''))))
             else ret (resolve (cwd w) arg, name,
                       joinpath (parent (resolve (cwd w) arg)) name,
                       joinpath (parent (resolve (cwd w) arg)) (py ''assets''))))"

text \<open>Lines 46 to 56.\<close>

definition mk_locals ::
  "world \<Rightarrow> pystr option \<Rightarrow> path \<times> pystr \<times> path \<times> path \<Rightarrow> pystr \<Rightarrow> locals" where
  "mk_locals w tok found user =
     (case found of (cfg, name, app, assets) \<Rightarrow>
       \<lparr>pcconfig_path = cfg, app_name = name, app_path = app, assets_path = assets,
        username = user,
        curated_app_name = curated_name (isalnum w) name,
        repo_id = user @ py ''/'' @ curated_name (isalnum w) name,
        space_url = py ''https://huggingface.co/spaces/'' @ user @ py ''/''
                      @ curated_name (isalnum w) name,
        space_url_embed = py ''https://'' @ user @ py ''-''
                      @ curated_name (isalnum w) name @ py ''.hf.space'',
        token = tok\<rparr>)"

text \<open>
  Lines 59 to 72.  \<open>hf_raise_for_status\<close> raises for the statuses 400 to 599; the handler
  binds \<open>is_new\<close> for 409 only and lets every other error pass without a value.
\<close>

definition duplicate_space :: "world \<Rightarrow> locals \<Rightarrow> bool \<Rightarrow> unit run" where
  "duplicate_space w l private =
     seq (emit (Post (repo_id l) private))
       (bnd (lift (post_duplicate w (repo_id l) private (token l))) (\<lambda>status_code.
          if \<not> (400 \<le> status_code \<and> status_code < 600)
          then block [set_is_new True, print (py ''New Space created: '' @ space_url l)]
          else if status_code = 409
          then block [set_is_new False, print (py ''Space already exist: '' @ space_url l)]
          else ret ()))"

text \<open>Lines 97 to 105; the two non-ASCII runs are the code points the source file holds.\<close>

definition readme_text :: "world \<Rightarrow> pystr \<Rightarrow> pystr" where
  "readme_text w name =
     py ''## '' @ [240, 376, 164, 8212] @ py '' Spaces x Pynecone''
     @ [newline, newline] @ py ''This ''
     @ py '' '' @ join (py '' '') (map (capitalize w) (split name (py ''_|-'')))
     @ py '' Space has been duplicated from the [Pynecone on Spaces''
     @ py '' template](https://huggingface.co/spaces/Wauplin/pynecone-on-spaces-template).''
     @ [newline, newline] @ py ''To host and deploy your own Pynecone app on ''
     @ [240, 376, 164, 8212] @ py '' Spaces, check out [the''
     @ py '' instructions](https://huggingface.co/spaces/Wauplin/pynecone-on-spaces-template/blob/main/README.md).''"

text \<open>Lines 82 to 108.\<close>

definition add_readme :: "world \<Rightarrow> locals \<Rightarrow> unit run" where
  "add_readme w l =
     bnd (RepoCard_load w (repo_id l) (token l)) (\<lambda>duplicated_repo_card.
     bnd (with_fs (\<lambda>r.
            if is_file r (joinpath (cwd w) (py ''README.md''))
            then seq (print (py ''  README.md file found locally. Adding it to the Space.''))
                   (bnd (RepoCard_load w (py ''README.md'') None) (\<lambda>local_card.
                      ret (card_text local_card)))
            else seq (print (py ''  README.md file not found locally. Adapting the existing remote one.''))
                   (ret (readme_text w (app_name l))))) (\<lambda>body.
     append_add (py ''README.md'')
       (Bytes (card_content w
          \<lparr>card_data = AList.update (py ''title'')
                         (join (py '' '')
                            (map (capitalize w) (split (curated_app_name l) (py ''-''))))
                         (card_data duplicated_repo_card),
           card_text = body\<rparr>))))"

text \<open>Lines 111 to 130.\<close>

definition add_pcconfig :: "world \<Rightarrow> locals \<Rightarrow> unit run" where
  "add_pcconfig w l =
     seq (print (py ''  Setup pcconfig.py''))
       (bnd (hf_hub_download w (repo_id l) (py ''pcconfig_docker.py'') (token l)) (\<lambda>p.
        bnd (with_fs (\<lambda>r. lift (read_text r p))) (\<lambda>v.
        append_add (py ''pcconfig_docker.py'')
          (Bytes (replace (replace v (py ''default_app'') (app_name l))
             (py ''https://wauplin-pynecone-on-spaces-template.hf.space/pynecone-backend'')
             (space_url_embed l @ py ''/pynecone-backend''))))))"

text \<open>Lines 133 to 146.\<close>

definition add_dockerfile :: "world \<Rightarrow> locals \<Rightarrow> unit run" where
  "add_dockerfile w l =
     seq (print (py ''  Setup Dockerfile''))
       (bnd (hf_hub_download w (repo_id l) (py ''Dockerfile'') (token l)) (\<lambda>p.
        bnd (with_fs (\<lambda>r. lift (read_text r p))) (\<lambda>v.
        append_add (py ''Dockerfile'')
          (Bytes (replace v (py ''default_app'') (app_name l))))))"

text \<open>Lines 80 to 150.\<close>

definition setup_space :: "world \<Rightarrow> locals \<Rightarrow> unit run" where
  "setup_space w l =
     bnd read_is_new (\<lambda>new.
       if new then block [add_readme w l, add_pcconfig w l, add_dockerfile w l]
       else print (py ''  Space already configured. Do not update README.md, Dockerfile and pcconfig.py''))"

text \<open>Lines 153 to 159.\<close>

definition sync_requirements :: "locals \<Rightarrow> unit run" where
  "sync_requirements l =
     with_fs (\<lambda>r.
       if is_file r (joinpath (parent (app_path l)) (py ''requirements.txt''))
       then block [print (py ''  Sync requirements.txt''),
                   append_delete (py ''requirements.txt'') None,
                   append_add (py ''requirements.txt'')
                     (LocalFile (joinpath (parent (app_path l)) (py ''requirements.txt'')))]
       else print (py ''  requirements.txt not found''))"

text \<open>
  The body of both upload loops: a path that is a file and that \<open>keep\<close> lets through
  is added under its path relative to \<open>base\<close>.
\<close>

fun add_files :: "(path \<Rightarrow> bool) \<Rightarrow> path \<Rightarrow> path list \<Rightarrow> unit run" where
  "add_files keep base [] = ret ()"
| "add_files keep base (p # ps) =
     seq (with_fs (\<lambda>r.
            if is_file r p \<and> keep p
            then (case relative_to p base of
                    None \<Rightarrow> raise (ValueError (path_str p))
                  | Some q \<Rightarrow> append_add (rel_str q) (LocalFile p))
            else ret ()))
       (add_files keep base ps)"

text \<open>Lines 163 to 171.\<close>

definition sync_assets :: "locals \<Rightarrow> unit run" where
  "sync_assets l =
     block [print (py ''  Sync assets/ folder''),
            append_delete (py ''assets'') (Some True),
            with_fs (\<lambda>r. add_files (\<lambda>p. True) (parent (assets_path l))
                            (glob_all r (assets_path l)))]"

text \<open>Lines 175 to 185.\<close>

definition sync_app :: "locals \<Rightarrow> unit run" where
  "sync_app l =
     seq (print (py ''  Sync app folder''))
       (bnd read_is_new (\<lambda>new.
          block [append_delete (if new then py ''default_app'' else app_name l) (Some True),
                 with_fs (\<lambda>r. add_files
                                 (\<lambda>p. \<not> sublist (py ''__pycache__'') (path_str p))
                                 (parent (app_path l)) (glob_all r (app_path l)))]))"

text \<open>Lines 188 to 199.\<close>

definition commit_message :: "bool \<Rightarrow> pystr \<Rightarrow> pystr" where
  "commit_message new name =
     (if new then py ''Deploy '' @ name @ py ''!'' else py ''Update '' @ name)"

definition commit :: "world \<Rightarrow> locals \<Rightarrow> unit run" where
  "commit w l =
     bnd read_is_new (\<lambda>new. (\<lambda>st.
       block [emit (CreateCommit (repo_id l) (commit_message new (app_name l)) (operations st)),
              lift (create_commit w (repo_id l) (commit_message new (app_name l))
                      (operations st) (token l)),
              print (py ''Your app has been successfully deployed!''),
              print (py ''Check it out: '' @ space_url_embed l)] st))"

text \<open>Lines 74 to 199, once the names are known.\<close>

definition push :: "world \<Rightarrow> locals \<Rightarrow> bool \<Rightarrow> unit run" where
  "push w l private =
     block [print (py ''Repo ID: '' @ repo_id l),
            duplicate_space w l private,
            set_operations [],
            setup_space w l,
            sync_requirements l,
            sync_assets l,
            sync_app l,
            commit w l]"

definition deploy :: "world \<Rightarrow> pystr \<Rightarrow> bool \<Rightarrow> pystr option \<Rightarrow> unit run" where
  "deploy w pcconfig_arg private tok =
     bnd (find_app w pcconfig_arg) (\<lambda>found.
     bnd (seq (emit (Whoami tok)) (lift (whoami w tok))) (\<lambda>user.
     push w (mk_locals w tok found user) private))"

text \<open>A run starts with nothing printed and no local variable bound.\<close>

definition start :: "node \<Rightarrow> state" where
  "start r = \<lparr>fs = r, out = [], operations = [], is_new = None\<rparr>"

section \<open>Notions for the statements\<close>

text \<open>
  A plain folder name: one path component, the way the expected layout names the
  application folder next to the config file.
\<close>

definition plain_name :: "pystr \<Rightarrow> bool" where
  "plain_name s = (s \<noteq> [] \<and> slash \<notin> set s \<and> s \<noteq> py ''.'' \<and> s \<noteq> py ''..'')"

text \<open>The commits a run has submitted, and the duplication requests it has sent.\<close>

definition committed :: "state \<Rightarrow> (pystr \<times> pystr \<times> operation list) list" where
  "committed st =
     concat (map (\<lambda>e. case e of CreateCommit rid msg ops \<Rightarrow> [(rid, msg, ops)] | _ \<Rightarrow> []) (out st))"

definition posted :: "state \<Rightarrow> (pystr \<times> bool) list" where
  "posted st = concat (map (\<lambda>e. case e of Post rid private \<Rightarrow> [(rid, private)] | _ \<Rightarrow> []) (out st))"

text \<open>
  Storing downloads in the hub cache, one after the other: each entry is a repository,
  a file name and the content fetched.  \<open>cached w r r'\<close> says that \<open>r'\<close> is \<open>r\<close> after
  some such downloads and nothing else.
\<close>

fun store_all :: "world \<Rightarrow> (pystr \<times> pystr \<times> pystr) list \<Rightarrow> node \<Rightarrow> node option" where
  "store_all w [] r = Some r"
| "store_all w (e # es) r =
     (case put r (cache_path w (fst e) (fst (snd e))) (snd (snd e)) of
        None \<Rightarrow> None
      | Some r' \<Rightarrow> store_all w es r')"

definition cached :: "world \<Rightarrow> node \<Rightarrow> node \<Rightarrow> bool" where
  "cached w r r' = (\<exists>es. store_all w es r = Some r')"

text \<open>What a call of the hub client leaves as it was.\<close>

definition frame :: "world \<Rightarrow> state \<Rightarrow> state \<Rightarrow> bool" where
  "frame w s t = (is_new t = is_new s \<and> committed t = committed s \<and> posted t = posted s
       \<and> operations t = operations s \<and> cached w (fs s) (fs t))"

text \<open>
  The locals of a layout whose application folder bears the plain name of the
  application, with the assets folder named \<open>assets\<close>.
\<close>

definition tidy :: "locals \<Rightarrow> bool" where
  "tidy l = (plain_name (app_name l) \<and> app_path l \<noteq> [] \<and> last (app_path l) = app_name l
     \<and> assets_path l \<noteq> [] \<and> last (assets_path l) = py ''assets'')"

text \<open>An operation whose content was built in memory, and the path an operation acts on.\<close>

fun in_memory :: "operation \<Rightarrow> bool" where
  "in_memory (CommitOperationAdd p (Bytes c)) = True"
| "in_memory (CommitOperationAdd p (LocalFile f)) = False"
| "in_memory (CommitOperationDelete p b) = False"

fun op_path :: "operation \<Rightarrow> pystr" where
  "op_path (CommitOperationAdd p c) = p"
| "op_path (CommitOperationDelete p b) = p"

text \<open>
  A step that leaves the filesystem, \<open>is_new\<close> and the requests sent as they are and
  queues no operation built in memory.
\<close>

definition quiet :: "unit run \<Rightarrow> bool" where
  "quiet m = (\<forall>st. fs (snd (m st)) = fs st \<and> is_new (snd (m st)) = is_new st
      \<and> committed (snd (m st)) = committed st \<and> posted (snd (m st)) = posted st
      \<and> (\<exists>ops. operations (snd (m st)) = operations st @ ops \<and> (\<forall>x\<in>set ops. \<not> in_memory x)))"

text \<open>
  The downloads a first-time deploy can make, in the order it makes them: the three
  files of the new space, each with the content the backend serves for it (a file the
  backend does not serve is not in the list).
\<close>

definition served :: "world \<Rightarrow> pystr \<Rightarrow> pystr option \<Rightarrow> pystr \<Rightarrow> (pystr \<times> pystr \<times> pystr) list" where
  "served w rid tok f = (case remote_file w rid f tok of Inl e \<Rightarrow> [] | Inr v \<Rightarrow> [(rid, f, v)])"

definition downloads :: "world \<Rightarrow> pystr \<Rightarrow> pystr option \<Rightarrow> (pystr \<times> pystr \<times> pystr) list" where
  "downloads w rid tok =
     served w rid tok (py ''README.md'') @ served w rid tok (py ''pcconfig_docker.py'')
     @ served w rid tok (py ''Dockerfile'')"

text \<open>
  A step after which the filesystem is the one before it with some of the downloads
  \<open>d\<close> stored, in their order.
\<close>

definition stores :: "world \<Rightarrow> (pystr \<times> pystr \<times> pystr) list \<Rightarrow> unit run \<Rightarrow> bool" where
  "stores w d m = (\<forall>st. \<exists>es. subseq es d \<and> store_all w es (fs st) = Some (fs (snd (m st))))"

text \<open>
  The operations the three sync steps queue, written as lists; the lemmas below show
  that the steps of \<open>deploy\<close> compute exactly these.
\<close>

definition upload_ops :: "node \<Rightarrow> (path \<Rightarrow> bool) \<Rightarrow> path \<Rightarrow> operation list" where
  "upload_ops r keep d =
     map (\<lambda>p. CommitOperationAdd (rel_str (drop (length (parent d)) p)) (LocalFile p))
       (filter (\<lambda>p. is_file r p \<and> keep p) (glob_all r d))"

definition requirements_ops :: "node \<Rightarrow> path \<Rightarrow> operation list" where
  "requirements_ops r app =
     (if is_file r (joinpath (parent app) (py ''requirements.txt''))
      then [CommitOperationDelete (py ''requirements.txt'') False,
            CommitOperationAdd (py ''requirements.txt'')
              (LocalFile (joinpath (parent app) (py ''requirements.txt'')))]
      else [])"

definition sync_ops :: "node \<Rightarrow> locals \<Rightarrow> bool \<Rightarrow> operation list" where
  "sync_ops r l new =
     requirements_ops r (app_path l)
     @ CommitOperationDelete (py ''assets'') True # upload_ops r (\<lambda>p. True) (assets_path l)
     @ CommitOperationDelete (if new then py ''default_app'' else app_name l) True
       # upload_ops r (\<lambda>p. \<not> sublist (py ''__pycache__'') (path_str p)) (app_path l)"

text \<open>Lines 152 to 199: the part of \<open>deploy\<close> after the new-space branch.\<close>

definition sync_all :: "world \<Rightarrow> locals \<Rightarrow> unit run" where
  "sync_all w l = block [sync_requirements l, sync_assets l, sync_app l, commit w l]"

text \<open>A step that queues one in-memory file when it succeeds and nothing when it fails.\<close>

definition adds_one :: "world \<Rightarrow> pystr \<Rightarrow> unit run \<Rightarrow> bool" where
  "adds_one w n m = (\<forall>st. case m st of
       (Inl e, st') \<Rightarrow> frame w st st'
     | (Inr u, st') \<Rightarrow> is_new st' = is_new st \<and> committed st' = committed st
          \<and> posted st' = posted st \<and> cached w (fs st) (fs st')
          \<and> (\<exists>c. operations st' = operations st @ [CommitOperationAdd n (Bytes c)]))"

text \<open>The operation of line 106, for a remote card and a body text.\<close>

definition readme_op :: "world \<Rightarrow> locals \<Rightarrow> repocard \<Rightarrow> pystr \<Rightarrow> operation" where
  "readme_op w l rcard body =
     CommitOperationAdd (py ''README.md'')
       (Bytes (card_content w
          \<lparr>card_data = AList.update (py ''title'')
                         (join (py '' '')
                            (map (capitalize w) (split (curated_app_name l) (py ''-''))))
                         (card_data rcard),
           card_text = body\<rparr>))"

text \<open>The three operations a first-time deploy queues first.\<close>

definition new_head :: "operation list \<Rightarrow> bool" where
  "new_head head = (\<exists>c1 c2 c3. head =
     [CommitOperationAdd (py ''README.md'') (Bytes c1),
      CommitOperationAdd (py ''pcconfig_docker.py'') (Bytes c2),
      CommitOperationAdd (py ''Dockerfile'') (Bytes c3)])"

section \<open>The end-to-end example\<close>

text \<open>
  A project folder with \<open>pcconfig.py\<close> naming the application \<open>demo\<close>, the folder
  \<open>demo\<close> with one file, the folder \<open>assets\<close> with one file, no \<open>requirements.txt\<close> and
  no \<open>README.md\<close>; a backend that answers the duplication request with a given status.
\<close>

definition example_config :: pystr where
  "example_config = py ''config = pc.Config('' @ [newline] @ py ''    app_name='' @ [34]
      @ py ''demo'' @ [34, 44] @ [newline] @ py '')''"

definition example_root :: node where
  "example_root = Dir [(py ''proj'', Dir [
      (py ''pcconfig.py'', File example_config),
      (py ''demo'', Dir [(py ''index.py'', File (py ''import pynecone''))]),
      (py ''assets'', Dir [(py ''logo.png'', File (py ''PNG''))])])]"

definition example_world :: "nat \<Rightarrow> world" where
  "example_world status = \<lparr>cwd = [py ''proj''],
     whoami = (\<lambda>t. Inr (py ''alice'')),
     post_duplicate = (\<lambda>r p t. Inr status),
     remote_file = (\<lambda>r f t. Inr (py ''app = default_app'')),
     cache_path = (\<lambda>r f. [py ''cache'', f]),
     create_commit = (\<lambda>r m ops t. Inr ()),
     isalnum = (\<lambda>c. False),
     capitalize = (\<lambda>s. s),
     parse_card = (\<lambda>v. Inr \<lparr>card_data = [], card_text = v\<rparr>),
     card_content = (\<lambda>c. card_text c)\<rparr>"

definition example_new_ops :: "operation list" where
  "example_new_ops =
     [CommitOperationAdd (py ''README.md'') (Bytes (readme_text (example_world 200) (py ''demo''))),
      CommitOperationAdd (py ''pcconfig_docker.py'') (Bytes (py ''app = demo'')),
      CommitOperationAdd (py ''Dockerfile'') (Bytes (py ''app = demo'')),
      CommitOperationDelete (py ''assets'') True,
      CommitOperationAdd (py ''assets/logo.png'')
        (LocalFile [py ''proj'', py ''assets'', py ''logo.png'']),
      CommitOperationDelete (py ''default_app'') True,
      CommitOperationAdd (py ''demo/index.py'')
        (LocalFile [py ''proj'', py ''demo'', py ''index.py''])]"

text \<open>
  Two more layouts: an application that is itself named \<open>assets\<close>, and one whose name
  \<open>---\<close> has no word character.
\<close>

definition assets_config :: pystr where
  "assets_config = py ''app_name='' @ [34] @ py ''assets'' @ [34, 44]"

definition assets_root :: node where
  "assets_root = Dir [(py ''proj'', Dir [
      (py ''pcconfig.py'', File assets_config),
      (py ''assets'', Dir [(py ''logo.png'', File (py ''PNG''))])])]"

definition hyphen_config :: pystr where
  "hyphen_config = py ''app_name='' @ [34] @ py ''---'' @ [34, 44]"

definition hyphen_root :: node where
  "hyphen_root = Dir [(py ''proj'', Dir [
      (py ''pcconfig.py'', File hyphen_config),
      (py ''---'', Dir []),
      (py ''assets'', Dir [])])]"

text \<open>A config file that has the assignment without the comma after it.\<close>

definition nocomma_config :: pystr where
  "nocomma_config = py ''app_name='' @ [34] @ py ''demo'' @ [34]"

definition nocomma_root :: node where
  "nocomma_root = Dir [(py ''proj'', Dir [(py ''pcconfig.py'', File nocomma_config)])]"

text \<open>
  The project of the example with a \<open>README.md\<close> next to the config file, deployed from
  another directory, \<open>/home\<close>, which has none.
\<close>

definition other_root :: node where
  "other_root = Dir [(py ''proj'', Dir [
      (py ''pcconfig.py'', File example_config),
      (py ''README.md'', File (py ''local'')),
      (py ''demo'', Dir [(py ''index.py'', File (py ''import pynecone''))]),
      (py ''assets'', Dir [(py ''logo.png'', File (py ''PNG''))])]),
    (py ''home'', Dir [])]"

definition other_world :: world where
  "other_world = (example_world 200)\<lparr>cwd := [py ''home'']\<rparr>"

text \<open>
  An application in a subfolder, \<open>pkg/demo\<close>, with a \<open>requirements.txt\<close> next to the
  config file and none next to the application folder.
\<close>

definition nested_config :: pystr where
  "nested_config = py ''app_name='' @ [34] @ py ''pkg/demo'' @ [34, 44]"

definition nested_root :: node where
  "nested_root = Dir [(py ''proj'', Dir [
      (py ''pcconfig.py'', File nested_config),
      (py ''requirements.txt'', File (py ''pynecone'')),
      (py ''pkg'', Dir [(py ''demo'', Dir [(py ''index.py'', File (py ''import pynecone''))])]),
      (py ''assets'', Dir [(py ''logo.png'', File (py ''PNG''))])])]"

text \<open>An application named \<open>Dockerfile\<close>.\<close>

definition docker_config :: pystr where
  "docker_config = py ''app_name='' @ [34] @ py ''Dockerfile'' @ [34, 44]"

definition docker_root :: node where
  "docker_root = Dir [(py ''proj'', Dir [
      (py ''pcconfig.py'', File docker_config),
      (py ''Dockerfile'', Dir [(py ''index.py'', File (py ''import pynecone''))]),
      (py ''assets'', Dir [])])]"

text \<open>
  The project of the example with a subfolder and a cache folder in the application
  folder.
\<close>

definition rich_root :: node where
  "rich_root = Dir [(py ''proj'', Dir [
      (py ''pcconfig.py'', File example_config),
      (py ''demo'', Dir [
         (py ''index.py'', File (py ''import pynecone'')),
         (py ''pages'', Dir [(py ''home.py'', File (py ''import pynecone''))]),
         (py ''__pycache__'', Dir [(py ''index.pyc'', File (py ''PYC''))])]),
      (py ''assets'', Dir [(py ''logo.png'', File (py ''PNG''))])])]"

definition rich_new_ops :: "operation list" where
  "rich_new_ops =
     [CommitOperationAdd (py ''README.md'') (Bytes (readme_text (example_world 200) (py ''demo''))),
      CommitOperationAdd (py ''pcconfig_docker.py'') (Bytes (py ''app = demo'')),
      CommitOperationAdd (py ''Dockerfile'') (Bytes (py ''app = demo'')),
      CommitOperationDelete (py ''assets'') True,
      CommitOperationAdd (py ''assets/logo.png'')
        (LocalFile [py ''proj'', py ''assets'', py ''logo.png'']),
      CommitOperationDelete (py ''default_app'') True,
      CommitOperationAdd (py ''demo/index.py'')
        (LocalFile [py ''proj'', py ''demo'', py ''index.py'']),
      CommitOperationAdd (py ''demo/pages/home.py'')
        (LocalFile [py ''proj'', py ''demo'', py ''pages'', py ''home.py''])]"

text \<open>
  A config file at \<open>/proj/pcconfig.py\<close> that names the application \<open>/\<close>, so that the
  application folder is the root of the filesystem, which holds a \<open>README.md\<close>.
\<close>

definition slash_config :: pystr where
  "slash_config = py ''app_name='' @ [34] @ py ''/'' @ [34, 44]"

definition slash_root :: node where
  "slash_root = Dir [(py ''README.md'', File (py ''local'')),
      (py ''proj'', Dir [(py ''pcconfig.py'', File slash_config), (py ''assets'', Dir [])])]"

text \<open>A step that only appends to the operation list.\<close>

definition grows :: "unit run \<Rightarrow> bool" where
  "grows m = (\<forall>st. \<exists>ops. operations (snd (m st)) = operations st @ ops)"

section \<open>Symbolic execution of the steps\<close>

lemmas monad_defs = ret_def raise_def bnd_def seq_def block_def lift_def emit_def print_def
  with_fs_def append_op_def set_operations_def set_is_new_def read_is_new_def

lemma split_acc_no_sep: "slash \<notin> set s \<Longrightarrow> split_acc [slash] acc s = [acc @ s]"
proof (induction s arbitrary: acc)
  case Nil
  show ?case by (subst split_acc.simps) simp
next
  case (Cons c s)
  then show ?case by (subst split_acc.simps) simp
qed

lemma parts_plain:
  assumes "plain_name s"
  shows "parts s = [s]"
proof -
  have p: "slash \<notin> set s" "s \<noteq> []" "s \<noteq> py ''.''"
    using assms unfolding plain_name_def by blast+
  have "split s [slash] = [s]"
    unfolding split_def using split_acc_no_sep[OF p(1), of "[]"] by (simp only: append_Nil)
  then show ?thesis
    unfolding parts_def using p by (simp del: split_acc.simps)
qed

lemma joinpath_plain:
  assumes "plain_name s"
  shows "joinpath base s = base @ [s]"
proof -
  have "slash \<notin> set s" using assms by (simp add: plain_name_def)
  then have "\<not> prefix [slash] s" by (auto simp: prefix_def)
  then show ?thesis by (simp add: joinpath_def parts_plain[OF assms])
qed

lemma plain_assets: "plain_name (py ''assets'')"
  by (simp add: plain_name_def py_def slash_def)

lemma plain_requirements: "plain_name (py ''requirements.txt'')"
  by (simp add: plain_name_def py_def slash_def)

lemma plain_readme: "plain_name (py ''README.md'')"
  by (simp add: plain_name_def py_def slash_def)

lemma find_app_eq:
  "find_app w arg st =
     (if \<not> is_file (fs st) (resolve (cwd w) arg)
      then (Inl (ValueError (py ''Could not find pcconfig file at '' @ path_str (resolve (cwd w) arg))), st)
      else case read_text (fs st) (resolve (cwd w) arg) of
        Inl e \<Rightarrow> (Inl e, st)
      | Inr v \<Rightarrow> (case search_app_name v of
           None \<Rightarrow> (Inl (ValueError (py ''Could not find app_name in '' @ path_str (resolve (cwd w) arg))), st)
         | Some name \<Rightarrow>
             if \<not> is_dir (fs st) (joinpath (parent (resolve (cwd w) arg)) name)
             then (Inl (ValueError (py ''Could not find app folder at ''
                    @ path_str (joinpath (parent (resolve (cwd w) arg)) name))), st)
             else if \<not> is_dir (fs st) (joinpath (parent (resolve (cwd w) arg)) (py ''assets''))
             then (Inl (ValueError (py ''Could not find assets folder at ''
                    @ path_str (joinpath (parent (resolve (cwd w) arg)) (py ''assets'')))), st)
             else (Inr (resolve (cwd w) arg, name,
                       joinpath (parent (resolve (cwd w) arg)) name,
                       joinpath (parent (resolve (cwd w) arg)) (py ''assets'')), st)))"
  unfolding find_app_def with_fs_def bnd_def lift_def raise_def ret_def
  by (simp split: sum.splits option.splits)

lemma find_app_state: "snd (find_app w arg st) = st"
  by (simp add: find_app_eq split: sum.splits option.splits)

lemma duplicate_space_eq:
  "duplicate_space w l private st =
     (case post_duplicate w (repo_id l) private (token l) of
        Inl e \<Rightarrow> (Inl e, st\<lparr>out := out st @ [Post (repo_id l) private]\<rparr>)
      | Inr s \<Rightarrow>
          if \<not> (400 \<le> s \<and> s < 600)
          then (Inr (), st\<lparr>out := out st @ [Post (repo_id l) private,
                   Print (py ''New Space created: '' @ space_url l)], is_new := Some True\<rparr>)
          else if s = 409
          then (Inr (), st\<lparr>out := out st @ [Post (repo_id l) private,
                   Print (py ''Space already exist: '' @ space_url l)], is_new := Some False\<rparr>)
          else (Inr (), st\<lparr>out := out st @ [Post (repo_id l) private]\<rparr>))"
  unfolding duplicate_space_def monad_defs
  by (simp split: sum.splits)

lemma descendants_nonempty: "q \<in> set (descendants n) \<Longrightarrow> q \<noteq> []"
  by (cases n) auto

lemma glob_all_form: "p \<in> set (glob_all r d) \<Longrightarrow> \<exists>q. q \<noteq> [] \<and> p = d @ q"
  by (auto simp: glob_all_def split: option.splits dest: descendants_nonempty)

lemma get_append:
  "get r (a @ b) = (case get r a of None \<Rightarrow> None | Some n \<Rightarrow> get n b)"
proof (induction r a rule: get.induct)
  case (1 n)
  show ?case by simp
next
  case (2 v c cs)
  show ?case by simp
next
  case (3 es c cs)
  then show ?case by (simp split: option.splits)
qed

lemma walk_plain:
  "py ''..'' \<notin> set p \<Longrightarrow>
   walk r cur p = (case get r (cur @ p) of None \<Rightarrow> None | Some n \<Rightarrow> Some (cur @ p))"
proof (induction p arbitrary: cur)
  case Nil
  show ?case by (simp split: option.splits)
next
  case (Cons c cs)
  then have ih: "walk r (cur @ [c]) cs =
      (case get r ((cur @ [c]) @ cs) of None \<Rightarrow> None | Some n \<Rightarrow> Some ((cur @ [c]) @ cs))"
    by simp
  have c: "c \<noteq> py ''..''" using Cons.prems by auto
  show ?case
  proof (cases "get r cur")
    case None
    then show ?thesis by (simp add: get_append)
  next
    case (Some n)
    show ?thesis
    proof (cases n)
      case (File v)
      with Some show ?thesis by (simp add: get_append)
    next
      case (Dir es)
      with Some c ih show ?thesis by (simp split: option.splits)
    qed
  qed
qed

lemma stat_plain: "py ''..'' \<notin> set p \<Longrightarrow> stat r p = get r p"
  by (simp add: stat_def walk_plain split: option.splits)

lemma normalize_snoc:
  "normalize (p @ [c]) = (if c = py ''..'' then butlast (normalize p) else normalize p @ [c])"
  by (simp add: normalize_def)

lemma normalize_no_dotdot: "py ''..'' \<notin> set (normalize p)"
proof (induction p rule: rev_induct)
  case Nil
  show ?case by (simp add: normalize_def)
next
  case (snoc c p)
  then show ?case by (auto simp: normalize_snoc dest: in_set_butlastD)
qed

text \<open>Where the walk of a path ends is the normalized path.\<close>

lemma walk_normalize:
  "walk r cur p = Some q \<Longrightarrow>
   q = foldl (\<lambda>acc c. if c = py ''..'' then butlast acc else acc @ [c]) cur p"
proof (induction p arbitrary: cur)
  case Nil
  then show ?case by (simp split: option.splits)
next
  case (Cons c cs)
  then show ?case by (auto split: option.splits node.splits if_splits)
qed

lemma stat_normalize: "stat r p = Some n \<Longrightarrow> stat r (normalize p) = Some n"
proof -
  assume s: "stat r p = Some n"
  then obtain q where q: "walk r [] p = Some q" "get r q = Some n"
    by (auto simp: stat_def split: option.splits)
  from walk_normalize[OF q(1)] have "q = normalize p" by (simp add: normalize_def)
  with q(2) show ?thesis by (simp add: stat_plain[OF normalize_no_dotdot])
qed

lemma is_file_normalize: "is_file r p \<Longrightarrow> is_file r (normalize p)"
  by (auto simp: is_file_def dest: stat_normalize split: option.splits node.splits)

lemma is_file_read: "is_file r p \<Longrightarrow> \<exists>v. read_text r p = Inr v"
  by (auto simp: is_file_def read_text_def split: option.splits node.splits)

section \<open>The paths the hub client accepts\<close>

lemma no_slash_prefix: "slash \<notin> set p \<Longrightarrow> slash \<in> set x \<Longrightarrow> \<not> prefix x p"
  by (auto simp: prefix_def)

lemma validate_plain: "plain_name p \<Longrightarrow> validate_path_in_repo p = Inr p"
proof -
  assume a: "plain_name p"
  then have s: "slash \<notin> set p" and n: "p \<noteq> py ''.''" "p \<noteq> py ''..''"
    by (simp_all add: plain_name_def)
  have "\<not> prefix [slash] p" "\<not> prefix (py ''../'') p" "\<not> prefix (py ''./'') p"
    by (rule no_slash_prefix[OF s], simp add: py_def slash_def)+
  with n show ?thesis by (simp add: validate_path_in_repo_def)
qed

lemma first_component:
  "slash \<notin> set n \<Longrightarrow> takeWhile (\<lambda>c. c \<noteq> slash) (n @ slash # t) = n"
  by (induction n) auto

lemma validate_first:
  assumes "plain_name n"
  shows "validate_path_in_repo (n @ slash # t) = Inr (n @ slash # t)"
proof -
  let ?s = "n @ slash # t"
  from assms have s: "slash \<notin> set n" and ne: "n \<noteq> []" and n: "n \<noteq> py ''.''" "n \<noteq> py ''..''"
    by (simp_all add: plain_name_def)
  note tw = first_component[OF s, of t]
  have 1: "\<not> prefix [slash] ?s" using s ne by (cases n) auto
  have "slash \<in> set ?s" by simp
  moreover have "slash \<notin> set (py ''.'')" "slash \<notin> set (py ''..'')"
    by (simp_all add: py_def slash_def)
  ultimately have 2: "?s \<noteq> py ''.''" "?s \<noteq> py ''..''" by metis+
  have 3: "\<not> prefix (py ''../'') ?s"
  proof
    assume "prefix (py ''../'') ?s"
    then obtain u where u: "?s = py ''../'' @ u" by (auto simp: prefix_def)
    have "takeWhile (\<lambda>c. c \<noteq> slash) (py ''../'' @ u) = py ''..''"
      by (simp add: py_def slash_def)
    with tw u n(2) show False by simp
  qed
  have 4: "\<not> prefix (py ''./'') ?s"
  proof
    assume "prefix (py ''./'') ?s"
    then obtain u where u: "?s = py ''./'' @ u" by (auto simp: prefix_def)
    have "takeWhile (\<lambda>c. c \<noteq> slash) (py ''./'' @ u) = py ''.''"
      by (simp add: py_def slash_def)
    with tw u n(1) show False by simp
  qed
  from 1 2 3 4 show ?thesis by (simp add: validate_path_in_repo_def)
qed

lemma rel_str_Cons: "q \<noteq> [] \<Longrightarrow> rel_str (n # q) = n @ slash # join [slash] q"
  by (cases q) (simp_all add: rel_str_def)

lemma validate_rel:
  "plain_name n \<Longrightarrow> q \<noteq> [] \<Longrightarrow> validate_path_in_repo (rel_str (n # q)) = Inr (rel_str (n # q))"
  by (simp add: rel_str_Cons validate_first)

section \<open>Queueing one operation\<close>

lemma append_delete_eq:
  "validate_path_in_repo p = Inr q \<Longrightarrow>
   append_delete p (Some b) st =
     (Inr (), st\<lparr>operations := operations st @ [CommitOperationDelete q b]\<rparr>)"
  by (simp add: append_delete_def CommitOperationDelete_init_def bnd_def lift_def ret_def
        append_op_def)

lemma append_delete_fail:
  "validate_path_in_repo p = Inl e \<Longrightarrow> append_delete p f st = (Inl e, st)"
  by (simp add: append_delete_def CommitOperationDelete_init_def bnd_def lift_def raise_def)

lemma append_delete_requirements:
  "append_delete (py ''requirements.txt'') None st =
     (Inr (), st\<lparr>operations := operations st @
        [CommitOperationDelete (py ''requirements.txt'') False]\<rparr>)"
proof -
  have "validate_path_in_repo (py ''requirements.txt'') = Inr (py ''requirements.txt'')"
    by (rule validate_plain) (simp add: plain_name_def py_def slash_def)
  moreover have "last (py ''requirements.txt'') \<noteq> slash" by (simp add: py_def slash_def)
  ultimately show ?thesis
    by (simp add: append_delete_def CommitOperationDelete_init_def bnd_def lift_def ret_def
          append_op_def)
qed

lemma append_add_bytes:
  "validate_path_in_repo p = Inr q \<Longrightarrow>
   append_add p (Bytes c) st =
     (Inr (), st\<lparr>operations := operations st @ [CommitOperationAdd q (Bytes c)]\<rparr>)"
  by (simp add: append_add_def CommitOperationAdd_init_def bnd_def lift_def ret_def with_fs_def
        append_op_def)

lemma append_add_file:
  assumes "validate_path_in_repo p = Inr q" and "is_file (fs st) f"
  shows "append_add p (LocalFile f) st =
     (Inr (), st\<lparr>operations := operations st @ [CommitOperationAdd q (LocalFile f)]\<rparr>)"
proof -
  from is_file_read[OF assms(2)] obtain v where "read_text (fs st) f = Inr v" by blast
  with assms is_file_normalize[OF assms(2)] show ?thesis
    by (simp add: append_add_def CommitOperationAdd_init_def bnd_def lift_def ret_def with_fs_def
          append_op_def)
qed

lemma append_add_fail:
  "validate_path_in_repo p = Inl e \<Longrightarrow> append_add p c st = (Inl e, st)"
  by (simp add: append_add_def CommitOperationAdd_init_def bnd_def lift_def raise_def with_fs_def)

section \<open>Symbolic execution of the sync steps\<close>

lemma sync_requirements_eq:
  "sync_requirements l st =
     (if is_file (fs st) (joinpath (parent (app_path l)) (py ''requirements.txt''))
      then (Inr (), st\<lparr>out := out st @ [Print (py ''  Sync requirements.txt'')],
              operations := operations st @
                [CommitOperationDelete (py ''requirements.txt'') False,
                 CommitOperationAdd (py ''requirements.txt'')
                   (LocalFile (joinpath (parent (app_path l)) (py ''requirements.txt'')))]\<rparr>)
      else (Inr (), st\<lparr>out := out st @ [Print (py ''  requirements.txt not found'')]\<rparr>))"
proof (cases "is_file (fs st) (joinpath (parent (app_path l)) (py ''requirements.txt''))")
  case True
  have v: "validate_path_in_repo (py ''requirements.txt'') = Inr (py ''requirements.txt'')"
    by (rule validate_plain[OF plain_requirements])
  from True show ?thesis
    unfolding sync_requirements_def with_fs_def
    by (simp add: block_def seq_def bnd_def print_def emit_def ret_def
          append_delete_requirements append_add_file[OF v])
next
  case False
  then show ?thesis
    by (simp add: sync_requirements_def with_fs_def print_def emit_def)
qed

lemma add_files_eq:
  "\<forall>p\<in>set ps. prefix base p
      \<and> validate_path_in_repo (rel_str (drop (length base) p)) = Inr (rel_str (drop (length base) p))
   \<Longrightarrow>
   add_files keep base ps st =
     (Inr (), st\<lparr>operations := operations st @
        map (\<lambda>p. CommitOperationAdd (rel_str (drop (length base) p)) (LocalFile p))
          (filter (\<lambda>p. is_file (fs st) p \<and> keep p) ps)\<rparr>)"
proof (induction ps arbitrary: st)
  case Nil
  show ?case by (simp add: ret_def)
next
  case (Cons p ps)
  then have v: "validate_path_in_repo (rel_str (drop (length base) p))
      = Inr (rel_str (drop (length base) p))" and pre: "prefix base p"
    by simp_all
  have ih: "\<And>st. add_files keep base ps st =
     (Inr (), st\<lparr>operations := operations st @
        map (\<lambda>p. CommitOperationAdd (rel_str (drop (length base) p)) (LocalFile p))
          (filter (\<lambda>p. is_file (fs st) p \<and> keep p) ps)\<rparr>)"
    using Cons by simp
  show ?case
  proof (cases "is_file (fs st) p \<and> keep p")
    case True
    then show ?thesis
      using pre by (simp add: seq_def bnd_def with_fs_def relative_to_def
            append_add_file[OF v] ih)
  next
    case False
    then show ?thesis
      by (auto simp: seq_def bnd_def with_fs_def ret_def ih)
  qed
qed

lemma glob_all_prefix: "\<forall>p\<in>set (glob_all r d). prefix (parent d) p"
  by (auto simp: glob_all_def parent_def prefix_def split: option.splits)
     (metis append_butlast_last_id append_assoc butlast.simps(1) append_Nil)

lemma glob_all_drop:
  assumes "p \<in> set (glob_all r d)" and "d \<noteq> []"
  shows "\<exists>q. q \<noteq> [] \<and> p = d @ q \<and> drop (length (parent d)) p = last d # q"
proof -
  from glob_all_form[OF assms(1)] obtain q where q: "q \<noteq> []" "p = d @ q" by blast
  have "d = butlast d @ [last d]" using assms(2) by simp
  then have "drop (length (parent d)) p = last d # q"
    using q(2) by (metis parent_def append_Cons append_Nil append_assoc append_eq_conv_conj)
  with q show ?thesis by blast
qed

lemma glob_all_valid:
  assumes "d \<noteq> []" and "plain_name (last d)"
  shows "\<forall>p\<in>set (glob_all r d). prefix (parent d) p
      \<and> validate_path_in_repo (rel_str (drop (length (parent d)) p))
          = Inr (rel_str (drop (length (parent d)) p))"
proof
  fix p assume p: "p \<in> set (glob_all r d)"
  from glob_all_drop[OF p assms(1)] obtain q where
    q: "q \<noteq> []" "drop (length (parent d)) p = last d # q" by blast
  from glob_all_prefix p have "prefix (parent d) p" by blast
  with q validate_rel[OF assms(2) q(1)]
  show "prefix (parent d) p
      \<and> validate_path_in_repo (rel_str (drop (length (parent d)) p))
          = Inr (rel_str (drop (length (parent d)) p))"
    by simp
qed

lemma sync_assets_eq:
  assumes "tidy l"
  shows "sync_assets l st =
     (Inr (), st\<lparr>out := out st @ [Print (py ''  Sync assets/ folder'')],
        operations := operations st @ CommitOperationDelete (py ''assets'') True #
          map (\<lambda>p. CommitOperationAdd (rel_str (drop (length (parent (assets_path l))) p)) (LocalFile p))
            (filter (is_file (fs st)) (glob_all (fs st) (assets_path l)))\<rparr>)"
proof -
  have d: "assets_path l \<noteq> []" "plain_name (last (assets_path l))"
    using assms plain_assets by (simp_all add: tidy_def)
  show ?thesis
    unfolding sync_assets_def block_def
    by (simp add: seq_def bnd_def print_def emit_def with_fs_def ret_def
          append_delete_eq[OF validate_plain[OF plain_assets]]
          add_files_eq[OF glob_all_valid[OF d]])
qed

lemma plain_default_app: "plain_name (py ''default_app'')"
  by (simp add: plain_name_def py_def slash_def)

lemma sync_app_eq:
  assumes "is_new st = Some new" and "tidy l"
  shows "sync_app l st =
     (Inr (), st\<lparr>out := out st @ [Print (py ''  Sync app folder'')],
        operations := operations st @
          CommitOperationDelete (if new then py ''default_app'' else app_name l) True #
          map (\<lambda>p. CommitOperationAdd (rel_str (drop (length (parent (app_path l))) p)) (LocalFile p))
            (filter (\<lambda>p. is_file (fs st) p \<and> \<not> sublist (py ''__pycache__'') (path_str p))
               (glob_all (fs st) (app_path l)))\<rparr>)"
proof -
  have d: "app_path l \<noteq> []" "plain_name (last (app_path l))" and n: "plain_name (app_name l)"
    using assms(2) by (simp_all add: tidy_def)
  have v: "validate_path_in_repo (if new then py ''default_app'' else app_name l)
      = Inr (if new then py ''default_app'' else app_name l)"
    using n plain_default_app by (simp add: validate_plain)
  show ?thesis
    unfolding sync_app_def block_def
    using assms(1)
    by (simp add: seq_def bnd_def print_def emit_def with_fs_def ret_def read_is_new_def
          append_delete_eq[OF v] add_files_eq[OF glob_all_valid[OF d]])
qed

lemma commit_eq:
  "is_new st = Some new \<Longrightarrow>
   commit w l st =
     (case create_commit w (repo_id l) (commit_message new (app_name l)) (operations st) (token l) of
        Inl e \<Rightarrow> (Inl e, st\<lparr>out := out st @
                   [CreateCommit (repo_id l) (commit_message new (app_name l)) (operations st)]\<rparr>)
      | Inr u \<Rightarrow> (Inr (), st\<lparr>out := out st @
                   [CreateCommit (repo_id l) (commit_message new (app_name l)) (operations st),
                    Print (py ''Your app has been successfully deployed!''),
                    Print (py ''Check it out: '' @ space_url_embed l)]\<rparr>))"
  unfolding commit_def block_def
  by (simp add: seq_def bnd_def print_def emit_def lift_def raise_def ret_def read_is_new_def
        split: sum.splits)

lemma store_all_append:
  "store_all w (es @ es') r =
     (case store_all w es r of None \<Rightarrow> None | Some r' \<Rightarrow> store_all w es' r')"
  by (induction es arbitrary: r) (auto split: option.splits)

lemma cached_same: "cached w r r"
  unfolding cached_def by (rule exI[of _ "[]"]) simp

lemma cached_trans: "cached w r1 r2 \<Longrightarrow> cached w r0 r1 \<Longrightarrow> cached w r0 r2"
  unfolding cached_def
proof -
  assume "\<exists>es. store_all w es r1 = Some r2" "\<exists>es. store_all w es r0 = Some r1"
  then obtain es es' where "store_all w es r1 = Some r2" "store_all w es' r0 = Some r1"
    by blast
  then have "store_all w (es' @ es) r0 = Some r2"
    by (simp add: store_all_append)
  then show "\<exists>es. store_all w es r0 = Some r2" ..
qed

lemma cached_put: "put r (cache_path w repo f) v = Some r' \<Longrightarrow> cached w r r'"
  unfolding cached_def by (rule exI[of _ "[(repo, f, v)]"]) simp

lemma hf_hub_download_eq:
  "hf_hub_download w repo f tok st =
     (case remote_file w repo f tok of
        Inl e \<Rightarrow> (Inl e, st\<lparr>out := out st @ [HubDownload repo f]\<rparr>)
      | Inr v \<Rightarrow>
          (case put (fs st) (cache_path w repo f) v of
             None \<Rightarrow> (Inl (OSError (py ''cache'')), st\<lparr>out := out st @ [HubDownload repo f]\<rparr>)
           | Some r \<Rightarrow> (Inr (cache_path w repo f),
                        st\<lparr>fs := r, out := out st @ [HubDownload repo f]\<rparr>)))"
  unfolding hf_hub_download_def monad_defs
  by (simp split: sum.splits option.splits)

lemma frame_refl: "frame w s s"
  by (simp add: frame_def cached_same)

lemma frame_trans: "frame w s t \<Longrightarrow> frame w t u \<Longrightarrow> frame w s u"
  by (auto simp: frame_def intro: cached_trans)

lemma hf_hub_download_frame: "frame w st (snd (hf_hub_download w repo f tok st))"
  by (auto simp: hf_hub_download_eq frame_def committed_def posted_def cached_same cached_put
        split: sum.splits option.splits)

lemma RepoCard_load_frame: "frame w st (snd (RepoCard_load w x tok st))"
proof (cases "exists_path (fs st) (joinpath (cwd w) x)")
  case True
  then show ?thesis
    unfolding RepoCard_load_def bnd_def with_fs_def lift_def ret_def raise_def
    by (simp add: frame_refl split: sum.splits)
next
  case False
  have "frame w st (snd (hf_hub_download w x (py ''README.md'') tok st))"
    by (rule hf_hub_download_frame)
  with False show ?thesis
    unfolding RepoCard_load_def bnd_def with_fs_def lift_def ret_def raise_def
    by (auto split: sum.splits prod.splits)
qed

lemma block_Nil: "block [] = ret ()"
  by (simp add: block_def)

lemma block_Cons: "block (m # ms) = seq m (block ms)"
  by (simp add: block_def)

lemma seq_Inr: "m st = (Inr (), st') \<Longrightarrow> seq m n st = n st'"
  by (simp add: seq_def bnd_def)

lemma seq_Inl: "m st = (Inl e, st') \<Longrightarrow> seq m n st = (Inl e, st')"
  by (simp add: seq_def bnd_def)

lemma sync_all_eq:
  assumes "is_new st = Some new" and "tidy l"
  shows "sync_all w l st =
     (case create_commit w (repo_id l) (commit_message new (app_name l))
             (operations st @ sync_ops (fs st) l new) (token l) of
        Inl e \<Rightarrow> Inl e | Inr u \<Rightarrow> Inr (),
      st\<lparr>out := out st @
            [Print (if is_file (fs st) (joinpath (parent (app_path l)) (py ''requirements.txt''))
                    then py ''  Sync requirements.txt'' else py ''  requirements.txt not found''),
             Print (py ''  Sync assets/ folder''),
             Print (py ''  Sync app folder''),
             CreateCommit (repo_id l) (commit_message new (app_name l))
               (operations st @ sync_ops (fs st) l new)]
            @ (case create_commit w (repo_id l) (commit_message new (app_name l))
                      (operations st @ sync_ops (fs st) l new) (token l) of
                 Inl e \<Rightarrow> []
               | Inr u \<Rightarrow> [Print (py ''Your app has been successfully deployed!''),
                           Print (py ''Check it out: '' @ space_url_embed l)]),
          operations := operations st @ sync_ops (fs st) l new\<rparr>)"
proof -
  define m1 where "m1 = (if is_file (fs st) (joinpath (parent (app_path l)) (py ''requirements.txt''))
                    then py ''  Sync requirements.txt'' else py ''  requirements.txt not found'')"
  define s1 where "s1 = st\<lparr>out := out st @ [Print m1],
                    operations := operations st @ requirements_ops (fs st) (app_path l)\<rparr>"
  define s2 where "s2 = s1\<lparr>out := out s1 @ [Print (py ''  Sync assets/ folder'')],
                    operations := operations s1 @ CommitOperationDelete (py ''assets'') True
                       # upload_ops (fs st) (\<lambda>p. True) (assets_path l)\<rparr>"
  define s3 where "s3 = s2\<lparr>out := out s2 @ [Print (py ''  Sync app folder'')],
                    operations := operations s2 @
                       CommitOperationDelete (if new then py ''default_app'' else app_name l) True
                       # upload_ops (fs st) (\<lambda>p. \<not> sublist (py ''__pycache__'') (path_str p))
                           (app_path l)\<rparr>"
  have r1: "sync_requirements l st = (Inr (), s1)"
    by (simp add: sync_requirements_eq s1_def m1_def requirements_ops_def)
  have f1: "fs s1 = fs st" "is_new s1 = Some new"
    using assms(1) by (simp_all add: s1_def)
  have r2: "sync_assets l s1 = (Inr (), s2)"
    by (simp add: sync_assets_eq[OF assms(2)] s2_def upload_ops_def f1)
  have f2: "fs s2 = fs st" "is_new s2 = Some new"
    using f1 by (simp_all add: s2_def)
  have r3: "sync_app l s2 = (Inr (), s3)"
    by (simp add: sync_app_eq[OF f2(2) assms(2)] s3_def upload_ops_def f2)
  have f3: "is_new s3 = Some new"
    using f2 by (simp add: s3_def)
  have ops3: "operations s3 = operations st @ sync_ops (fs st) l new"
    by (simp add: s3_def s2_def s1_def sync_ops_def)
  have out3: "out s3 = out st @ [Print m1, Print (py ''  Sync assets/ folder''),
                                 Print (py ''  Sync app folder'')]"
    by (simp add: s3_def s2_def s1_def)
  have s3_eq: "s3 = st\<lparr>out := out s3, operations := operations s3\<rparr>"
    by (simp add: s3_def s2_def s1_def)
  have run: "sync_all w l st = seq (commit w l) (ret ()) s3"
    unfolding sync_all_def
    by (simp add: block_Cons block_Nil seq_Inr[where m="sync_requirements l", OF r1]
          seq_Inr[where m="sync_assets l", OF r2] seq_Inr[where m="sync_app l", OF r3])
  have "seq (commit w l) (ret ()) s3 = commit w l s3"
    by (simp add: seq_def bnd_def ret_def split: sum.splits prod.splits)
  with run have "sync_all w l st = commit w l s3"
    by simp
  also have "commit w l s3 =
     (case create_commit w (repo_id l) (commit_message new (app_name l)) (operations s3) (token l) of
        Inl e \<Rightarrow> (Inl e, s3\<lparr>out := out s3 @
                   [CreateCommit (repo_id l) (commit_message new (app_name l)) (operations s3)]\<rparr>)
      | Inr u \<Rightarrow> (Inr (), s3\<lparr>out := out s3 @
                   [CreateCommit (repo_id l) (commit_message new (app_name l)) (operations s3),
                    Print (py ''Your app has been successfully deployed!''),
                    Print (py ''Check it out: '' @ space_url_embed l)]\<rparr>))"
    by (rule commit_eq[OF f3])
  finally have fin: "sync_all w l st =
     (case create_commit w (repo_id l) (commit_message new (app_name l)) (operations s3) (token l) of
        Inl e \<Rightarrow> (Inl e, s3\<lparr>out := out s3 @
                   [CreateCommit (repo_id l) (commit_message new (app_name l)) (operations s3)]\<rparr>)
      | Inr u \<Rightarrow> (Inr (), s3\<lparr>out := out s3 @
                   [CreateCommit (repo_id l) (commit_message new (app_name l)) (operations s3),
                    Print (py ''Your app has been successfully deployed!''),
                    Print (py ''Check it out: '' @ space_url_embed l)]\<rparr>))" .
  show ?thesis
    unfolding fin
    by (subst (1 2) s3_eq) (simp add: ops3 out3 m1_def split: sum.splits)
qed

lemma frame_print: "frame w st (st\<lparr>out := out st @ [Print x]\<rparr>)"
  by (simp add: frame_def committed_def posted_def cached_same)

lemma fetch_add:
  assumes "plain_name n"
  shows "adds_one w n (seq (print x) (bnd (hf_hub_download w repo f tok) (\<lambda>p.
      bnd (with_fs (\<lambda>r. lift (read_text r p))) (\<lambda>v.
        append_add n (Bytes (g v))))))"
  unfolding adds_one_def
proof
  fix st :: state
  let ?s0 = "st\<lparr>out := out st @ [Print x]\<rparr>"
  obtain r1 s1 where d: "hf_hub_download w repo f tok ?s0 = (r1, s1)"
    by fastforce
  have f: "frame w st s1"
    using hf_hub_download_frame[of w ?s0 repo f tok] d frame_print[of w st x]
    by (simp add: frame_trans)
  show "case seq (print x) (bnd (hf_hub_download w repo f tok) (\<lambda>p.
      bnd (with_fs (\<lambda>r. lift (read_text r p))) (\<lambda>v.
        append_add n (Bytes (g v))))) st of
       (Inl e, st') \<Rightarrow> frame w st st'
     | (Inr u, st') \<Rightarrow> is_new st' = is_new st \<and> committed st' = committed st
          \<and> posted st' = posted st \<and> cached w (fs st) (fs st')
          \<and> (\<exists>c. operations st' = operations st @ [CommitOperationAdd n (Bytes c)])"
    using d f
    by (cases r1; cases "read_text (fs s1) (projr r1)")
       (simp_all add: seq_def bnd_def print_def emit_def with_fs_def lift_def raise_def ret_def
          append_add_bytes[OF validate_plain[OF assms]] frame_def committed_def posted_def)
qed

lemma plain_pcconfig: "plain_name (py ''pcconfig_docker.py'')"
  by (simp add: plain_name_def py_def slash_def)

lemma plain_dockerfile: "plain_name (py ''Dockerfile'')"
  by (simp add: plain_name_def py_def slash_def)

lemma add_pcconfig_adds: "adds_one w (py ''pcconfig_docker.py'') (add_pcconfig w l)"
  unfolding add_pcconfig_def by (rule fetch_add[OF plain_pcconfig])

lemma add_dockerfile_adds: "adds_one w (py ''Dockerfile'') (add_dockerfile w l)"
  unfolding add_dockerfile_def by (rule fetch_add[OF plain_dockerfile])

lemma is_file_exists: "is_file r p \<Longrightarrow> exists_path r p"
  by (auto simp: is_file_def exists_path_def split: option.splits)

lemma RepoCard_load_local:
  "exists_path (fs st) (joinpath (cwd w) x) \<Longrightarrow>
   RepoCard_load w x tok st =
     (case read_text (fs st) (joinpath (cwd w) x) of
        Inl e \<Rightarrow> (Inl e, st)
      | Inr v \<Rightarrow> (case parse_card w v of Inl e \<Rightarrow> (Inl e, st) | Inr c \<Rightarrow> (Inr c, st)))"
  unfolding RepoCard_load_def bnd_def with_fs_def lift_def ret_def raise_def
  by (simp split: sum.splits)

lemma add_readme_eq:
  assumes "RepoCard_load w (repo_id l) (token l) st = (Inr rcard, s1)"
  shows "add_readme w l st =
    (if is_file (fs s1) (joinpath (cwd w) (py ''README.md''))
     then (case read_text (fs s1) (joinpath (cwd w) (py ''README.md'')) of
             Inl e \<Rightarrow> (Inl e, s1\<lparr>out := out s1 @
                        [Print (py ''  README.md file found locally. Adding it to the Space.'')]\<rparr>)
           | Inr v \<Rightarrow> (case parse_card w v of
                 Inl e \<Rightarrow> (Inl e, s1\<lparr>out := out s1 @
                        [Print (py ''  README.md file found locally. Adding it to the Space.'')]\<rparr>)
               | Inr local_card \<Rightarrow> (Inr (), s1\<lparr>out := out s1 @
                        [Print (py ''  README.md file found locally. Adding it to the Space.'')],
                      operations := operations s1 @ [readme_op w l rcard (card_text local_card)]\<rparr>)))
     else (Inr (), s1\<lparr>out := out s1 @
              [Print (py ''  README.md file not found locally. Adapting the existing remote one.'')],
            operations := operations s1 @ [readme_op w l rcard (readme_text w (app_name l))]\<rparr>))"
proof (cases "is_file (fs s1) (joinpath (cwd w) (py ''README.md''))")
  case True
  let ?s = "s1\<lparr>out := out s1 @
                        [Print (py ''  README.md file found locally. Adding it to the Space.'')]\<rparr>"
  have "exists_path (fs ?s) (joinpath (cwd w) (py ''README.md''))"
    using True by (simp add: is_file_exists)
  note loc = RepoCard_load_local[OF this, of None]
  show ?thesis
    using True assms
    by (simp add: add_readme_def bnd_def with_fs_def seq_def print_def emit_def ret_def
          append_add_bytes[OF validate_plain[OF plain_readme]] readme_op_def loc split: sum.splits)
next
  case False
  then show ?thesis
    using assms
    by (simp add: add_readme_def bnd_def with_fs_def seq_def print_def emit_def ret_def
          append_add_bytes[OF validate_plain[OF plain_readme]] readme_op_def)
qed

lemma add_readme_Inl:
  "RepoCard_load w (repo_id l) (token l) st = (Inl e, s1) \<Longrightarrow> add_readme w l st = (Inl e, s1)"
  by (simp add: add_readme_def bnd_def)

lemma add_readme_adds: "adds_one w (py ''README.md'') (add_readme w l)"
  unfolding adds_one_def
proof
  fix st :: state
  obtain r1 s1 where d: "RepoCard_load w (repo_id l) (token l) st = (r1, s1)"
    by fastforce
  have f: "frame w st s1"
    using RepoCard_load_frame[of w st "repo_id l" "token l"] d by simp
  show "case add_readme w l st of
       (Inl e, st') \<Rightarrow> frame w st st'
     | (Inr u, st') \<Rightarrow> is_new st' = is_new st \<and> committed st' = committed st
          \<and> posted st' = posted st \<and> cached w (fs st) (fs st')
          \<and> (\<exists>c. operations st' = operations st @ [CommitOperationAdd (py ''README.md'') (Bytes c)])"
  proof (cases r1)
    case (Inl e)
    with d f show ?thesis by (simp add: add_readme_Inl)
  next
    case (Inr rcard)
    with d have "RepoCard_load w (repo_id l) (token l) st = (Inr rcard, s1)" by simp
    from add_readme_eq[OF this] f show ?thesis
      by (simp add: frame_def committed_def posted_def readme_op_def split: sum.splits)
  qed
qed

lemma adds_one_Inr:
  "adds_one w n m \<Longrightarrow> m st = (Inr u, st') \<Longrightarrow>
     is_new st' = is_new st \<and> committed st' = committed st \<and> posted st' = posted st
     \<and> cached w (fs st) (fs st')
     \<and> (\<exists>c. operations st' = operations st @ [CommitOperationAdd n (Bytes c)])"
  unfolding adds_one_def by (drule spec[of _ st]) simp

lemma adds_one_Inl: "adds_one w n m \<Longrightarrow> m st = (Inl e, st') \<Longrightarrow> frame w st st'"
  unfolding adds_one_def by (drule spec[of _ st]) simp

lemma setup_space_update:
  "is_new st = Some False \<Longrightarrow>
   setup_space w l st = (Inr (), st\<lparr>out := out st @
     [Print (py ''  Space already configured. Do not update README.md, Dockerfile and pcconfig.py'')]\<rparr>)"
  by (simp add: setup_space_def bnd_def read_is_new_def ret_def print_def emit_def)

lemma setup_space_unbound:
  "is_new st = None \<Longrightarrow> setup_space w l st = (Inl (UnboundLocalError (py ''is_new'')), st)"
  by (simp add: setup_space_def bnd_def read_is_new_def raise_def)

lemma setup_space_new:
  assumes new: "is_new st = Some True" and run: "setup_space w l st = (res, st')"
  shows "is_new st' = Some True \<and> committed st' = committed st \<and> posted st' = posted st
     \<and> cached w (fs st) (fs st')
     \<and> (case res of
          Inl e \<Rightarrow> \<exists>ops. operations st' = operations st @ ops
        | Inr u \<Rightarrow> \<exists>c1 c2 c3. operations st' = operations st @
             [CommitOperationAdd (py ''README.md'') (Bytes c1),
              CommitOperationAdd (py ''pcconfig_docker.py'') (Bytes c2),
              CommitOperationAdd (py ''Dockerfile'') (Bytes c3)])"
proof -
  have eq: "setup_space w l st =
      seq (add_readme w l) (seq (add_pcconfig w l) (seq (add_dockerfile w l) (ret ()))) st"
    using new by (simp add: setup_space_def bnd_def read_is_new_def ret_def block_Cons block_Nil)
  obtain r1 s1 where a1: "add_readme w l st = (r1, s1)" by fastforce
  show ?thesis
  proof (cases r1)
    case (Inl e)
    with a1 adds_one_Inl[OF add_readme_adds, of w l st e s1] run eq new show ?thesis
      by (auto simp: seq_Inl[where m="add_readme w l"] frame_def)
  next
    case Inr
    then have a1': "add_readme w l st = (Inr (), s1)" using a1 by simp
    note p1 = adds_one_Inr[OF add_readme_adds a1']
    obtain r2 s2 where a2: "add_pcconfig w l s1 = (r2, s2)" by fastforce
    show ?thesis
    proof (cases r2)
      case (Inl e)
      with a2 adds_one_Inl[OF add_pcconfig_adds, of w l s1 e s2] run eq new p1 show ?thesis
        by (auto simp: seq_Inr[where m="add_readme w l", OF a1'] seq_Inl[where m="add_pcconfig w l"]
              frame_def intro: cached_trans)
    next
      case Inr
      then have a2': "add_pcconfig w l s1 = (Inr (), s2)" using a2 by simp
      note p2 = adds_one_Inr[OF add_pcconfig_adds a2']
      obtain r3 s3 where a3: "add_dockerfile w l s2 = (r3, s3)" by fastforce
      show ?thesis
      proof (cases r3)
        case (Inl e)
        with a3 adds_one_Inl[OF add_dockerfile_adds, of w l s2 e s3] run eq new p1 p2 show ?thesis
          by (auto simp: seq_Inr[where m="add_readme w l", OF a1']
                seq_Inr[where m="add_pcconfig w l", OF a2'] seq_Inl[where m="add_dockerfile w l"]
                frame_def intro: cached_trans)
      next
        case Inr
        then have a3': "add_dockerfile w l s2 = (Inr (), s3)" using a3 by simp
        note p3 = adds_one_Inr[OF add_dockerfile_adds a3']
        have "setup_space w l st = (Inr (), s3)"
          by (simp add: eq seq_Inr[where m="add_readme w l", OF a1']
                seq_Inr[where m="add_pcconfig w l", OF a2']
                seq_Inr[where m="add_dockerfile w l", OF a3'] ret_def)
        with run have "res = Inr ()" "st' = s3" by simp_all
        with p1 p2 p3 new show ?thesis
          by (auto intro: cached_trans)
      qed
    qed
  qed
qed

lemma deploy_find_fail:
  "find_app w arg (start r) = (Inl e, s) \<Longrightarrow>
   deploy w arg private tok (start r) = (Inl e, start r)"
  using find_app_state[of w arg "start r"] by (simp add: deploy_def bnd_def)

lemma deploy_whoami_fail:
  "find_app w arg (start r) = (Inr found, s) \<Longrightarrow> whoami w tok = Inl e \<Longrightarrow>
   deploy w arg private tok (start r) = (Inl e, (start r)\<lparr>out := [Whoami tok]\<rparr>)"
  using find_app_state[of w arg "start r"]
  by (simp add: deploy_def bnd_def seq_def emit_def lift_def raise_def start_def)

lemma deploy_push:
  "find_app w arg (start r) = (Inr found, s) \<Longrightarrow> whoami w tok = Inr user \<Longrightarrow>
   deploy w arg private tok (start r) =
     push w (mk_locals w tok found user) private ((start r)\<lparr>out := [Whoami tok]\<rparr>)"
  using find_app_state[of w arg "start r"]
  by (simp add: deploy_def bnd_def seq_def emit_def lift_def ret_def start_def)

lemma push_eq:
  "push w l private st =
     seq (print (py ''Repo ID: '' @ repo_id l)) (seq (duplicate_space w l private)
       (seq (set_operations []) (seq (setup_space w l) (sync_all w l)))) st"
  by (simp add: push_def block_Cons sync_all_def)

lemma push_post_fail:
  "post_duplicate w (repo_id l) private (token l) = Inl e \<Longrightarrow>
   push w l private st =
     (Inl e, st\<lparr>out := out st @ [Print (py ''Repo ID: '' @ repo_id l), Post (repo_id l) private]\<rparr>)"
  by (simp add: push_eq seq_def bnd_def print_def emit_def duplicate_space_eq)

lemma push_bad_status:
  "post_duplicate w (repo_id l) private (token l) = Inr s \<Longrightarrow> 400 \<le> s \<Longrightarrow> s < 600 \<Longrightarrow>
   s \<noteq> 409 \<Longrightarrow> is_new st = None \<Longrightarrow>
   push w l private st =
     (Inl (UnboundLocalError (py ''is_new'')),
      st\<lparr>out := out st @ [Print (py ''Repo ID: '' @ repo_id l), Post (repo_id l) private],
         operations := []\<rparr>)"
  by (simp add: push_eq seq_def bnd_def print_def emit_def duplicate_space_eq set_operations_def
        setup_space_unbound)

lemma push_update:
  assumes "post_duplicate w (repo_id l) private (token l) = Inr 409"
  shows "\<exists>st1. push w l private st = sync_all w l st1 \<and> fs st1 = fs st
     \<and> out st1 = out st @ [Print (py ''Repo ID: '' @ repo_id l),
          Post (repo_id l) private, Print (py ''Space already exist: '' @ space_url l),
          Print (py ''  Space already configured. Do not update README.md, Dockerfile and pcconfig.py'')]
     \<and> operations st1 = [] \<and> is_new st1 = Some False"
  using assms
  apply (simp add: push_eq seq_def bnd_def print_def emit_def duplicate_space_eq set_operations_def
        setup_space_update)
  apply (intro exI conjI)
      apply (rule refl)
     apply simp_all
  done

lemma push_new:
  assumes "post_duplicate w (repo_id l) private (token l) = Inr s" "\<not> (400 \<le> s \<and> s < 600)"
  shows "\<exists>st1. push w l private st = seq (setup_space w l) (sync_all w l) st1 \<and> fs st1 = fs st
     \<and> out st1 = out st @ [Print (py ''Repo ID: '' @ repo_id l),
          Post (repo_id l) private, Print (py ''New Space created: '' @ space_url l)]
     \<and> operations st1 = [] \<and> is_new st1 = Some True"
  using assms
  apply (simp add: push_eq seq_def bnd_def print_def emit_def duplicate_space_eq set_operations_def)
  apply (intro exI conjI)
      apply (rule refl)
     apply simp_all
  done


lemma mk_locals_sel:
  "app_name (mk_locals w tok (cfg, name, app, assets) user) = name"
  "app_path (mk_locals w tok (cfg, name, app, assets) user) = app"
  "assets_path (mk_locals w tok (cfg, name, app, assets) user) = assets"
  "token (mk_locals w tok (cfg, name, app, assets) user) = tok"
  "repo_id (mk_locals w tok (cfg, name, app, assets) user)
     = user @ py ''/'' @ curated_name (isalnum w) name"
  "curated_app_name (mk_locals w tok (cfg, name, app, assets) user)
     = curated_name (isalnum w) name"
  by (simp_all add: mk_locals_def)

lemma find_app_Inr:
  assumes "find_app w arg st = (Inr (cfg, name, app, assets), st')"
  shows "cfg = resolve (cwd w) arg" and "is_file (fs st) cfg"
    and "\<exists>v. read_text (fs st) cfg = Inr v \<and> search_app_name v = Some name"
    and "app = joinpath (parent cfg) name" and "is_dir (fs st) app"
    and "assets = parent cfg @ [py ''assets'']" and "is_dir (fs st) assets"
proof -
  let ?c = "resolve (cwd w) arg"
  have f: "is_file (fs st) ?c"
  proof (rule ccontr)
    assume "\<not> is_file (fs st) ?c"
    then have "fst (find_app w arg st) = Inl (ValueError (py ''Could not find pcconfig file at '' @ path_str ?c))"
      by (simp add: find_app_eq)
    with assms show False by simp
  qed
  obtain v where v: "read_text (fs st) ?c = Inr v"
  proof (cases "read_text (fs st) ?c")
    case (Inl e)
    with f have "fst (find_app w arg st) = Inl e" by (simp add: find_app_eq)
    with assms show ?thesis by simp
  next
    case (Inr v)
    then show ?thesis by (rule that)
  qed
  obtain n where n: "search_app_name v = Some n"
  proof (cases "search_app_name v")
    case None
    with f v have "fst (find_app w arg st) = Inl (ValueError (py ''Could not find app_name in '' @ path_str ?c))"
      by (simp add: find_app_eq)
    with assms show ?thesis by simp
  next
    case (Some n)
    then show ?thesis by (rule that)
  qed
  have d1: "is_dir (fs st) (joinpath (parent ?c) n)"
  proof (rule ccontr)
    assume "\<not> is_dir (fs st) (joinpath (parent ?c) n)"
    with f v n have "fst (find_app w arg st) = Inl (ValueError (py ''Could not find app folder at ''
                    @ path_str (joinpath (parent ?c) n)))"
      by (simp add: find_app_eq)
    with assms show False by simp
  qed
  have d2: "is_dir (fs st) (joinpath (parent ?c) (py ''assets''))"
  proof (rule ccontr)
    assume "\<not> is_dir (fs st) (joinpath (parent ?c) (py ''assets''))"
    with f v n d1 have "fst (find_app w arg st) = Inl (ValueError (py ''Could not find assets folder at ''
                    @ path_str (joinpath (parent ?c) (py ''assets''))))"
      by (simp add: find_app_eq)
    with assms show False by simp
  qed
  have "find_app w arg st = (Inr (?c, n, joinpath (parent ?c) n, joinpath (parent ?c) (py ''assets'')), st)"
    using f v n d1 d2 by (simp add: find_app_eq)
  from trans[OF assms[symmetric] this]
  have e: "cfg = ?c" "name = n" "app = joinpath (parent ?c) n"
    "assets = joinpath (parent ?c) (py ''assets'')"
    by auto
  show "cfg = resolve (cwd w) arg" by (rule e(1))
  show "is_file (fs st) cfg" unfolding e(1) by (rule f)
  show "\<exists>v. read_text (fs st) cfg = Inr v \<and> search_app_name v = Some name"
    unfolding e(1,2) using v n by blast
  show "app = joinpath (parent cfg) name" unfolding e(1,2) by (rule e(3))
  show "is_dir (fs st) app" unfolding e(3) by (rule d1)
  show "assets = parent cfg @ [py ''assets'']"
    unfolding e(1) e(4) by (rule joinpath_plain[OF plain_assets])
  show "is_dir (fs st) assets" unfolding e(4) by (rule d2)
qed

lemma tidy_mk_locals:
  assumes "find_app w arg st = (Inr (cfg, name, app, assets), st')" and "plain_name name"
  shows "tidy (mk_locals w tok (cfg, name, app, assets) user)"
  using find_app_Inr(4,6)[OF assms(1)] assms(2)
  by (simp add: tidy_def mk_locals_sel joinpath_plain)

section \<open>Steps that only queue deletions and uploads\<close>

lemma quiet_ret: "quiet (ret ())"
  by (simp add: quiet_def ret_def)

lemma quiet_raise: "quiet (raise e)"
  by (simp add: quiet_def raise_def)

lemma quiet_print: "quiet (print x)"
  by (simp add: quiet_def print_def emit_def committed_def posted_def)

lemma quiet_seq:
  assumes "quiet m" and "quiet n"
  shows "quiet (seq m n)"
  unfolding quiet_def
proof
  fix st
  obtain r s where ms: "m st = (r, s)" by fastforce
  from assms(1) ms obtain ops1 where
    m: "fs s = fs st" "is_new s = is_new st" "committed s = committed st" "posted s = posted st"
       "operations s = operations st @ ops1" "\<forall>x\<in>set ops1. \<not> in_memory x"
    unfolding quiet_def by (metis snd_conv)
  show "fs (snd (seq m n st)) = fs st \<and> is_new (snd (seq m n st)) = is_new st
      \<and> committed (snd (seq m n st)) = committed st \<and> posted (snd (seq m n st)) = posted st
      \<and> (\<exists>ops. operations (snd (seq m n st)) = operations st @ ops \<and> (\<forall>x\<in>set ops. \<not> in_memory x))"
  proof (cases r)
    case (Inl e)
    with ms have "seq m n st = (Inl e, s)" by (simp add: seq_Inl)
    with m show ?thesis by auto
  next
    case (Inr u)
    with ms have e: "seq m n st = n s" by (simp add: seq_Inr)
    from assms(2) obtain ops2 where
      n: "fs (snd (n s)) = fs s" "is_new (snd (n s)) = is_new s"
         "committed (snd (n s)) = committed s" "posted (snd (n s)) = posted s"
         "operations (snd (n s)) = operations s @ ops2" "\<forall>x\<in>set ops2. \<not> in_memory x"
      unfolding quiet_def by metis
    have "operations (snd (n s)) = operations st @ (ops1 @ ops2)
        \<and> (\<forall>x\<in>set (ops1 @ ops2). \<not> in_memory x)"
      using m n by auto
    then have "\<exists>ops. operations (snd (n s)) = operations st @ ops \<and> (\<forall>x\<in>set ops. \<not> in_memory x)"
      by blast
    with m n show ?thesis unfolding e by simp
  qed
qed

lemma quiet_block: "\<forall>m\<in>set ms. quiet m \<Longrightarrow> quiet (block ms)"
  by (induction ms) (simp_all add: block_Nil block_Cons quiet_ret quiet_seq)

lemma quiet_with_fs: "(\<And>r. quiet (f r)) \<Longrightarrow> quiet (with_fs f)"
  by (simp add: quiet_def with_fs_def)

lemma quiet_read_is_new: "(\<And>b. quiet (f b)) \<Longrightarrow> quiet (bnd read_is_new f)"
  by (simp add: quiet_def bnd_def read_is_new_def raise_def ret_def split: option.splits)

lemma quiet_append_delete: "quiet (append_delete p f)"
  unfolding quiet_def
proof
  fix st
  show "fs (snd (append_delete p f st)) = fs st \<and> is_new (snd (append_delete p f st)) = is_new st
      \<and> committed (snd (append_delete p f st)) = committed st
      \<and> posted (snd (append_delete p f st)) = posted st
      \<and> (\<exists>ops. operations (snd (append_delete p f st)) = operations st @ ops
            \<and> (\<forall>x\<in>set ops. \<not> in_memory x))"
  proof (cases "validate_path_in_repo p")
    case (Inl e)
    then show ?thesis by (simp add: append_delete_fail)
  next
    case (Inr q)
    then have "snd (append_delete p f st) = st\<lparr>operations := operations st @
        [CommitOperationDelete q (case f of None \<Rightarrow> q \<noteq> [] \<and> last q = slash | Some b \<Rightarrow> b)]\<rparr>"
      by (simp add: append_delete_def CommitOperationDelete_init_def bnd_def lift_def ret_def
            append_op_def)
    then show ?thesis by (simp add: committed_def posted_def)
  qed
qed

lemma append_add_cases:
  "snd (append_add p c st) = st
   \<or> (\<exists>q. snd (append_add p c st) = st\<lparr>operations := operations st @ [CommitOperationAdd q c]\<rparr>)"
proof (cases "validate_path_in_repo p")
  case (Inl e)
  then show ?thesis by (simp add: append_add_fail)
next
  case (Inr q)
  show ?thesis
  proof (cases c)
    case (Bytes b)
    with Inr have "snd (append_add p c st)
        = st\<lparr>operations := operations st @ [CommitOperationAdd q c]\<rparr>"
      by (simp add: append_add_bytes)
    then show ?thesis by blast
  next
    case (LocalFile f)
    show ?thesis
    proof (cases "is_file (fs st) (normalize f)")
      case False
      with Inr LocalFile show ?thesis
        by (simp add: append_add_def CommitOperationAdd_init_def bnd_def lift_def raise_def
              with_fs_def)
    next
      case True
      show ?thesis
      proof (cases "read_text (fs st) f")
        case (Inl e)
        with True Inr LocalFile show ?thesis
          by (simp add: append_add_def CommitOperationAdd_init_def bnd_def lift_def raise_def
                with_fs_def)
      next
        case (Inr v)
        with True \<open>validate_path_in_repo p = Inr q\<close> LocalFile
        have "snd (append_add p c st)
            = st\<lparr>operations := operations st @ [CommitOperationAdd q c]\<rparr>"
          by (simp add: append_add_def CommitOperationAdd_init_def bnd_def lift_def ret_def
                with_fs_def append_op_def)
        then show ?thesis by blast
      qed
    qed
  qed
qed

lemma quiet_append_add: "quiet (append_add p (LocalFile f))"
  unfolding quiet_def
proof
  fix st
  from append_add_cases[of p "LocalFile f" st]
  show "fs (snd (append_add p (LocalFile f) st)) = fs st
      \<and> is_new (snd (append_add p (LocalFile f) st)) = is_new st
      \<and> committed (snd (append_add p (LocalFile f) st)) = committed st
      \<and> posted (snd (append_add p (LocalFile f) st)) = posted st
      \<and> (\<exists>ops. operations (snd (append_add p (LocalFile f) st)) = operations st @ ops
            \<and> (\<forall>x\<in>set ops. \<not> in_memory x))"
  proof
    assume "snd (append_add p (LocalFile f) st) = st"
    then show ?thesis by simp
  next
    assume "\<exists>q. snd (append_add p (LocalFile f) st)
        = st\<lparr>operations := operations st @ [CommitOperationAdd q (LocalFile f)]\<rparr>"
    then obtain q where "snd (append_add p (LocalFile f) st)
        = st\<lparr>operations := operations st @ [CommitOperationAdd q (LocalFile f)]\<rparr>" by blast
    then show ?thesis by (simp add: committed_def posted_def)
  qed
qed

lemma quiet_add_files: "quiet (add_files keep base ps)"
proof (induction ps)
  case Nil
  show ?case by (simp add: quiet_ret)
next
  case (Cons p ps)
  have "\<And>r. quiet (if is_file r p \<and> keep p
            then (case relative_to p base of
                    None \<Rightarrow> raise (ValueError (path_str p))
                  | Some q \<Rightarrow> append_add (rel_str q) (LocalFile p))
            else ret ())"
    by (simp add: quiet_ret quiet_raise quiet_append_add split: option.splits)
  then show ?case
    using Cons by (simp add: quiet_seq quiet_with_fs)
qed

lemma quiet_sync_requirements: "quiet (sync_requirements l)"
  unfolding sync_requirements_def
  by (intro quiet_with_fs) (simp add: quiet_block quiet_print quiet_append_delete quiet_append_add)

lemma quiet_sync_assets: "quiet (sync_assets l)"
  unfolding sync_assets_def
  by (intro quiet_block)
     (simp add: quiet_print quiet_append_delete quiet_with_fs quiet_add_files)

lemma quiet_sync_app: "quiet (sync_app l)"
  unfolding sync_app_def
  by (intro quiet_seq quiet_print quiet_read_is_new quiet_block)
     (simp add: quiet_append_delete quiet_with_fs quiet_add_files)

lemma quiet_syncs: "quiet (block [sync_requirements l, sync_assets l, sync_app l])"
  by (rule quiet_block) (simp add: quiet_sync_requirements quiet_sync_assets quiet_sync_app)

lemma seq_assoc: "seq (seq a b) c = seq a (seq b c)"
  by (auto simp: seq_def bnd_def fun_eq_iff split: sum.splits prod.splits)

lemma seq_ret: "seq m (ret ()) = m"
  by (auto simp: seq_def bnd_def ret_def fun_eq_iff split: sum.splits prod.splits)

lemma sync_all_split:
  "sync_all w l = seq (block [sync_requirements l, sync_assets l, sync_app l]) (commit w l)"
  by (simp only: sync_all_def block_Cons block_Nil seq_assoc seq_ret)

lemma sync_all_general:
  assumes "is_new st = Some new" and "sync_all w l st = (res, st')"
  shows "fs st' = fs st" and "is_new st' = Some new" and "posted st' = posted st"
    and "\<exists>ops. operations st' = operations st @ ops \<and> (\<forall>x\<in>set ops. \<not> in_memory x)"
    and "committed st' = committed st
         \<or> committed st' = committed st @
              [(repo_id l, commit_message new (app_name l), operations st')]"
    and "(\<exists>x. res = Inr x) \<longrightarrow> committed st' = committed st @
              [(repo_id l, commit_message new (app_name l), operations st')]"
proof -
  let ?pre = "block [sync_requirements l, sync_assets l, sync_app l]"
  obtain r0 s0 where p: "?pre st = (r0, s0)" by fastforce
  from quiet_syncs[of l] p obtain ops where
    q: "fs s0 = fs st" "is_new s0 = is_new st" "committed s0 = committed st"
       "posted s0 = posted st" "operations s0 = operations st @ ops"
       "\<forall>x\<in>set ops. \<not> in_memory x"
    unfolding quiet_def by (metis snd_conv)
  have all: "fs st' = fs st \<and> is_new st' = Some new \<and> posted st' = posted st
    \<and> (\<exists>ops. operations st' = operations st @ ops \<and> (\<forall>x\<in>set ops. \<not> in_memory x))
    \<and> (committed st' = committed st
         \<or> committed st' = committed st @
              [(repo_id l, commit_message new (app_name l), operations st')])
    \<and> ((\<exists>x. res = Inr x) \<longrightarrow> committed st' = committed st @
              [(repo_id l, commit_message new (app_name l), operations st')])"
  proof (cases r0)
    case (Inl e)
    with p assms(2) have "res = Inl e" "st' = s0"
      by (simp_all add: sync_all_split seq_Inl)
    with q assms(1) show ?thesis by auto
  next
    case (Inr u)
    with p assms(2) have c: "commit w l s0 = (res, st')"
      by (simp add: sync_all_split seq_Inr)
    have n: "is_new s0 = Some new" using q assms(1) by simp
    from c q show ?thesis
      unfolding commit_eq[OF n]
      by (cases "create_commit w (repo_id l) (commit_message new (app_name l)) (operations s0) (token l)")
         (auto simp: committed_def posted_def n assms(1))
  qed
  show "fs st' = fs st" and "is_new st' = Some new" and "posted st' = posted st"
    and "\<exists>ops. operations st' = operations st @ ops \<and> (\<forall>x\<in>set ops. \<not> in_memory x)"
    and "committed st' = committed st
         \<or> committed st' = committed st @
              [(repo_id l, commit_message new (app_name l), operations st')]"
    and "(\<exists>x. res = Inr x) \<longrightarrow> committed st' = committed st @
              [(repo_id l, commit_message new (app_name l), operations st')]"
    using all by blast+
qed

lemma sync_all_props:
  assumes "is_new st = Some new" and "tidy l" and "sync_all w l st = (res, st')"
  shows "fs st' = fs st \<and> is_new st' = Some new
       \<and> operations st' = operations st @ sync_ops (fs st) l new
       \<and> committed st' = committed st @
            [(repo_id l, commit_message new (app_name l), operations st @ sync_ops (fs st) l new)]
       \<and> posted st' = posted st"
proof (cases "create_commit w (repo_id l) (commit_message new (app_name l))
             (operations st @ sync_ops (fs st) l new) (token l)")
  case (Inl e)
  from assms(3) assms(1) show ?thesis
    unfolding sync_all_eq[OF assms(1,2)] Inl
    by (auto simp: committed_def posted_def)
next
  case (Inr u)
  from assms(3) assms(1) show ?thesis
    unfolding sync_all_eq[OF assms(1,2)] Inr
    by (auto simp: committed_def posted_def)
qed

section \<open>The downloads of a first-time deploy\<close>

lemma stores_ret: "stores w [] (ret ())"
  unfolding stores_def ret_def
proof
  fix st
  have "subseq [] ([]::(pystr \<times> pystr \<times> pystr) list) \<and> store_all w [] (fs st) = Some (fs st)"
    by simp
  then show "\<exists>es. subseq es [] \<and> store_all w es (fs st) = Some (fs (snd (Inr (), st)))"
    by (metis snd_conv)
qed

lemma stores_seq:
  assumes "stores w d1 m" and "stores w d2 n"
  shows "stores w (d1 @ d2) (seq m n)"
  unfolding stores_def
proof
  fix st
  obtain r s where ms: "m st = (r, s)" by fastforce
  from assms(1) ms obtain es1 where
    1: "subseq es1 d1" "store_all w es1 (fs st) = Some (fs s)"
    unfolding stores_def by (metis snd_conv)
  show "\<exists>es. subseq es (d1 @ d2) \<and> store_all w es (fs st) = Some (fs (snd (seq m n st)))"
  proof (cases r)
    case (Inl e)
    with ms have "seq m n st = (Inl e, s)" by (simp add: seq_Inl)
    moreover have "subseq es1 (d1 @ d2)" using 1(1) by (rule list_emb_prefix)
    ultimately show ?thesis using 1(2) by auto
  next
    case (Inr u)
    with ms have e: "seq m n st = n s" by (simp add: seq_Inr)
    from assms(2) obtain es2 where
      2: "subseq es2 d2" "store_all w es2 (fs s) = Some (fs (snd (n s)))"
      unfolding stores_def by metis
    have "subseq (es1 @ es2) (d1 @ d2)" using 1(1) 2(1) by (rule list_emb_append_mono)
    moreover have "store_all w (es1 @ es2) (fs st) = Some (fs (snd (n s)))"
      using 1(2) 2(2) by (simp add: store_all_append)
    ultimately show ?thesis unfolding e by blast
  qed
qed

lemma hf_hub_download_stores:
  "\<exists>es. subseq es (served w repo tok f)
      \<and> store_all w es (fs st) = Some (fs (snd (hf_hub_download w repo f tok st)))"
proof (cases "remote_file w repo f tok")
  case (Inl e)
  then have "store_all w [] (fs st) = Some (fs (snd (hf_hub_download w repo f tok st)))"
    by (simp add: hf_hub_download_eq)
  then show ?thesis by (intro exI[of _ "[]"]) simp
next
  case (Inr v)
  show ?thesis
  proof (cases "put (fs st) (cache_path w repo f) v")
    case None
    with Inr have "store_all w [] (fs st) = Some (fs (snd (hf_hub_download w repo f tok st)))"
      by (simp add: hf_hub_download_eq)
    then show ?thesis by (intro exI[of _ "[]"]) simp
  next
    case (Some r)
    with Inr have "store_all w [(repo, f, v)] (fs st)
        = Some (fs (snd (hf_hub_download w repo f tok st)))"
      by (simp add: hf_hub_download_eq)
    moreover have "subseq [(repo, f, v)] (served w repo tok f)"
      using Inr by (simp add: served_def)
    ultimately show ?thesis by blast
  qed
qed

lemma RepoCard_load_fs:
  "fs (snd (RepoCard_load w x tok st)) = fs st
   \<or> fs (snd (RepoCard_load w x tok st)) = fs (snd (hf_hub_download w x (py ''README.md'') tok st))"
proof (cases "exists_path (fs st) (joinpath (cwd w) x)")
  case True
  then have "fs (snd (RepoCard_load w x tok st)) = fs st"
    by (simp add: RepoCard_load_local split: sum.splits)
  then show ?thesis by simp
next
  case False
  obtain r1 s1 where d: "hf_hub_download w x (py ''README.md'') tok st = (r1, s1)" by fastforce
  with False have "fs (snd (RepoCard_load w x tok st)) = fs s1"
    unfolding RepoCard_load_def bnd_def with_fs_def lift_def ret_def raise_def
    by (simp split: sum.splits)
  with d show ?thesis by simp
qed

lemma add_readme_fs:
  "fs (snd (add_readme w l st)) = fs (snd (RepoCard_load w (repo_id l) (token l) st))"
proof -
  obtain r1 s1 where d: "RepoCard_load w (repo_id l) (token l) st = (r1, s1)" by fastforce
  show ?thesis
  proof (cases r1)
    case (Inl e)
    with d show ?thesis by (simp add: add_readme_Inl)
  next
    case (Inr rcard)
    with d have "RepoCard_load w (repo_id l) (token l) st = (Inr rcard, s1)" by simp
    from add_readme_eq[OF this] d show ?thesis by (simp split: sum.splits)
  qed
qed

lemma add_readme_stores: "stores w (served w (repo_id l) (token l) (py ''README.md'')) (add_readme w l)"
  unfolding stores_def
proof
  fix st
  from RepoCard_load_fs[of w "repo_id l" "token l" st]
  show "\<exists>es. subseq es (served w (repo_id l) (token l) (py ''README.md''))
      \<and> store_all w es (fs st) = Some (fs (snd (add_readme w l st)))"
  proof
    assume "fs (snd (RepoCard_load w (repo_id l) (token l) st)) = fs st"
    then have "store_all w [] (fs st) = Some (fs (snd (add_readme w l st)))"
      by (simp add: add_readme_fs)
    then show ?thesis by (intro exI[of _ "[]"]) simp
  next
    assume "fs (snd (RepoCard_load w (repo_id l) (token l) st))
        = fs (snd (hf_hub_download w (repo_id l) (py ''README.md'') (token l) st))"
    with hf_hub_download_stores[of w "repo_id l" "token l" "py ''README.md''" st]
    show ?thesis by (simp add: add_readme_fs)
  qed
qed

lemma append_add_fs: "fs (snd (append_add p c st)) = fs st"
  using append_add_cases[of p c st] by auto

lemma fetch_stores:
  "stores w (served w repo tok f) (seq (print x) (bnd (hf_hub_download w repo f tok) (\<lambda>p.
      bnd (with_fs (\<lambda>r. lift (read_text r p))) (\<lambda>v. append_add n (Bytes (g v))))))"
  unfolding stores_def
proof
  fix st :: state
  let ?s0 = "st\<lparr>out := out st @ [Print x]\<rparr>"
  let ?m = "seq (print x) (bnd (hf_hub_download w repo f tok) (\<lambda>p.
      bnd (with_fs (\<lambda>r. lift (read_text r p))) (\<lambda>v. append_add n (Bytes (g v)))))"
  obtain r1 s1 where d: "hf_hub_download w repo f tok ?s0 = (r1, s1)" by fastforce
  have "fs (snd (?m st)) = fs s1"
    using d
    by (cases r1; cases "read_text (fs s1) (projr r1)")
       (simp_all add: seq_def bnd_def print_def emit_def with_fs_def lift_def raise_def ret_def
          append_add_fs)
  with hf_hub_download_stores[of w repo tok f ?s0] d
  show "\<exists>es. subseq es (served w repo tok f) \<and> store_all w es (fs st) = Some (fs (snd (?m st)))"
    by simp
qed

lemma setup_space_stores:
  assumes "is_new st = Some True"
  shows "\<exists>es. subseq es (downloads w (repo_id l) (token l))
      \<and> store_all w es (fs st) = Some (fs (snd (setup_space w l st)))"
proof -
  have eq: "setup_space w l st =
      seq (add_readme w l) (seq (add_pcconfig w l) (seq (add_dockerfile w l) (ret ()))) st"
    using assms by (simp add: setup_space_def bnd_def read_is_new_def ret_def block_Cons block_Nil)
  have p: "stores w (served w (repo_id l) (token l) (py ''pcconfig_docker.py'')) (add_pcconfig w l)"
    unfolding add_pcconfig_def by (rule fetch_stores)
  have d: "stores w (served w (repo_id l) (token l) (py ''Dockerfile'')) (add_dockerfile w l)"
    unfolding add_dockerfile_def by (rule fetch_stores)
  have "stores w (served w (repo_id l) (token l) (py ''README.md'')
        @ served w (repo_id l) (token l) (py ''pcconfig_docker.py'')
        @ served w (repo_id l) (token l) (py ''Dockerfile'') @ [])
      (seq (add_readme w l) (seq (add_pcconfig w l) (seq (add_dockerfile w l) (ret ()))))"
    by (rule stores_seq[OF add_readme_stores stores_seq[OF p stores_seq[OF d stores_ret]]])
  then have "stores w (downloads w (repo_id l) (token l))
      (seq (add_readme w l) (seq (add_pcconfig w l) (seq (add_dockerfile w l) (ret ()))))"
    by (simp only: downloads_def append_Nil2)
  then show ?thesis
    unfolding eq stores_def by blast
qed

section \<open>The outcome of a run\<close>

lemma push_outcome:
  assumes st: "is_new st = None" "committed st = []" "posted st = []"
      and run: "push w l private st = (res, st')"
  shows "posted st' = [(repo_id l, private)]"
    and "\<exists>es. subseq es (downloads w (repo_id l) (token l))
           \<and> store_all w es (fs st) = Some (fs st')"
    and "is_new st' \<noteq> Some True \<longrightarrow> fs st' = fs st"
    and "is_new st' = Some True \<longleftrightarrow>
           (\<exists>s. post_duplicate w (repo_id l) private (token l) = Inr s \<and> \<not> (400 \<le> s \<and> s < 600))"
    and "is_new st' = Some False \<longleftrightarrow> post_duplicate w (repo_id l) private (token l) = Inr 409"
    and "committed st' = [] \<or>
         (\<exists>new head rest. is_new st' = Some new \<and> (if new then new_head head else head = [])
            \<and> operations st' = head @ rest \<and> (\<forall>x\<in>set rest. \<not> in_memory x)
            \<and> committed st' = [(repo_id l, commit_message new (app_name l), operations st')])"
    and "is_new st' = None \<longrightarrow> committed st' = [] \<and> (\<forall>x. res \<noteq> Inr x)"
    and "(\<exists>x. res = Inr x) \<longrightarrow> committed st' \<noteq> []"
proof -
  let ?post = "post_duplicate w (repo_id l) private (token l)"
  let ?six = "committed st' = [] \<or>
         (\<exists>new head rest. is_new st' = Some new \<and> (if new then new_head head else head = [])
            \<and> operations st' = head @ rest \<and> (\<forall>x\<in>set rest. \<not> in_memory x)
            \<and> committed st' = [(repo_id l, commit_message new (app_name l), operations st')])"
  have same: "fs st' = fs st \<Longrightarrow> \<exists>es. subseq es (downloads w (repo_id l) (token l))
           \<and> store_all w es (fs st) = Some (fs st')"
    by (intro exI[of _ "[]"]) simp
  have all: "posted st' = [(repo_id l, private)]
    \<and> (\<exists>es. subseq es (downloads w (repo_id l) (token l))
           \<and> store_all w es (fs st) = Some (fs st'))
    \<and> (is_new st' \<noteq> Some True \<longrightarrow> fs st' = fs st)
    \<and> (is_new st' = Some True \<longleftrightarrow> (\<exists>s. ?post = Inr s \<and> \<not> (400 \<le> s \<and> s < 600)))
    \<and> (is_new st' = Some False \<longleftrightarrow> ?post = Inr 409)
    \<and> ?six
    \<and> (is_new st' = None \<longrightarrow> committed st' = [] \<and> (\<forall>x. res \<noteq> Inr x))
    \<and> ((\<exists>x. res = Inr x) \<longrightarrow> committed st' \<noteq> [])"
  proof (cases ?post)
    case (Inl e)
    from push_post_fail[OF this, of st] run st
    have r: "res = Inl e" "fs st' = fs st" "is_new st' = None" "committed st' = []"
      "posted st' = [(repo_id l, private)]"
      by (auto simp: committed_def posted_def)
    with same Inl show ?thesis by simp
  next
    case (Inr s)
    consider (bad) "400 \<le> s" "s < 600" "s \<noteq> 409" | (upd) "s = 409" | (new) "\<not> (400 \<le> s \<and> s < 600)"
      by linarith
    then show ?thesis
    proof cases
      case bad
      from push_bad_status[OF Inr bad st(1)] run st
      have r: "res = Inl (UnboundLocalError (py ''is_new''))" "fs st' = fs st" "is_new st' = None"
        "committed st' = []" "posted st' = [(repo_id l, private)]"
        by (auto simp: committed_def posted_def)
      with same Inr bad show ?thesis by simp
    next
      case upd
      with Inr have p: "?post = Inr 409" by simp
      from push_update[OF p, of st] obtain st1 where
        st1: "push w l private st = sync_all w l st1" "fs st1 = fs st"
          "out st1 = out st @ [Print (py ''Repo ID: '' @ repo_id l),
            Post (repo_id l) private, Print (py ''Space already exist: '' @ space_url l),
            Print (py ''  Space already configured. Do not update README.md, Dockerfile and pcconfig.py'')]"
          "operations st1 = []" "is_new st1 = Some False"
        by blast
      have c1: "committed st1 = []" "posted st1 = [(repo_id l, private)]"
        using st st1(3) by (simp_all add: committed_def posted_def)
      from st1(1) run have "sync_all w l st1 = (res, st')" by simp
      note g = sync_all_general[OF st1(5) this]
      have f: "fs st' = fs st" using g(1) st1(2) by simp
      from g(4) st1(4) have nm: "\<forall>x\<in>set (operations st'). \<not> in_memory x" by auto
      have six: ?six
      proof (cases "committed st' = []")
        case True
        then show ?thesis by simp
      next
        case False
        with g(5) c1 have "committed st'
            = [(repo_id l, commit_message False (app_name l), operations st')]" by simp
        with g(2) nm have "is_new st' = Some False \<and> (if False then new_head [] else [] = [])
            \<and> operations st' = [] @ operations st' \<and> (\<forall>x\<in>set (operations st'). \<not> in_memory x)
            \<and> committed st' = [(repo_id l, commit_message False (app_name l), operations st')]"
          by simp
        then show ?thesis by blast
      qed
      have eight: "(\<exists>x. res = Inr x) \<longrightarrow> committed st' \<noteq> []"
        using g(6) by auto
      from g(2,3) c1 f same[OF f] six eight p show ?thesis by simp
    next
      case new
      from push_new[OF Inr new, of st] obtain st1 where
        st1: "push w l private st = seq (setup_space w l) (sync_all w l) st1" "fs st1 = fs st"
          "out st1 = out st @ [Print (py ''Repo ID: '' @ repo_id l),
            Post (repo_id l) private, Print (py ''New Space created: '' @ space_url l)]"
          "operations st1 = []" "is_new st1 = Some True"
        by blast
      have c1: "committed st1 = []" "posted st1 = [(repo_id l, private)]"
        using st st1(3) by (simp_all add: committed_def posted_def)
      have ex: "\<exists>s. ?post = Inr s \<and> \<not> (400 \<le> s \<and> s < 600)" "?post \<noteq> Inr 409"
        using Inr new by auto
      obtain r2 s2 where su: "setup_space w l st1 = (r2, s2)" by fastforce
      note sn = setup_space_new[OF st1(5) su]
      from setup_space_stores[OF st1(5), of w l] su st1(2)
      have sto: "\<exists>es. subseq es (downloads w (repo_id l) (token l))
           \<and> store_all w es (fs st) = Some (fs s2)" by simp
      show ?thesis
      proof (cases r2)
        case (Inl e)
        with su st1(1) run have "res = Inl e" "st' = s2"
          by (simp_all add: seq_Inl[where m="setup_space w l"])
        with sn st1 c1 ex sto show ?thesis by simp
      next
        case (Inr u)
        with su have su': "setup_space w l st1 = (Inr (), s2)" by simp
        with st1(1) run have "sync_all w l s2 = (res, st')"
          by (simp add: seq_Inr[where m="setup_space w l"])
        note g = sync_all_general[OF conjunct1[OF sn] this]
        from sn Inr st1(4) obtain head where h: "new_head head" "operations s2 = head"
          by (auto simp: new_head_def)
        from g(4) h(2) obtain rest where
          rest: "operations st' = head @ rest" "\<forall>x\<in>set rest. \<not> in_memory x" by auto
        have cs2: "committed s2 = []" "posted s2 = [(repo_id l, private)]"
          using sn c1 by simp_all
        have six: ?six
        proof (cases "committed st' = []")
          case True
          then show ?thesis by simp
        next
          case False
          with g(5) cs2 have "committed st'
              = [(repo_id l, commit_message True (app_name l), operations st')]" by simp
          with g(2) h(1) rest have "is_new st' = Some True
              \<and> (if True then new_head head else head = [])
              \<and> operations st' = head @ rest \<and> (\<forall>x\<in>set rest. \<not> in_memory x)
              \<and> committed st' = [(repo_id l, commit_message True (app_name l), operations st')]"
            by simp
          then show ?thesis by blast
        qed
        have eight: "(\<exists>x. res = Inr x) \<longrightarrow> committed st' \<noteq> []"
          using g(6) by auto
        have sto': "\<exists>es. subseq es (downloads w (repo_id l) (token l))
           \<and> store_all w es (fs st) = Some (fs st')"
          using sto g(1) by simp
        from g(2,3) cs2 six eight sto' ex show ?thesis by simp
      qed
    qed
  qed
  show "posted st' = [(repo_id l, private)]"
    and "\<exists>es. subseq es (downloads w (repo_id l) (token l))
           \<and> store_all w es (fs st) = Some (fs st')"
    and "is_new st' \<noteq> Some True \<longrightarrow> fs st' = fs st"
    and "is_new st' = Some True \<longleftrightarrow>
           (\<exists>s. post_duplicate w (repo_id l) private (token l) = Inr s \<and> \<not> (400 \<le> s \<and> s < 600))"
    and "is_new st' = Some False \<longleftrightarrow> post_duplicate w (repo_id l) private (token l) = Inr 409"
    and "committed st' = [] \<or>
         (\<exists>new head rest. is_new st' = Some new \<and> (if new then new_head head else head = [])
            \<and> operations st' = head @ rest \<and> (\<forall>x\<in>set rest. \<not> in_memory x)
            \<and> committed st' = [(repo_id l, commit_message new (app_name l), operations st')])"
    and "is_new st' = None \<longrightarrow> committed st' = [] \<and> (\<forall>x. res \<noteq> Inr x)"
    and "(\<exists>x. res = Inr x) \<longrightarrow> committed st' \<noteq> []"
    using all by blast+
qed

text \<open>The same for a layout whose application folder bears a plain name.\<close>

lemma push_outcome_tidy:
  assumes st: "is_new st = None" "committed st = []" "posted st = []"
      and tidy: "tidy l"
      and run: "push w l private st = (res, st')"
  shows "committed st' = [] \<or>
         (\<exists>new head. is_new st' = Some new \<and> (if new then new_head head else head = [])
            \<and> operations st' = head @ sync_ops (fs st') l new
            \<and> committed st' = [(repo_id l, commit_message new (app_name l),
                                 head @ sync_ops (fs st') l new)])"
    and "is_new st' = Some False \<longrightarrow> committed st' \<noteq> []"
proof -
  let ?post = "post_duplicate w (repo_id l) private (token l)"
  have all: "(committed st' = [] \<or>
         (\<exists>new head. is_new st' = Some new \<and> (if new then new_head head else head = [])
            \<and> operations st' = head @ sync_ops (fs st') l new
            \<and> committed st' = [(repo_id l, commit_message new (app_name l),
                                 head @ sync_ops (fs st') l new)]))
    \<and> (is_new st' = Some False \<longrightarrow> committed st' \<noteq> [])"
  proof (cases ?post)
    case (Inl e)
    from push_post_fail[OF this, of st] run st show ?thesis
      by (auto simp: committed_def)
  next
    case (Inr s)
    consider (bad) "400 \<le> s" "s < 600" "s \<noteq> 409" | (upd) "s = 409" | (new) "\<not> (400 \<le> s \<and> s < 600)"
      by linarith
    then show ?thesis
    proof cases
      case bad
      from push_bad_status[OF Inr bad st(1)] run st show ?thesis
        by (auto simp: committed_def)
    next
      case upd
      with Inr have p: "?post = Inr 409" by simp
      from push_update[OF p, of st] obtain st1 where
        st1: "push w l private st = sync_all w l st1" "fs st1 = fs st"
          "out st1 = out st @ [Print (py ''Repo ID: '' @ repo_id l),
            Post (repo_id l) private, Print (py ''Space already exist: '' @ space_url l),
            Print (py ''  Space already configured. Do not update README.md, Dockerfile and pcconfig.py'')]"
          "operations st1 = []" "is_new st1 = Some False"
        by blast
      have c1: "committed st1 = []"
        using st st1(3) by (simp add: committed_def)
      from st1(1) run have "sync_all w l st1 = (res, st')" by simp
      note sp = sync_all_props[OF st1(5) tidy this]
      have "\<exists>new head. is_new st' = Some new \<and> (if new then new_head head else head = [])
            \<and> operations st' = head @ sync_ops (fs st') l new
            \<and> committed st' = [(repo_id l, commit_message new (app_name l),
                                 head @ sync_ops (fs st') l new)]"
        using sp st1 c1 by (intro exI[of _ False] exI[of _ "[]"]) simp
      then show ?thesis
        using sp c1 by simp
    next
      case new
      from push_new[OF Inr new, of st] obtain st1 where
        st1: "push w l private st = seq (setup_space w l) (sync_all w l) st1" "fs st1 = fs st"
          "out st1 = out st @ [Print (py ''Repo ID: '' @ repo_id l),
            Post (repo_id l) private, Print (py ''New Space created: '' @ space_url l)]"
          "operations st1 = []" "is_new st1 = Some True"
        by blast
      have c1: "committed st1 = []"
        using st st1(3) by (simp add: committed_def)
      obtain r2 s2 where su: "setup_space w l st1 = (r2, s2)" by fastforce
      note sn = setup_space_new[OF st1(5) su]
      show ?thesis
      proof (cases r2)
        case (Inl e)
        with su st1(1) run have "res = Inl e" "st' = s2"
          by (simp_all add: seq_Inl[where m="setup_space w l"])
        with sn c1 show ?thesis by simp
      next
        case (Inr u)
        with su have su': "setup_space w l st1 = (Inr (), s2)" by simp
        with st1(1) run have "sync_all w l s2 = (res, st')"
          by (simp add: seq_Inr[where m="setup_space w l"])
        note sp = sync_all_props[OF conjunct1[OF sn] tidy this]
        from sn Inr st1(4) obtain head where h: "new_head head" "operations s2 = head"
          by (auto simp: new_head_def)
        have "\<exists>new head. is_new st' = Some new \<and> (if new then new_head head else head = [])
            \<and> operations st' = head @ sync_ops (fs st') l new
            \<and> committed st' = [(repo_id l, commit_message new (app_name l),
                                 head @ sync_ops (fs st') l new)]"
          using sp sn h c1 by (intro exI[of _ True] exI[of _ head]) simp
        then show ?thesis
          using sp by simp
      qed
    qed
  qed
  show "committed st' = [] \<or>
         (\<exists>new head. is_new st' = Some new \<and> (if new then new_head head else head = [])
            \<and> operations st' = head @ sync_ops (fs st') l new
            \<and> committed st' = [(repo_id l, commit_message new (app_name l),
                                 head @ sync_ops (fs st') l new)])"
    and "is_new st' = Some False \<longrightarrow> committed st' \<noteq> []"
    using all by blast+
qed

lemma deploy_no_commit:
  "find_app w arg (start r) = (Inl e, s) \<or> whoami w tok = Inl e' \<Longrightarrow>
   committed (snd (deploy w arg private tok (start r))) = []
   \<and> posted (snd (deploy w arg private tok (start r))) = []
   \<and> fs (snd (deploy w arg private tok (start r))) = r
   \<and> is_new (snd (deploy w arg private tok (start r))) = None
   \<and> (\<forall>x. fst (deploy w arg private tok (start r)) \<noteq> Inr x)"
proof (cases "fst (find_app w arg (start r))")
  case (Inl a)
  then have "find_app w arg (start r) = (Inl a, start r)"
    using find_app_state[of w arg "start r"] by (metis prod.collapse)
  from deploy_find_fail[OF this] show ?thesis
    by (simp add: committed_def posted_def start_def)
next
  case (Inr found)
  then have fa: "find_app w arg (start r) = (Inr found, start r)"
    using find_app_state[of w arg "start r"] by (metis prod.collapse)
  assume "find_app w arg (start r) = (Inl e, s) \<or> whoami w tok = Inl e'"
  with fa have "whoami w tok = Inl e'" by simp
  from deploy_whoami_fail[OF fa this] show ?thesis
    by (simp add: committed_def posted_def start_def)
qed

lemma deploy_outcome:
  assumes fa: "find_app w arg (start r) = (Inr (cfg, name, app, assets), s)"
      and who: "whoami w tok = Inr user"
      and run: "deploy w arg private tok (start r) = (res, st')"
  defines "rid \<equiv> user @ py ''/'' @ curated_name (isalnum w) name"
  shows "posted st' = [(rid, private)]"
    and "\<exists>es. subseq es (downloads w rid tok) \<and> store_all w es r = Some (fs st')"
    and "is_new st' \<noteq> Some True \<longrightarrow> fs st' = r"
    and "is_new st' = Some True \<longleftrightarrow>
           (\<exists>s. post_duplicate w rid private tok = Inr s \<and> \<not> (400 \<le> s \<and> s < 600))"
    and "is_new st' = Some False \<longleftrightarrow> post_duplicate w rid private tok = Inr 409"
    and "committed st' = [] \<or>
         (\<exists>new head rest. is_new st' = Some new \<and> (if new then new_head head else head = [])
            \<and> operations st' = head @ rest \<and> (\<forall>x\<in>set rest. \<not> in_memory x)
            \<and> committed st' = [(rid, commit_message new name, operations st')])"
    and "is_new st' = None \<longrightarrow> committed st' = [] \<and> (\<forall>x. res \<noteq> Inr x)"
    and "(\<exists>x. res = Inr x) \<longrightarrow> committed st' \<noteq> []"
proof -
  let ?st = "(start r)\<lparr>out := [Whoami tok]\<rparr>"
  let ?l = "mk_locals w tok (cfg, name, app, assets) user"
  have st: "is_new ?st = None" "committed ?st = []" "posted ?st = []" "fs ?st = r"
    by (simp_all add: start_def committed_def posted_def)
  have p: "push w ?l private ?st = (res, st')"
    using deploy_push[OF fa who, of "private"] run by simp
  note po = push_outcome[OF st(1-3) p, unfolded mk_locals_sel st(4)]
  show "posted st' = [(rid, private)]" using po(1) by (simp add: rid_def)
  show "\<exists>es. subseq es (downloads w rid tok) \<and> store_all w es r = Some (fs st')"
    using po(2) by (simp add: rid_def)
  show "is_new st' \<noteq> Some True \<longrightarrow> fs st' = r" by (rule po(3))
  show "is_new st' = Some True \<longleftrightarrow>
           (\<exists>s. post_duplicate w rid private tok = Inr s \<and> \<not> (400 \<le> s \<and> s < 600))"
    using po(4) by (simp add: rid_def)
  show "is_new st' = Some False \<longleftrightarrow> post_duplicate w rid private tok = Inr 409"
    using po(5) by (simp add: rid_def)
  show "committed st' = [] \<or>
         (\<exists>new head rest. is_new st' = Some new \<and> (if new then new_head head else head = [])
            \<and> operations st' = head @ rest \<and> (\<forall>x\<in>set rest. \<not> in_memory x)
            \<and> committed st' = [(rid, commit_message new name, operations st')])"
    using po(6) by (simp add: rid_def)
  show "is_new st' = None \<longrightarrow> committed st' = [] \<and> (\<forall>x. res \<noteq> Inr x)" by (rule po(7))
  show "(\<exists>x. res = Inr x) \<longrightarrow> committed st' \<noteq> []" by (rule po(8))
qed

lemma deploy_outcome_plain:
  assumes fa: "find_app w arg (start r) = (Inr (cfg, name, app, assets), s)"
      and plain: "plain_name name"
      and who: "whoami w tok = Inr user"
      and run: "deploy w arg private tok (start r) = (res, st')"
  defines "rid \<equiv> user @ py ''/'' @ curated_name (isalnum w) name"
  shows "committed st' = [] \<or>
         (\<exists>new head. is_new st' = Some new \<and> (if new then new_head head else head = [])
            \<and> operations st' = head @ sync_ops (fs st') (mk_locals w tok (cfg, name, app, assets) user) new
            \<and> committed st' = [(rid, commit_message new name,
                 head @ sync_ops (fs st') (mk_locals w tok (cfg, name, app, assets) user) new)])"
    and "is_new st' = Some False \<longrightarrow> committed st' \<noteq> []"
proof -
  let ?st = "(start r)\<lparr>out := [Whoami tok]\<rparr>"
  let ?l = "mk_locals w tok (cfg, name, app, assets) user"
  have st: "is_new ?st = None" "committed ?st = []" "posted ?st = []" "fs ?st = r"
    by (simp_all add: start_def committed_def posted_def)
  have p: "push w ?l private ?st = (res, st')"
    using deploy_push[OF fa who, of "private"] run by simp
  note po = push_outcome_tidy[OF st(1-3) tidy_mk_locals[OF fa plain] p, unfolded mk_locals_sel]
  show "committed st' = [] \<or>
         (\<exists>new head. is_new st' = Some new \<and> (if new then new_head head else head = [])
            \<and> operations st' = head @ sync_ops (fs st') ?l new
            \<and> committed st' = [(rid, commit_message new name, head @ sync_ops (fs st') ?l new)])"
    using po(1) by (simp add: rid_def)
  show "is_new st' = Some False \<longrightarrow> committed st' \<noteq> []" by (rule po(2))
qed

lemma committed_needs_whoami:
  assumes "find_app w arg (start r) = (Inr found, s)"
      and "deploy w arg priv tok (start r) = (res, st')"
      and "committed st' \<noteq> []"
  shows "\<exists>user. whoami w tok = Inr user"
proof (cases "whoami w tok")
  case (Inl e)
  then have "find_app w arg (start r) = (Inl e, s) \<or> whoami w tok = Inl e" by simp
  from deploy_no_commit[OF this, of priv] assms(2,3) show ?thesis by simp
next
  case (Inr user)
  then show ?thesis by blast
qed

lemma new_head_facts:
  assumes "new_head head"
  shows "\<exists>c1 c2 c3. head = [CommitOperationAdd (py ''README.md'') (Bytes c1),
            CommitOperationAdd (py ''pcconfig_docker.py'') (Bytes c2),
            CommitOperationAdd (py ''Dockerfile'') (Bytes c3)]"
    and "CommitOperationDelete n b \<notin> set head"
  using assms by (auto simp: new_head_def)

lemma outcome_ops:
  assumes "find_app w arg (start r) = (Inr (cfg, name, app, assets), s)"
      and "plain_name name"
      and "whoami w tok = Inr user"
      and "deploy w arg priv tok (start r) = (res, st')"
      and "(rid, msg, ops) \<in> set (committed st')"
  shows "\<exists>new head. is_new st' = Some new \<and> (if new then new_head head else head = [])
           \<and> ops = head @ sync_ops (fs st') (mk_locals w tok (cfg, name, app, assets) user) new"
proof -
  have ne: "committed st' \<noteq> []" using assms(5) by auto
  from deploy_outcome_plain(1)[OF assms(1,2,3,4)] ne obtain new head where
    a: "is_new st' = Some new" "if new then new_head head else head = []"
       "committed st' = [(user @ py ''/'' @ curated_name (isalnum w) name, commit_message new name,
          head @ sync_ops (fs st') (mk_locals w tok (cfg, name, app, assets) user) new)]"
    by blast
  from a(3) assms(5)
  have "ops = head @ sync_ops (fs st') (mk_locals w tok (cfg, name, app, assets) user) new"
    by simp
  with a(1,2) show ?thesis by blast
qed

lemmas eval_defs = py_def hyphen_def newline_def slash_def is_quote_def closes_def match_group_def
  match_here_def path_str_def rel_str_def parts_def joinpath_def parent_def relative_to_def
  normalize_def resolve_def stat_def is_file_def is_dir_def exists_path_def glob_all_def
  read_text_def split_def

lemma append_add_bytes_eval:
  "append_add p (Bytes c) st =
     (case validate_path_in_repo p of
        Inl e \<Rightarrow> (Inl e, st)
      | Inr q \<Rightarrow> (Inr (), st\<lparr>operations := operations st @ [CommitOperationAdd q (Bytes c)]\<rparr>))"
  by (simp add: append_add_fail append_add_bytes split: sum.splits)

lemma append_add_file_eval:
  "is_file (fs st) f \<Longrightarrow>
   append_add p (LocalFile f) st =
     (case validate_path_in_repo p of
        Inl e \<Rightarrow> (Inl e, st)
      | Inr q \<Rightarrow> (Inr (), st\<lparr>operations := operations st @ [CommitOperationAdd q (LocalFile f)]\<rparr>))"
  by (simp add: append_add_fail append_add_file split: sum.splits)

lemma append_delete_eval:
  "append_delete p (Some b) st =
     (case validate_path_in_repo p of
        Inl e \<Rightarrow> (Inl e, st)
      | Inr q \<Rightarrow> (Inr (), st\<lparr>operations := operations st @ [CommitOperationDelete q b]\<rparr>))"
  by (simp add: append_delete_fail append_delete_eq split: sum.splits)

lemmas run_defs = append_add_bytes_eval append_add_file_eval append_delete_eval
  validate_path_in_repo_def Let_def

lemma example_search: "search_app_name example_config = Some (py ''demo'')"
  by (simp add: eval_defs example_config_def)

lemma example_find_app:
  "find_app (example_world status) (py ''pcconfig.py'') (start example_root) =
     (Inr ([py ''proj'', py ''pcconfig.py''], py ''demo'', [py ''proj'', py ''demo''],
           [py ''proj'', py ''assets'']), start example_root)"
  by (simp add: find_app_eq example_search start_def eval_defs example_world_def example_root_def)

lemma example_update_run:
  "deploy (example_world 409) (py ''pcconfig.py'') False None (start example_root) =
     (Inr (), \<lparr>fs = example_root,
        out = [Whoami None, Print (py ''Repo ID: alice/demo''), Post (py ''alice/demo'') False,
               Print (py ''Space already exist: https://huggingface.co/spaces/alice/demo''),
               Print (py ''  Space already configured. Do not update README.md, Dockerfile and pcconfig.py''),
               Print (py ''  requirements.txt not found''),
               Print (py ''  Sync assets/ folder''),
               Print (py ''  Sync app folder''),
               CreateCommit (py ''alice/demo'') (py ''Update demo'')
                 [CommitOperationDelete (py ''assets'') True,
                  CommitOperationAdd (py ''assets/logo.png'')
                    (LocalFile [py ''proj'', py ''assets'', py ''logo.png'']),
                  CommitOperationDelete (py ''demo'') True,
                  CommitOperationAdd (py ''demo/index.py'')
                    (LocalFile [py ''proj'', py ''demo'', py ''index.py''])],
               Print (py ''Your app has been successfully deployed!''),
               Print (py ''Check it out: https://alice-demo.hf.space'')],
        operations = [CommitOperationDelete (py ''assets'') True,
                  CommitOperationAdd (py ''assets/logo.png'')
                    (LocalFile [py ''proj'', py ''assets'', py ''logo.png'']),
                  CommitOperationDelete (py ''demo'') True,
                  CommitOperationAdd (py ''demo/index.py'')
                    (LocalFile [py ''proj'', py ''demo'', py ''index.py''])],
        is_new = Some False\<rparr>)"
  apply (simp add: deploy_def bnd_def example_find_app)
  apply (simp add: seq_def bnd_def emit_def lift_def ret_def mk_locals_def push_def block_Cons block_Nil
      print_def duplicate_space_eq set_operations_def setup_space_update
      sync_requirements_eq sync_assets_eq sync_app_eq[where new=False] commit_eq[where new=False]
      tidy_def plain_name_def
      commit_message_def curated_name_def strip_hyphens_def sub_nonword_def is_word_def ascii_alnum_def
      start_def example_world_def example_root_def eval_defs sublist_code)
  done

lemma replace_example: "replace (py ''app = default_app'') (py ''default_app'') (py ''demo'') = py ''app = demo''"
  by (simp add: py_def)

lemma example_new_run:
  "fst (deploy (example_world 200) (py ''pcconfig.py'') False None (start example_root)) = Inr ()
   \<and> committed (snd (deploy (example_world 200) (py ''pcconfig.py'') False None (start example_root)))
       = [(py ''alice/demo'', py ''Deploy demo!'', example_new_ops)]
   \<and> is_new (snd (deploy (example_world 200) (py ''pcconfig.py'') False None (start example_root)))
       = Some True
   \<and> fs (snd (deploy (example_world 200) (py ''pcconfig.py'') False None (start example_root)))
       = Dir [(py ''proj'', Dir [
            (py ''pcconfig.py'', File example_config),
            (py ''demo'', Dir [(py ''index.py'', File (py ''import pynecone''))]),
            (py ''assets'', Dir [(py ''logo.png'', File (py ''PNG''))])]),
          (py ''cache'', Dir [(py ''README.md'', File (py ''app = default_app'')),
            (py ''pcconfig_docker.py'', File (py ''app = default_app'')),
            (py ''Dockerfile'', File (py ''app = default_app''))])]"
  apply (simp add: deploy_def bnd_def example_find_app)
  apply (simp add: seq_def bnd_def emit_def lift_def ret_def raise_def mk_locals_def push_def block_Cons block_Nil
      print_def duplicate_space_eq set_operations_def setup_space_def read_is_new_def
      add_readme_def add_pcconfig_def add_dockerfile_def RepoCard_load_def hf_hub_download_eq
      with_fs_def run_defs tidy_def plain_name_def
      sync_requirements_eq sync_assets_eq sync_app_eq[where new=True] commit_eq[where new=True]
      commit_message_def curated_name_def strip_hyphens_def sub_nonword_def is_word_def ascii_alnum_def
      start_def example_world_def example_root_def eval_defs sublist_code committed_def
      example_new_ops_def readme_text_def)
  done

lemma join_slash: "xs \<noteq> [] \<Longrightarrow> slash \<in> set (join [slash] (x # xs))"
  by (cases xs) auto

lemma upload_ops_Add:
  "x \<in> set (upload_ops r keep d) \<Longrightarrow>
     \<exists>p. x = CommitOperationAdd (rel_str (drop (length (parent d)) p)) (LocalFile p)
        \<and> p \<in> set (glob_all r d)"
  by (auto simp: upload_ops_def)

lemma upload_ops_slash:
  assumes "x \<in> set (upload_ops r keep d)" and "d \<noteq> []"
  shows "\<exists>n p. x = CommitOperationAdd n (LocalFile p) \<and> slash \<in> set n"
proof -
  from upload_ops_Add[OF assms(1)] obtain p where
    x: "x = CommitOperationAdd (rel_str (drop (length (parent d)) p)) (LocalFile p)"
    and p: "p \<in> set (glob_all r d)" by blast
  from glob_all_form[OF p] obtain q where q: "q \<noteq> []" "p = d @ q" by blast
  have "d = butlast d @ [last d]" using assms(2) by simp
  then have "drop (length (parent d)) p = last d # q"
    using q(2) by (metis parent_def append_Cons append_Nil append_assoc append_eq_conv_conj)
  then have "rel_str (drop (length (parent d)) p) = join [slash] (last d # q)"
    by (simp add: rel_str_def)
  with join_slash[OF q(1)] x show ?thesis by auto
qed

lemma sync_ops_no_bytes: "CommitOperationAdd p (Bytes c) \<notin> set (sync_ops r l new)"
  by (auto simp: sync_ops_def requirements_ops_def upload_ops_def)

lemma no_slash_names:
  "slash \<notin> set (py ''README.md'')" "slash \<notin> set (py ''pcconfig_docker.py'')"
  "slash \<notin> set (py ''Dockerfile'')"
  "py ''README.md'' \<noteq> py ''requirements.txt''"
  "py ''pcconfig_docker.py'' \<noteq> py ''requirements.txt''"
  "py ''Dockerfile'' \<noteq> py ''requirements.txt''"
  by (simp_all add: py_def slash_def)

lemma sync_ops_paths:
  assumes "CommitOperationAdd n c \<in> set (sync_ops r l new)"
      and "app_path l \<noteq> []" and "assets_path l \<noteq> []"
  shows "n = py ''requirements.txt'' \<or> slash \<in> set n"
  using assms upload_ops_slash[of "CommitOperationAdd n c" r _ "app_path l"]
    upload_ops_slash[of "CommitOperationAdd n c" r _ "assets_path l"]
  by (auto simp: sync_ops_def requirements_ops_def split: if_splits)

lemma sync_ops_count:
  "length (filter (\<lambda>x. x = CommitOperationDelete (py ''assets'') True) (sync_ops r l new))
     = (if \<not> new \<and> app_name l = py ''assets'' then 2 else 1)"
proof -
  have u: "\<And>keep d. filter (\<lambda>x. x = CommitOperationDelete (py ''assets'') True) (upload_ops r keep d) = []"
    by (auto simp: upload_ops_def filter_empty_conv)
  have d: "py ''default_app'' \<noteq> py ''assets''" by (simp add: py_def)
  have q: "py ''requirements.txt'' \<noteq> py ''assets''" by (simp add: py_def)
  show ?thesis
    using d by (simp add: sync_ops_def requirements_ops_def u)
qed

lemma example_whoami: "whoami (example_world status) tok = Inr (py ''alice'')"
  by (simp add: example_world_def)

lemma example_post: "post_duplicate (example_world status) rid priv tok = Inr status"
  by (simp add: example_world_def)

lemma example_curated: "curated_name ua (py ''demo'') = py ''demo''"
  by (simp add: curated_name_def strip_hyphens_def sub_nonword_def is_word_def ascii_alnum_def
        hyphen_def py_def)

lemma example_abort_run:
  "deploy (example_world 500) (py ''pcconfig.py'') False None (start example_root) =
     (Inl (UnboundLocalError (py ''is_new'')),
      \<lparr>fs = example_root,
       out = [Whoami None, Print (py ''Repo ID: alice/demo''), Post (py ''alice/demo'') False],
       operations = [], is_new = None\<rparr>)"
  apply (simp add: deploy_def bnd_def example_find_app)
  apply (simp add: seq_def bnd_def emit_def lift_def ret_def mk_locals_def push_def block_Cons block_Nil
      print_def duplicate_space_eq set_operations_def setup_space_unbound
      curated_name_def strip_hyphens_def sub_nonword_def is_word_def ascii_alnum_def
      start_def example_world_def eval_defs)
  done

lemma sub_hyphens_subset: "set (sub_hyphens xs) \<subseteq> set xs"
  by (induction xs rule: sub_hyphens.induct) auto

lemma curated_name_empty:
  assumes "\<forall>c\<in>set s. \<not> is_word ua c"
  shows "curated_name ua s = []"
proof -
  have "set (sub_nonword ua s) \<subseteq> {hyphen}"
    using assms by (auto simp: sub_nonword_def)
  with sub_hyphens_subset[of "sub_nonword ua s"]
  have "\<forall>c\<in>set (sub_hyphens (sub_nonword ua s)). c = hyphen" by blast
  then have "dropWhile (\<lambda>c. c = hyphen) (sub_hyphens (sub_nonword ua s)) = []"
    by (simp add: dropWhile_eq_Nil_conv)
  then show ?thesis
    by (simp only: curated_name_def strip_hyphens_def rev.simps dropWhile.simps)
qed

lemma assets_search: "search_app_name assets_config = Some (py ''assets'')"
  by (simp add: eval_defs assets_config_def)

lemma assets_find_app:
  "find_app (example_world status) (py ''pcconfig.py'') (start assets_root) =
     (Inr ([py ''proj'', py ''pcconfig.py''], py ''assets'', [py ''proj'', py ''assets''],
           [py ''proj'', py ''assets'']), start assets_root)"
  by (simp add: find_app_eq assets_search start_def eval_defs example_world_def assets_root_def)

lemma hyphen_search: "search_app_name hyphen_config = Some (py ''---'')"
  by (simp add: eval_defs hyphen_config_def)

lemma hyphen_find_app:
  "find_app (example_world status) (py ''pcconfig.py'') (start hyphen_root) =
     (Inr ([py ''proj'', py ''pcconfig.py''], py ''---'', [py ''proj'', py ''---''],
           [py ''proj'', py ''assets'']), start hyphen_root)"
  by (simp add: find_app_eq hyphen_search start_def eval_defs example_world_def hyphen_root_def)

lemma assets_update_run:
  "committed (snd (deploy (example_world 409) (py ''pcconfig.py'') False None (start assets_root)))
     = [(py ''alice/assets'', py ''Update assets'',
         [CommitOperationDelete (py ''assets'') True,
          CommitOperationAdd (py ''assets/logo.png'')
            (LocalFile [py ''proj'', py ''assets'', py ''logo.png'']),
          CommitOperationDelete (py ''assets'') True,
          CommitOperationAdd (py ''assets/logo.png'')
            (LocalFile [py ''proj'', py ''assets'', py ''logo.png''])])]"
  apply (simp add: deploy_def bnd_def assets_find_app)
  apply (simp add: seq_def bnd_def emit_def lift_def ret_def mk_locals_def push_def block_Cons block_Nil
      print_def duplicate_space_eq set_operations_def setup_space_update
      sync_requirements_eq sync_assets_eq sync_app_eq[where new=False] commit_eq[where new=False]
      tidy_def plain_name_def
      commit_message_def curated_name_def strip_hyphens_def sub_nonword_def is_word_def ascii_alnum_def
      start_def example_world_def assets_root_def eval_defs sublist_code committed_def)
  done

lemma glob_all_relative:
  "p \<in> set (glob_all r (base @ [n])) \<Longrightarrow> relative_to p base = Some (drop (length base) p)"
  using glob_all_form[of p r "base @ [n]"] by (auto simp: relative_to_def)

lemma upload_ops_no_delete: "CommitOperationDelete n b \<notin> set (upload_ops r keep d)"
  by (auto simp: upload_ops_def)

lemma requirements_ops_no_assets_delete:
  "CommitOperationDelete (py ''assets'') True \<notin> set (requirements_ops r app)"
  by (simp add: requirements_ops_def)

lemma descendants_complete:
  "get n q = Some m \<Longrightarrow> q \<noteq> [] \<Longrightarrow> q \<in> set (descendants n)"
proof (induction n q rule: get.induct)
  case (1 n)
  then show ?case by simp
next
  case (2 v c cs)
  then show ?case by simp
next
  case (3 es c cs)
  from "3.prems"(1) obtain k where k: "map_of es c = Some k" "get k cs = Some m"
    by (auto split: option.splits)
  then have mem: "(c, k) \<in> set es" by (auto dest: map_of_SomeD)
  show ?case
  proof (cases "cs = []")
    case True
    with mem show ?thesis by force
  next
    case False
    from "3.IH"[OF k(1) k(2) False] have "cs \<in> set (descendants k)" .
    with mem show ?thesis by force
  qed
qed

lemma glob_all_complete:
  assumes "py ''..'' \<notin> set (d @ q)" and "q \<noteq> []" and "is_file r (d @ q)"
  shows "d @ q \<in> set (glob_all r d)"
proof -
  have "stat r (d @ q) = get r (d @ q)" by (rule stat_plain[OF assms(1)])
  with assms(3) obtain v where v: "get r (d @ q) = Some (File v)"
    by (auto simp: is_file_def split: option.splits node.splits)
  then obtain n where n: "get r d = Some n" "get n q = Some (File v)"
    by (auto simp: get_append split: option.splits)
  have "stat r d = get r d" using assms(1) by (simp add: stat_plain)
  with n descendants_complete[OF n(2) assms(2)] show ?thesis
    by (simp add: glob_all_def)
qed

lemma pat_length: "length (py ''app_name='') = 9"
  by (simp add: py_def)

lemma quote_not_newline: "is_quote c \<Longrightarrow> c \<noteq> newline"
  by (auto simp: is_quote_def newline_def)

lemma closes_Cons2: "closes (a # b # t) = (is_quote a \<and> b = 44)"
  by (simp add: closes_def)

lemma closes_short: "closes [] = False" "closes [a] = False"
  by (simp_all add: closes_def)

lemma closes_D: "closes t \<Longrightarrow> \<exists>a u. t = a # 44 # u \<and> is_quote a"
  by (auto simp: closes_def split: list.splits)

lemma backtrack_Some:
  "backtrack rest k = Some g \<Longrightarrow> \<exists>j. 0 < j \<and> j \<le> k \<and> g = take j rest \<and> closes (drop j rest)"
proof (induction k)
  case 0
  then show ?case by simp
next
  case (Suc k)
  show ?case
  proof (cases "closes (drop (Suc k) rest)")
    case True
    with Suc.prems have "g = take (Suc k) rest" by simp
    with True show ?thesis by blast
  next
    case False
    with Suc.prems have "backtrack rest k = Some g" by simp
    from Suc.IH[OF this] obtain j where
      "0 < j" "j \<le> k" "g = take j rest" "closes (drop j rest)" by blast
    then have "0 < j \<and> j \<le> Suc k \<and> g = take j rest \<and> closes (drop j rest)" by simp
    then show ?thesis by blast
  qed
qed

lemma backtrack_finds:
  "0 < j \<Longrightarrow> j \<le> k \<Longrightarrow> closes (drop j rest) \<Longrightarrow> backtrack rest k \<noteq> None"
proof (induction k)
  case 0
  then show ?case by simp
next
  case (Suc k)
  show ?case
  proof (cases "closes (drop (Suc k) rest)")
    case True
    then show ?thesis by simp
  next
    case False
    with Suc.prems have "j \<le> k" by (metis le_SucE)
    from Suc.IH[OF Suc.prems(1) this Suc.prems(3)] False show ?thesis by simp
  qed
qed

lemma backtrack_skip:
  "m \<le> k \<Longrightarrow> \<forall>j. m < j \<and> j \<le> k \<longrightarrow> \<not> closes (drop j rest) \<Longrightarrow>
   backtrack rest k = backtrack rest m"
proof (induction k)
  case 0
  then show ?case by simp
next
  case (Suc k)
  show ?case
  proof (cases "m = Suc k")
    case True
    then show ?thesis by simp
  next
    case False
    with Suc.prems have mk: "m \<le> k" by simp
    have "\<not> closes (drop (Suc k) rest)" using Suc.prems mk by auto
    moreover have "backtrack rest k = backtrack rest m"
      using Suc.IH[OF mk] Suc.prems(2) by auto
    ultimately show ?thesis by simp
  qed
qed

lemma match_here_Some:
  assumes "match_here t = Some g"
  shows "\<exists>q q' post. t = py ''app_name='' @ [q] @ g @ [q', 44] @ post \<and> is_quote q
           \<and> is_quote q' \<and> g \<noteq> [] \<and> newline \<notin> set g"
proof -
  from assms have p: "prefix (py ''app_name='') t"
    by (simp add: match_here_def split: if_splits)
  then obtain u where u: "t = py ''app_name='' @ u" by (auto simp: prefix_def)
  then have d: "drop 9 t = u" by (simp add: pat_length)
  from assms p d obtain q rest where q: "u = q # rest" "is_quote q" "match_group rest = Some g"
    by (auto simp: match_here_def split: list.splits if_splits)
  let ?L = "length (takeWhile (\<lambda>c. c \<noteq> newline) rest)"
  from backtrack_Some[OF q(3)[unfolded match_group_def]] obtain j where
    j: "0 < j" "j \<le> ?L" "g = take j rest" "closes (drop j rest)" by blast
  from closes_D[OF j(4)] obtain q' post where c: "drop j rest = q' # 44 # post" "is_quote q'"
    by blast
  have "rest = take j rest @ drop j rest" by simp
  with j(3) c(1) have r: "rest = g @ [q', 44] @ post" by simp
  have "take j (takeWhile (\<lambda>c. c \<noteq> newline) rest @ dropWhile (\<lambda>c. c \<noteq> newline) rest)
      = take j (takeWhile (\<lambda>c. c \<noteq> newline) rest)"
    using j(2) by (simp del: takeWhile_dropWhile_id)
  then have "take j rest = take j (takeWhile (\<lambda>c. c \<noteq> newline) rest)"
    by (simp only: takeWhile_dropWhile_id)
  then have "set g \<subseteq> set (takeWhile (\<lambda>c. c \<noteq> newline) rest)"
    using j(3) by (metis set_take_subset)
  then have nl: "newline \<notin> set g" by (auto dest: set_takeWhileD)
  have "j < length rest"
  proof (rule ccontr)
    assume "\<not> j < length rest"
    then have "drop j rest = []" by simp
    with c(1) show False by simp
  qed
  then have ge: "g \<noteq> []" using j(1,3) by auto
  from u q(1,2) r c(2) nl ge show ?thesis by auto
qed

lemma search_Some:
  "search_app_name t = Some g \<Longrightarrow>
   \<exists>pre q q' post. t = pre @ py ''app_name='' @ [q] @ g @ [q', 44] @ post \<and> is_quote q
           \<and> is_quote q' \<and> g \<noteq> [] \<and> newline \<notin> set g"
proof (induction t)
  case Nil
  then show ?case by simp
next
  case (Cons c cs)
  show ?case
  proof (cases "match_here (c # cs)")
    case None
    with Cons.prems have "search_app_name cs = Some g" by simp
    from Cons.IH[OF this] obtain pre q q' post where
      "cs = pre @ py ''app_name='' @ [q] @ g @ [q', 44] @ post \<and> is_quote q
           \<and> is_quote q' \<and> g \<noteq> [] \<and> newline \<notin> set g" by blast
    then have "c # cs = (c # pre) @ py ''app_name='' @ [q] @ g @ [q', 44] @ post \<and> is_quote q
           \<and> is_quote q' \<and> g \<noteq> [] \<and> newline \<notin> set g" by simp
    then show ?thesis by blast
  next
    case (Some h)
    with Cons.prems have "h = g" by simp
    with Some match_here_Some[of "c # cs" g] show ?thesis
      by (metis append_Nil)
  qed
qed

lemma match_here_finds:
  assumes "is_quote q" "is_quote q'" "g \<noteq> []" "newline \<notin> set g"
  shows "match_here (py ''app_name='' @ [q] @ g @ [q', 44] @ post) \<noteq> None"
proof -
  let ?rest = "g @ [q', 44] @ post"
  have tw: "takeWhile (\<lambda>c. c \<noteq> newline) ?rest = g @ takeWhile (\<lambda>c. c \<noteq> newline) ([q', 44] @ post)"
    using assms(4) by (intro takeWhile_append2) auto
  have l: "length g \<le> length (takeWhile (\<lambda>c. c \<noteq> newline) ?rest)"
    unfolding tw by simp
  have c: "closes (drop (length g) ?rest)" using assms(2) by (simp add: closes_Cons2)
  have "0 < length g" using assms(3) by simp
  from backtrack_finds[OF this l c] have "match_group ?rest \<noteq> None"
    by (simp add: match_group_def)
  then show ?thesis using assms(1) by (simp add: match_here_def pat_length)
qed

lemma search_finds: "match_here u \<noteq> None \<Longrightarrow> search_app_name (pre @ u) \<noteq> None"
proof (induction pre)
  case Nil
  then show ?case by (cases u) (auto simp: match_here_def py_def split: option.splits)
next
  case (Cons c pre)
  then show ?case by (auto split: option.splits)
qed

lemma search_None_iff:
  "search_app_name t = None \<longleftrightarrow>
   \<not> (\<exists>pre q g q' post. t = pre @ py ''app_name='' @ [q] @ g @ [q', 44] @ post \<and> is_quote q
           \<and> is_quote q' \<and> g \<noteq> [] \<and> newline \<notin> set g)"
proof
  assume n: "search_app_name t = None"
  show "\<not> (\<exists>pre q g q' post. t = pre @ py ''app_name='' @ [q] @ g @ [q', 44] @ post \<and> is_quote q
           \<and> is_quote q' \<and> g \<noteq> [] \<and> newline \<notin> set g)"
  proof
    assume "\<exists>pre q g q' post. t = pre @ py ''app_name='' @ [q] @ g @ [q', 44] @ post \<and> is_quote q
           \<and> is_quote q' \<and> g \<noteq> [] \<and> newline \<notin> set g"
    then obtain pre q g q' post where
      d: "t = pre @ py ''app_name='' @ [q] @ g @ [q', 44] @ post" "is_quote q" "is_quote q'"
         "g \<noteq> []" "newline \<notin> set g" by blast
    from search_finds[OF match_here_finds[OF d(2-5)], of pre post] d(1) n show False by simp
  qed
next
  assume a: "\<not> (\<exists>pre q g q' post. t = pre @ py ''app_name='' @ [q] @ g @ [q', 44] @ post \<and> is_quote q
           \<and> is_quote q' \<and> g \<noteq> [] \<and> newline \<notin> set g)"
  show "search_app_name t = None"
  proof (cases "search_app_name t")
    case None
    then show ?thesis .
  next
    case (Some g)
    from search_Some[OF this] a show ?thesis by blast
  qed
qed

lemma no_close_after_line:
  assumes "\<forall>j. \<not> closes (drop j (takeWhile (\<lambda>c. c \<noteq> newline) post))"
      and "j \<le> length (takeWhile (\<lambda>c. c \<noteq> newline) post)"
  shows "\<not> closes (drop j post)"
proof -
  let ?line = "takeWhile (\<lambda>c. c \<noteq> newline) post"
  let ?more = "dropWhile (\<lambda>c. c \<noteq> newline) post"
  have m: "?more = [] \<or> (\<exists>t. ?more = newline # t)"
    by (cases ?more) (auto simp: dropWhile_eq_Cons_conv)
  have "drop j (?line @ ?more) = drop j ?line @ ?more"
    using assms(2) by (simp del: takeWhile_dropWhile_id)
  then have d: "drop j post = drop j ?line @ ?more"
    by (simp only: takeWhile_dropWhile_id)
  have nq: "\<not> is_quote newline" by (simp add: is_quote_def newline_def)
  have n44: "newline \<noteq> 44" by (simp add: newline_def)
  show ?thesis
  proof (cases "drop j ?line")
    case Nil
    with d have e: "drop j post = ?more" by simp
    from m show ?thesis
    proof
      assume "?more = []"
      with e have "drop j post = []" by (simp only:)
      then show ?thesis by (simp only: closes_short not_False_eq_True)
    next
      assume "\<exists>t. ?more = newline # t"
      then obtain t where "?more = newline # t" by blast
      with e have "drop j post = newline # t" by (simp only:)
      then show ?thesis using nq by (cases t) (simp_all only: closes_short closes_Cons2, auto)
    qed
  next
    case (Cons a xs)
    show ?thesis
    proof (cases xs)
      case Nil
      with Cons d have e: "drop j post = a # ?more" by simp
      from m show ?thesis
      proof
        assume "?more = []"
        with e have "drop j post = [a]" by (simp only:)
        then show ?thesis by (simp only: closes_short not_False_eq_True)
      next
        assume "\<exists>t. ?more = newline # t"
        then obtain t where "?more = newline # t" by blast
        with e have "drop j post = a # newline # t" by (simp only:)
        then show ?thesis using n44 by (simp only: closes_Cons2) auto
      qed
    next
      case (Cons b t)
      with \<open>drop j ?line = a # xs\<close> d have "closes (drop j post) = closes (drop j ?line)"
        by (simp add: closes_Cons2)
      with assms(1) show ?thesis by simp
    qed
  qed
qed

lemma match_group_name:
  assumes "is_quote q'" and "name \<noteq> []" and "newline \<notin> set name"
      and "\<forall>j. \<not> closes (drop j (takeWhile (\<lambda>c. c \<noteq> newline) post))"
  shows "match_group (name @ [q', 44] @ post) = Some name"
proof -
  let ?rest = "name @ [q', 44] @ post"
  let ?line = "takeWhile (\<lambda>c. c \<noteq> newline) post"
  have qn: "q' \<noteq> newline" by (rule quote_not_newline[OF assms(1)])
  have n44: "(44::nat) \<noteq> newline" by (simp add: newline_def)
  have "takeWhile (\<lambda>c. c \<noteq> newline) ([q', 44] @ post) = [q', 44] @ ?line"
    using qn n44 by simp
  moreover have "takeWhile (\<lambda>c. c \<noteq> newline) ?rest
      = name @ takeWhile (\<lambda>c. c \<noteq> newline) ([q', 44] @ post)"
    using assms(3) by (intro takeWhile_append2) auto
  ultimately have L: "length (takeWhile (\<lambda>c. c \<noteq> newline) ?rest)
      = length name + 2 + length ?line"
    by simp
  have skip: "\<forall>j. length name < j \<and> j \<le> length name + 2 + length ?line
      \<longrightarrow> \<not> closes (drop j ?rest)"
  proof (intro allI impI)
    fix j
    assume j: "length name < j \<and> j \<le> length name + 2 + length ?line"
    show "\<not> closes (drop j ?rest)"
    proof (cases "j = Suc (length name)")
      case True
      then have "drop j ?rest = 44 # post" by simp
      then show ?thesis by (cases post) (simp_all add: closes_def is_quote_def)
    next
      case False
      with j have j2: "length name + 2 \<le> j" by simp
      then obtain k where k: "j = length name + 2 + k"
        using le_Suc_ex by blast
      then have "drop j ?rest = drop k post" by simp
      moreover have "k \<le> length ?line" using j k by simp
      ultimately show ?thesis using no_close_after_line[OF assms(4)] by simp
    qed
  qed
  have "backtrack ?rest (length name + 2 + length ?line) = backtrack ?rest (length name)"
    by (rule backtrack_skip[OF _ skip]) simp
  moreover obtain m where m: "length name = Suc m" using assms(2) by (cases name) auto
  moreover have "closes (drop (length name) ?rest)" using assms(1) by (simp add: closes_Cons2)
  ultimately have X: "backtrack ?rest (length name + 2 + length ?line) = Some (take (length name) ?rest)"
    by (metis backtrack.simps(2))
  have tk: "take (length name) ?rest = name" by simp
  have "backtrack ?rest (length name + 2 + length ?line) = Some name"
    using X unfolding tk .
  then show ?thesis unfolding match_group_def L .
qed

lemma match_here_no_prefix: "\<not> prefix (py ''app_name='') t \<Longrightarrow> match_here t = None"
  by (simp add: match_here_def)

lemma search_skip:
  "\<forall>i<length pre. match_here (drop i (pre @ u)) = None \<Longrightarrow> match_here u = Some g \<Longrightarrow>
   search_app_name (pre @ u) = Some g"
proof (induction pre)
  case Nil
  then show ?case by (cases u) (auto simp: match_here_def py_def)
next
  case (Cons c pre)
  from Cons.prems(1) have 0: "match_here (c # pre @ u) = None" by fastforce
  have "\<forall>i<length pre. match_here (drop i (pre @ u)) = None"
  proof (intro allI impI)
    fix i assume "i < length pre"
    then have "Suc i < length (c # pre)" by simp
    with Cons.prems(1) have "match_here (drop (Suc i) ((c # pre) @ u)) = None" by blast
    then show "match_here (drop i (pre @ u)) = None" by simp
  qed
  from Cons.IH[OF this Cons.prems(2)] 0 show ?case by simp
qed

lemma nocomma_search: "search_app_name nocomma_config = None"
  by (simp add: eval_defs nocomma_config_def)

lemma other_find_app:
  "find_app other_world (py ''/proj/pcconfig.py'') (start other_root) =
     (Inr ([py ''proj'', py ''pcconfig.py''], py ''demo'', [py ''proj'', py ''demo''],
           [py ''proj'', py ''assets'']), start other_root)"
  by (simp add: find_app_eq example_search start_def eval_defs other_world_def example_world_def
        other_root_def)

section \<open>More runs\<close>

lemma nested_search: "search_app_name nested_config = Some (py ''pkg/demo'')"
  by (simp add: eval_defs nested_config_def)

lemma nested_find_app:
  "find_app (example_world status) (py ''pcconfig.py'') (start nested_root) =
     (Inr ([py ''proj'', py ''pcconfig.py''], py ''pkg/demo'', [py ''proj'', py ''pkg'', py ''demo''],
           [py ''proj'', py ''assets'']), start nested_root)"
  by (simp add: find_app_eq nested_search start_def eval_defs example_world_def nested_root_def)

lemmas sync_defs = sync_requirements_def sync_assets_def sync_app_def read_is_new_def with_fs_def
  raise_def

lemma nested_update_run:
  "committed (snd (deploy (example_world 409) (py ''pcconfig.py'') False None (start nested_root)))
     = [(py ''alice/pkg-demo'', py ''Update pkg/demo'',
         [CommitOperationDelete (py ''assets'') True,
          CommitOperationAdd (py ''assets/logo.png'')
            (LocalFile [py ''proj'', py ''assets'', py ''logo.png'']),
          CommitOperationDelete (py ''pkg/demo'') True,
          CommitOperationAdd (py ''demo/index.py'')
            (LocalFile [py ''proj'', py ''pkg'', py ''demo'', py ''index.py''])])]"
  apply (simp add: deploy_def bnd_def nested_find_app)
  apply (simp add: seq_def bnd_def emit_def lift_def ret_def mk_locals_def push_def block_Cons block_Nil
      print_def duplicate_space_eq set_operations_def setup_space_update
      sync_defs run_defs commit_eq[where new=False]
      commit_message_def curated_name_def strip_hyphens_def sub_nonword_def is_word_def ascii_alnum_def
      start_def example_world_def nested_root_def eval_defs sublist_code committed_def)
  done

lemma docker_search: "search_app_name docker_config = Some (py ''Dockerfile'')"
  by (simp add: eval_defs docker_config_def)

lemma docker_find_app:
  "find_app (example_world status) (py ''pcconfig.py'') (start docker_root) =
     (Inr ([py ''proj'', py ''pcconfig.py''], py ''Dockerfile'', [py ''proj'', py ''Dockerfile''],
           [py ''proj'', py ''assets'']), start docker_root)"
  by (simp add: find_app_eq docker_search start_def eval_defs example_world_def docker_root_def)

lemma docker_update_run:
  "committed (snd (deploy (example_world 409) (py ''pcconfig.py'') False None (start docker_root)))
     = [(py ''alice/Dockerfile'', py ''Update Dockerfile'',
         [CommitOperationDelete (py ''assets'') True,
          CommitOperationDelete (py ''Dockerfile'') True,
          CommitOperationAdd (py ''Dockerfile/index.py'')
            (LocalFile [py ''proj'', py ''Dockerfile'', py ''index.py''])])]"
  apply (simp add: deploy_def bnd_def docker_find_app)
  apply (simp add: seq_def bnd_def emit_def lift_def ret_def mk_locals_def push_def block_Cons block_Nil
      print_def duplicate_space_eq set_operations_def setup_space_update
      sync_defs run_defs commit_eq[where new=False]
      commit_message_def curated_name_def strip_hyphens_def sub_nonword_def is_word_def ascii_alnum_def
      start_def example_world_def docker_root_def eval_defs sublist_code committed_def)
  done

lemma slash_search: "search_app_name slash_config = Some (py ''/'')"
  by (simp add: eval_defs slash_config_def)

lemma slash_find_app:
  "find_app (example_world status) (py ''pcconfig.py'') (start slash_root) =
     (Inr ([py ''proj'', py ''pcconfig.py''], py ''/'', [], [py ''proj'', py ''assets'']),
      start slash_root)"
  by (simp add: find_app_eq slash_search start_def eval_defs example_world_def slash_root_def)

lemma slash_update_run:
  "committed (snd (deploy (example_world 409) (py ''pcconfig.py'') False None (start slash_root)))
     = [(py ''alice/'', py ''Update /'',
         [CommitOperationDelete (py ''assets'') True,
          CommitOperationDelete [] True,
          CommitOperationAdd (py ''README.md'') (LocalFile [py ''README.md'']),
          CommitOperationAdd (py ''proj/pcconfig.py'') (LocalFile [py ''proj'', py ''pcconfig.py''])])]"
  apply (simp add: deploy_def bnd_def slash_find_app)
  apply (simp add: seq_def bnd_def emit_def lift_def ret_def mk_locals_def push_def block_Cons block_Nil
      print_def duplicate_space_eq set_operations_def setup_space_update
      sync_defs run_defs commit_eq[where new=False]
      commit_message_def curated_name_def strip_hyphens_def sub_nonword_def is_word_def ascii_alnum_def
      start_def example_world_def slash_root_def eval_defs sublist_code committed_def)
  done

lemma rich_find_app:
  "find_app (example_world status) (py ''pcconfig.py'') (start rich_root) =
     (Inr ([py ''proj'', py ''pcconfig.py''], py ''demo'', [py ''proj'', py ''demo''],
           [py ''proj'', py ''assets'']), start rich_root)"
  by (simp add: find_app_eq example_search start_def eval_defs example_world_def rich_root_def)

lemma rich_new_run:
  "fst (deploy (example_world 200) (py ''pcconfig.py'') False None (start rich_root)) = Inr ()
   \<and> committed (snd (deploy (example_world 200) (py ''pcconfig.py'') False None (start rich_root)))
       = [(py ''alice/demo'', py ''Deploy demo!'', rich_new_ops)]
   \<and> is_new (snd (deploy (example_world 200) (py ''pcconfig.py'') False None (start rich_root)))
       = Some True
   \<and> fs (snd (deploy (example_world 200) (py ''pcconfig.py'') False None (start rich_root)))
       = Dir [(py ''proj'', Dir [
            (py ''pcconfig.py'', File example_config),
            (py ''demo'', Dir [
               (py ''index.py'', File (py ''import pynecone'')),
               (py ''pages'', Dir [(py ''home.py'', File (py ''import pynecone''))]),
               (py ''__pycache__'', Dir [(py ''index.pyc'', File (py ''PYC''))])]),
            (py ''assets'', Dir [(py ''logo.png'', File (py ''PNG''))])]),
          (py ''cache'', Dir [(py ''README.md'', File (py ''app = default_app'')),
            (py ''pcconfig_docker.py'', File (py ''app = default_app'')),
            (py ''Dockerfile'', File (py ''app = default_app''))])]"
  apply (simp add: deploy_def bnd_def rich_find_app)
  apply (simp add: seq_def bnd_def emit_def lift_def ret_def raise_def mk_locals_def push_def block_Cons block_Nil
      print_def duplicate_space_eq set_operations_def setup_space_def read_is_new_def
      add_readme_def add_pcconfig_def add_dockerfile_def RepoCard_load_def hf_hub_download_eq
      with_fs_def run_defs tidy_def plain_name_def
      sync_requirements_eq sync_assets_eq sync_app_eq[where new=True] commit_eq[where new=True]
      commit_message_def curated_name_def strip_hyphens_def sub_nonword_def is_word_def ascii_alnum_def
      start_def example_world_def rich_root_def eval_defs sublist_code committed_def
      rich_new_ops_def readme_text_def)
  done

section \<open>What the steps after the README queue\<close>

lemma grows_ret: "grows (ret ())"
  by (simp add: grows_def ret_def)

lemma grows_seq:
  assumes "grows m" and "grows n"
  shows "grows (seq m n)"
  unfolding grows_def
proof
  fix st
  obtain r s where ms: "m st = (r, s)" by fastforce
  from assms(1) ms obtain ops1 where 1: "operations s = operations st @ ops1"
    unfolding grows_def by (metis snd_conv)
  show "\<exists>ops. operations (snd (seq m n st)) = operations st @ ops"
  proof (cases r)
    case (Inl e)
    with ms have "seq m n st = (Inl e, s)" by (simp add: seq_Inl)
    with 1 show ?thesis by simp
  next
    case (Inr u)
    with ms have e: "seq m n st = n s" by (simp add: seq_Inr)
    from assms(2) obtain ops2 where "operations (snd (n s)) = operations s @ ops2"
      unfolding grows_def by metis
    with 1 have "operations (snd (n s)) = operations st @ (ops1 @ ops2)" by simp
    then show ?thesis unfolding e by blast
  qed
qed

lemma grows_adds_one:
  assumes "adds_one w n m"
  shows "grows m"
  unfolding grows_def
proof
  fix st
  obtain r s where ms: "m st = (r, s)" by fastforce
  show "\<exists>ops. operations (snd (m st)) = operations st @ ops"
  proof (cases r)
    case (Inl e)
    with ms adds_one_Inl[OF assms, of st e s] show ?thesis by (simp add: frame_def)
  next
    case (Inr u)
    with ms adds_one_Inr[OF assms, of st u s] show ?thesis by auto
  qed
qed

lemma grows_quiet: "quiet m \<Longrightarrow> grows m"
  unfolding quiet_def grows_def by blast

lemma grows_commit: "grows (commit w l)"
  unfolding grows_def
proof
  fix st
  show "\<exists>ops. operations (snd (commit w l st)) = operations st @ ops"
  proof (cases "is_new st")
    case None
    then show ?thesis by (simp add: commit_def bnd_def read_is_new_def raise_def)
  next
    case (Some new)
    show ?thesis
      unfolding commit_eq[OF Some] by (simp split: sum.splits)
  qed
qed

lemma grows_sync_all: "grows (sync_all w l)"
  unfolding sync_all_split
  by (rule grows_seq[OF grows_quiet[OF quiet_syncs] grows_commit])

lemma RepoCard_load_from_start:
  assumes "RepoCard_load w x tok (start (fs st)) = (Inr rcard, s1)"
  shows "\<exists>s1'. RepoCard_load w x tok st = (Inr rcard, s1') \<and> fs s1' = fs s1
           \<and> operations s1' = operations st"
proof (cases "exists_path (fs st) (joinpath (cwd w) x)")
  case True
  then have t: "exists_path (fs (start (fs st))) (joinpath (cwd w) x)" by (simp add: start_def)
  have f: "fs (start (fs st)) = fs st" by (simp add: start_def)
  from assms show ?thesis
    unfolding RepoCard_load_local[OF t] RepoCard_load_local[OF True] f
    by (auto simp: start_def split: sum.splits)
next
  case False
  then have t: "\<not> exists_path (fs (start (fs st))) (joinpath (cwd w) x)" by (simp add: start_def)
  have e: "\<And>s. \<not> exists_path (fs s) (joinpath (cwd w) x) \<Longrightarrow>
      RepoCard_load w x tok s =
        (case hf_hub_download w x (py ''README.md'') tok s of
           (Inl e, s') \<Rightarrow> (Inl e, s')
         | (Inr p, s') \<Rightarrow> (case read_text (fs s') p of
              Inl e \<Rightarrow> (Inl e, s')
            | Inr v \<Rightarrow> (case parse_card w v of Inl e \<Rightarrow> (Inl e, s') | Inr c \<Rightarrow> (Inr c, s'))))"
    unfolding RepoCard_load_def bnd_def with_fs_def lift_def ret_def raise_def
    by (simp split: sum.splits prod.splits)
  from assms show ?thesis
    unfolding e[OF t] e[OF False] hf_hub_download_eq
    by (auto simp: start_def split: sum.splits option.splits)
qed

lemma push_readme:
  assumes post: "post_duplicate w (repo_id l) private (token l) = Inr s" "\<not> (400 \<le> s \<and> s < 600)"
      and load: "RepoCard_load w (repo_id l) (token l) (start (fs st)) = (Inr rcard, s1)"
      and run: "push w l private st = (res, st')"
  shows "\<not> is_file (fs s1) (cwd w @ [py ''README.md'']) \<longrightarrow>
           (\<exists>rest. operations st' = readme_op w l rcard (readme_text w (app_name l)) # rest)"
    and "is_file (fs s1) (cwd w @ [py ''README.md''])
           \<and> read_text (fs s1) (cwd w @ [py ''README.md'']) = Inr v \<and> parse_card w v = Inr c \<longrightarrow>
           (\<exists>rest. operations st' = readme_op w l rcard (card_text c) # rest)"
proof -
  let ?X = "seq (add_pcconfig w l) (seq (add_dockerfile w l) (ret ()))"
  let ?rest = "seq ?X (sync_all w l)"
  from push_new[OF post, of st] obtain st1 where
    st1: "push w l private st = seq (setup_space w l) (sync_all w l) st1" "fs st1 = fs st"
      "operations st1 = []" "is_new st1 = Some True"
    by blast
  have "setup_space w l st1 = seq (add_readme w l) ?X st1"
    using st1(4) by (simp add: setup_space_def bnd_def read_is_new_def ret_def block_Cons block_Nil)
  then have "seq (setup_space w l) (sync_all w l) st1
      = seq (seq (add_readme w l) ?X) (sync_all w l) st1"
    by (simp add: seq_def bnd_def)
  then have p: "push w l private st = seq (add_readme w l) ?rest st1"
    using st1(1) by (simp add: seq_assoc)
  from load st1(2) have "RepoCard_load w (repo_id l) (token l) (start (fs st1)) = (Inr rcard, s1)"
    by simp
  from RepoCard_load_from_start[OF this] st1(3) obtain s1' where
    l': "RepoCard_load w (repo_id l) (token l) st1 = (Inr rcard, s1')" "fs s1' = fs s1"
        "operations s1' = []"
    by auto
  note e = add_readme_eq[OF l'(1), unfolded joinpath_plain[OF plain_readme] l'(2,3)]
  have g: "grows ?rest"
    by (intro grows_seq grows_sync_all grows_ret grows_adds_one[OF add_pcconfig_adds]
          grows_adds_one[OF add_dockerfile_adds])
  have tail: "\<And>sa x. add_readme w l st1 = (Inr (), sa) \<Longrightarrow> operations sa = [x] \<Longrightarrow>
      \<exists>rest. operations st' = x # rest"
  proof -
    fix sa x
    assume a: "add_readme w l st1 = (Inr (), sa)" and o: "operations sa = [x]"
    from p run have "?rest sa = (res, st')"
      by (simp add: seq_Inr[where m="add_readme w l", OF a])
    moreover from g obtain ops where "operations (snd (?rest sa)) = operations sa @ ops"
      unfolding grows_def by blast
    ultimately show "\<exists>rest. operations st' = x # rest" using o by simp
  qed
  show "\<not> is_file (fs s1) (cwd w @ [py ''README.md'']) \<longrightarrow>
           (\<exists>rest. operations st' = readme_op w l rcard (readme_text w (app_name l)) # rest)"
  proof
    assume n: "\<not> is_file (fs s1) (cwd w @ [py ''README.md''])"
    show "\<exists>rest. operations st' = readme_op w l rcard (readme_text w (app_name l)) # rest"
      by (rule tail[OF e[simplified n if_False]]) simp
  qed
  show "is_file (fs s1) (cwd w @ [py ''README.md''])
           \<and> read_text (fs s1) (cwd w @ [py ''README.md'']) = Inr v \<and> parse_card w v = Inr c \<longrightarrow>
           (\<exists>rest. operations st' = readme_op w l rcard (card_text c) # rest)"
  proof
    assume y: "is_file (fs s1) (cwd w @ [py ''README.md''])
           \<and> read_text (fs s1) (cwd w @ [py ''README.md'']) = Inr v \<and> parse_card w v = Inr c"
    have "add_readme w l st1 = (Inr (), s1'\<lparr>out := out s1' @
                        [Print (py ''  README.md file found locally. Adding it to the Space.'')],
                      operations := [] @ [readme_op w l rcard (card_text c)]\<rparr>)"
      unfolding e using y by simp
    then show "\<exists>rest. operations st' = readme_op w l rcard (card_text c) # rest"
      by (rule tail) simp
  qed
qed

section \<open>The paths of the queued operations\<close>

lemma three_names:
  "py ''requirements.txt'' \<notin> {py ''README.md'', py ''pcconfig_docker.py'', py ''Dockerfile''}"
  "py ''assets'' \<notin> {py ''README.md'', py ''pcconfig_docker.py'', py ''Dockerfile''}"
  "\<And>n. slash \<in> set n \<Longrightarrow> n \<notin> {py ''README.md'', py ''pcconfig_docker.py'', py ''Dockerfile''}"
  "slash \<notin> set (py ''requirements.txt'')"
  by (auto simp: py_def slash_def)

lemma sync_ops_touch:
  assumes "tidy l" and "x \<in> set (sync_ops r l False)"
      and "op_path x \<in> {py ''README.md'', py ''pcconfig_docker.py'', py ''Dockerfile''}"
  shows "x = CommitOperationDelete (app_name l) True"
proof -
  have nz: "app_path l \<noteq> []" "assets_path l \<noteq> []" using assms(1) by (simp_all add: tidy_def)
  have up: "\<And>keep d. d \<noteq> [] \<Longrightarrow> x \<notin> set (upload_ops r keep d)"
  proof
    fix keep d
    assume "d \<noteq> []" and "x \<in> set (upload_ops r keep d)"
    from upload_ops_slash[OF this(2,1)] obtain n p where
      "x = CommitOperationAdd n (LocalFile p)" "slash \<in> set n" by blast
    with three_names(3)[of n] assms(3) show False by simp
  qed
  have rq: "x \<notin> set (requirements_ops r (app_path l))"
    using assms(3) three_names(1) by (auto simp: requirements_ops_def split: if_splits)
  have as: "x \<noteq> CommitOperationDelete (py ''assets'') True"
    using assms(3) three_names(2) by auto
  from assms(2) rq as up[OF nz(1)] up[OF nz(2)] show ?thesis
    by (auto simp: sync_ops_def)
qed

lemma sync_ops_requirements:
  assumes "tidy l"
  shows "CommitOperationAdd (py ''requirements.txt'') (LocalFile f) \<in> set (sync_ops r l new)
     \<longleftrightarrow> f = joinpath (parent (app_path l)) (py ''requirements.txt'') \<and> is_file r f"
proof -
  have nz: "app_path l \<noteq> []" "assets_path l \<noteq> []" using assms(1) by (simp_all add: tidy_def)
  have up: "\<And>keep d. d \<noteq> [] \<Longrightarrow>
      CommitOperationAdd (py ''requirements.txt'') (LocalFile f) \<notin> set (upload_ops r keep d)"
  proof
    fix keep d
    assume "d \<noteq> []"
      and "CommitOperationAdd (py ''requirements.txt'') (LocalFile f) \<in> set (upload_ops r keep d)"
    from upload_ops_slash[OF this(2,1)] three_names(4) show False by auto
  qed
  show ?thesis
    using up[OF nz(1)] up[OF nz(2)]
    by (auto simp: sync_ops_def requirements_ops_def)
qed

lemma other_find_app_proj:
  "find_app (example_world status) (py ''pcconfig.py'') (start other_root) =
     (Inr ([py ''proj'', py ''pcconfig.py''], py ''demo'', [py ''proj'', py ''demo''],
           [py ''proj'', py ''assets'']), start other_root)"
  by (simp add: find_app_eq example_search start_def eval_defs example_world_def other_root_def)

lemmas load_defs = RepoCard_load_def hf_hub_download_eq bnd_def with_fs_def lift_def ret_def
  raise_def curated_name_def strip_hyphens_def sub_nonword_def is_word_def ascii_alnum_def
  start_def other_world_def example_world_def other_root_def

lemma other_load_home_fst:
  "fst (RepoCard_load other_world
          (py ''alice'' @ py ''/'' @ curated_name (isalnum other_world) (py ''demo'')) None
          (start other_root))
     = Inr \<lparr>card_data = [], card_text = py ''app = default_app''\<rparr>"
  by (simp add: load_defs eval_defs)

lemma other_load_home:
  "RepoCard_load other_world
          (py ''alice'' @ py ''/'' @ curated_name (isalnum other_world) (py ''demo'')) None
          (start other_root)
     = (Inr \<lparr>card_data = [], card_text = py ''app = default_app''\<rparr>,
        snd (RepoCard_load other_world
          (py ''alice'' @ py ''/'' @ curated_name (isalnum other_world) (py ''demo'')) None
          (start other_root)))"
  using other_load_home_fst by (metis prod.collapse)

lemma other_home_absent:
  "\<not> is_file (fs (snd (RepoCard_load other_world
          (py ''alice'' @ py ''/'' @ curated_name (isalnum other_world) (py ''demo'')) None
          (start other_root)))) (cwd other_world @ [py ''README.md''])"
  by (simp add: load_defs eval_defs)

lemma other_load_proj_fst:
  "fst (RepoCard_load (example_world 200)
          (py ''alice'' @ py ''/'' @ curated_name (isalnum (example_world 200)) (py ''demo'')) None
          (start other_root))
     = Inr \<lparr>card_data = [], card_text = py ''app = default_app''\<rparr>"
  by (simp add: load_defs eval_defs)

lemma other_load_proj:
  "RepoCard_load (example_world 200)
          (py ''alice'' @ py ''/'' @ curated_name (isalnum (example_world 200)) (py ''demo'')) None
          (start other_root)
     = (Inr \<lparr>card_data = [], card_text = py ''app = default_app''\<rparr>,
        snd (RepoCard_load (example_world 200)
          (py ''alice'' @ py ''/'' @ curated_name (isalnum (example_world 200)) (py ''demo'')) None
          (start other_root)))"
  using other_load_proj_fst by (metis prod.collapse)

lemma other_proj_present:
  "is_file (fs (snd (RepoCard_load (example_world 200)
          (py ''alice'' @ py ''/'' @ curated_name (isalnum (example_world 200)) (py ''demo'')) None
          (start other_root)))) (cwd (example_world 200) @ [py ''README.md''])
   \<and> read_text (fs (snd (RepoCard_load (example_world 200)
          (py ''alice'' @ py ''/'' @ curated_name (isalnum (example_world 200)) (py ''demo'')) None
          (start other_root)))) (cwd (example_world 200) @ [py ''README.md'']) = Inr (py ''local'')
   \<and> parse_card (example_world 200) (py ''local'') = Inr \<lparr>card_data = [], card_text = py ''local''\<rparr>"
  by (simp add: load_defs eval_defs)

section \<open>The curated name keeps the underscore\<close>

text \<open>
  Claim C1.  The claim says that the curated name has only the characters
  \<open>[A-Za-z0-9-]\<close> and that \<open>"My App!!_2"\<close> becomes \<open>"My-App-2"\<close>.  The code replaces the
  characters that \<open>\W\<close> matches, and the underscore is a word character: whatever
  \<open>str.isalnum\<close> says beyond ASCII, the curated name of \<open>"My App!!_2"\<close> is
  \<open>"My-App-_2"\<close>, which is not the string the claim gives and holds the underscore
  (code point 95).
\<close>

theorem curated_name_keeps_underscore:
  "curated_name ua (py ''My App!!_2'') = py ''My-App-_2''
   \<and> curated_name ua (py ''My App!!_2'') \<noteq> py ''My-App-2''
   \<and> 95 \<in> set (curated_name ua (py ''My App!!_2''))"
  by (simp add: curated_name_def strip_hyphens_def sub_nonword_def is_word_def ascii_alnum_def
        hyphen_def py_def)

section \<open>A provisioning error other than 409 aborts the run\<close>

text \<open>
  Claim C2.  When the duplication request returns an HTTP error status other than 409,
  the handler binds nothing to \<open>is_new\<close> and the next read of it raises: the run ends
  with that error, the operation list is still empty and no commit has been submitted.
  When the request returns 409, \<open>is_new\<close> is false; a run that then ends without an
  error has submitted the commit of an update, and with an application folder of a
  plain name the run always gets as far as that commit.
\<close>

theorem provisioning_error_aborts:
  assumes "find_app w arg (start r) = (Inr (cfg, name, app, assets), s)"
      and "whoami w tok = Inr user"
      and "post_duplicate w (user @ py ''/'' @ curated_name (isalnum w) name) priv tok
             = Inr status"
      and "deploy w arg priv tok (start r) = (res, st')"
  shows "(400 \<le> status \<and> status < 600 \<and> status \<noteq> 409 \<longrightarrow>
            res = Inl (UnboundLocalError (py ''is_new'')) \<and> operations st' = []
            \<and> committed st' = [])
       \<and> (status = 409 \<longrightarrow>
            is_new st' = Some False
            \<and> (res = Inr () \<longrightarrow> committed st' =
                  [(user @ py ''/'' @ curated_name (isalnum w) name, py ''Update '' @ name,
                    operations st')])
            \<and> (plain_name name \<longrightarrow> committed st' =
                  [(user @ py ''/'' @ curated_name (isalnum w) name, py ''Update '' @ name,
                    operations st')]))"
proof (intro conjI impI)
  let ?l = "mk_locals w tok (cfg, name, app, assets) user"
  let ?st = "(start r)\<lparr>out := [Whoami tok]\<rparr>"
  have p: "push w ?l priv ?st = (res, st')"
    using deploy_push[OF assms(1,2), of priv] assms(4) by simp
  have post: "post_duplicate w (repo_id ?l) priv (token ?l) = Inr status"
    using assms(3) by (simp add: mk_locals_sel)
  assume bad: "400 \<le> status \<and> status < 600 \<and> status \<noteq> 409"
  have n: "is_new ?st = None" by (simp add: start_def)
  from push_bad_status[OF post _ _ _ n] bad p
  have e: "(res, st') = (Inl (UnboundLocalError (py ''is_new'')),
      ?st\<lparr>out := out ?st @ [Print (py ''Repo ID: '' @ repo_id ?l), Post (repo_id ?l) priv],
         operations := []\<rparr>)"
    by simp
  from e show "res = Inl (UnboundLocalError (py ''is_new''))" by simp
  from e show "operations st' = []" by simp
  from e show "committed st' = []" by (simp add: committed_def)
next
  assume u: "status = 409"
  note d = deploy_outcome[OF assms(1,2,4)]
  from d(5) assms(3) u show n: "is_new st' = Some False" by simp
  have c: "committed st' \<noteq> [] \<Longrightarrow> committed st' =
      [(user @ py ''/'' @ curated_name (isalnum w) name, py ''Update '' @ name, operations st')]"
    using d(6) n by (auto simp: commit_message_def)
  {
    assume "res = Inr ()"
    with d(8) have "committed st' \<noteq> []" by simp
    then show "committed st' =
      [(user @ py ''/'' @ curated_name (isalnum w) name, py ''Update '' @ name, operations st')]"
      by (rule c)
  }
  {
    assume "plain_name name"
    from deploy_outcome_plain(2)[OF assms(1) this assms(2,4)] n
    have "committed st' \<noteq> []" by simp
    then show "committed st' =
      [(user @ py ''/'' @ curated_name (isalnum w) name, py ''Update '' @ name, operations st')]"
      by (rule c)
  }
qed

theorem provisioning_error_aborts_witness:
  "fst (deploy (example_world 500) (py ''pcconfig.py'') False None (start example_root))
      = Inl (UnboundLocalError (py ''is_new''))
   \<and> operations (snd (deploy (example_world 500) (py ''pcconfig.py'') False None (start example_root))) = []
   \<and> committed (snd (deploy (example_world 500) (py ''pcconfig.py'') False None (start example_root))) = []
   \<and> is_new (snd (deploy (example_world 409) (py ''pcconfig.py'') False None (start example_root)))
      = Some False
   \<and> plain_name (py ''demo'')
   \<and> committed (snd (deploy (example_world 409) (py ''pcconfig.py'') False None (start example_root)))
      = [(py ''alice/demo'', py ''Update demo'',
          operations (snd (deploy (example_world 409) (py ''pcconfig.py'') False None
             (start example_root))))]"
proof -
  have a: "(400::nat) \<le> 500 \<and> (500::nat) < 600 \<and> (500::nat) \<noteq> 409" by simp
  have pl: "plain_name (py ''demo'')" by (simp add: plain_name_def py_def slash_def)
  note t500 = provisioning_error_aborts[where w="example_world 500" and tok=None and priv=False
      and status=500, OF example_find_app example_whoami example_post surjective_pairing]
  note t409 = provisioning_error_aborts[where w="example_world 409" and tok=None and priv=False
      and status=409, OF example_find_app example_whoami example_post surjective_pairing]
  have s: "py ''alice'' @ py ''/'' @ py ''demo'' = py ''alice/demo''"
    "py ''Update '' @ py ''demo'' = py ''Update demo''"
    by (simp_all add: py_def)
  from t500 a t409 pl show ?thesis
    by (simp add: example_curated s)
qed

section \<open>The commit message\<close>

text \<open>
  Claim C7.  A run that ends without an error has submitted exactly one commit, with the
  operations it has queued, and the message of that commit is \<open>Deploy {app_name}!\<close>
  (which starts with \<open>Deploy {app_name}\<close>) when the repository is new and
  \<open>Update {app_name}\<close> when it already exists.  No run submits more than one commit, and
  whatever commit is submitted has the message of its mode.  In the end-to-end example
  with the application \<open>demo\<close> the message of a first run is \<open>Deploy demo!\<close> and that of a
  later run is \<open>Update demo\<close>.
\<close>

theorem commit_message_by_mode:
  assumes "find_app w arg (start r) = (Inr (cfg, name, app, assets), s)"
      and "deploy w arg priv tok (start r) = (res, st')"
  shows "(res = Inr () \<longrightarrow>
            (is_new st' = Some True \<or> is_new st' = Some False)
            \<and> (\<exists>rid. committed st' =
                  [(rid, if is_new st' = Some True then py ''Deploy '' @ name @ py ''!''
                         else py ''Update '' @ name, operations st')]))
       \<and> (\<forall>rid msg ops. (rid, msg, ops) \<in> set (committed st') \<longrightarrow>
            committed st' = [(rid, msg, ops)]
            \<and> (is_new st' = Some True \<longrightarrow> msg = py ''Deploy '' @ name @ py ''!'')
            \<and> (is_new st' \<noteq> Some True \<longrightarrow> is_new st' = Some False \<and> msg = py ''Update '' @ name))"
proof (intro conjI impI allI)
  assume ok: "res = Inr ()"
  have "\<exists>user. whoami w tok = Inr user"
  proof (cases "whoami w tok")
    case (Inl e)
    then have "find_app w arg (start r) = (Inl e, s) \<or> whoami w tok = Inl e" by simp
    from deploy_no_commit[OF this, of priv] assms(2) ok show ?thesis by simp
  next
    case (Inr user)
    then show ?thesis by blast
  qed
  then obtain user where who: "whoami w tok = Inr user" by blast
  note d = deploy_outcome[OF assms(1) who assms(2)]
  from d(8) ok have ne: "committed st' \<noteq> []" by simp
  with d(6) obtain new where
    n: "is_new st' = Some new"
       "committed st' = [(user @ py ''/'' @ curated_name (isalnum w) name,
           commit_message new name, operations st')]"
    by blast
  from n(1) show "is_new st' = Some True \<or> is_new st' = Some False" by (cases new) simp_all
  from n show "\<exists>rid. committed st' =
      [(rid, if is_new st' = Some True then py ''Deploy '' @ name @ py ''!''
             else py ''Update '' @ name, operations st')]"
    by (cases new) (simp_all add: commit_message_def)
next
  fix rid msg ops
  assume m: "(rid, msg, ops) \<in> set (committed st')"
  then have ne: "committed st' \<noteq> []" by auto
  from committed_needs_whoami[OF assms(1,2) ne] obtain user where who: "whoami w tok = Inr user"
    by blast
  from deploy_outcome(6)[OF assms(1) who assms(2)] ne obtain new where
    n: "is_new st' = Some new"
       "committed st' = [(user @ py ''/'' @ curated_name (isalnum w) name,
           commit_message new name, operations st')]"
    by blast
  from n(2) m show "committed st' = [(rid, msg, ops)]" by simp
  {
    assume "is_new st' = Some True"
    with n m show "msg = py ''Deploy '' @ name @ py ''!''" by (simp add: commit_message_def)
  }
  {
    assume f: "is_new st' \<noteq> Some True"
    with n(1) show "is_new st' = Some False" by (cases new) simp_all
    from f n m show "msg = py ''Update '' @ name" by (cases new) (simp_all add: commit_message_def)
  }
qed

theorem commit_message_by_mode_witness:
  "fst (deploy (example_world 200) (py ''pcconfig.py'') False None (start example_root)) = Inr ()
   \<and> (\<exists>rid. committed (snd (deploy (example_world 200) (py ''pcconfig.py'') False None
        (start example_root)))
       = [(rid, py ''Deploy demo!'',
           operations (snd (deploy (example_world 200) (py ''pcconfig.py'') False None
             (start example_root))))])
   \<and> fst (deploy (example_world 409) (py ''pcconfig.py'') False None (start example_root)) = Inr ()
   \<and> (\<exists>rid. committed (snd (deploy (example_world 409) (py ''pcconfig.py'') False None
        (start example_root)))
       = [(rid, py ''Update demo'',
           operations (snd (deploy (example_world 409) (py ''pcconfig.py'') False None
             (start example_root))))])"
proof -
  have r200: "fst (deploy (example_world 200) (py ''pcconfig.py'') False None (start example_root))
      = Inr ()"
    and n200: "is_new (snd (deploy (example_world 200) (py ''pcconfig.py'') False None
      (start example_root))) = Some True"
    using example_new_run by simp_all
  have r409: "fst (deploy (example_world 409) (py ''pcconfig.py'') False None (start example_root))
      = Inr ()"
    and n409: "is_new (snd (deploy (example_world 409) (py ''pcconfig.py'') False None
      (start example_root))) = Some False"
    by (simp_all add: example_update_run)
  have s: "py ''Deploy '' @ py ''demo'' @ py ''!'' = py ''Deploy demo!''"
    "py ''Update '' @ py ''demo'' = py ''Update demo''"
    by (simp_all add: py_def)
  note t200 = commit_message_by_mode[where w="example_world 200" and priv=False and tok=None,
      OF example_find_app surjective_pairing, THEN conjunct1]
  note t409 = commit_message_by_mode[where w="example_world 409" and priv=False and tok=None,
      OF example_find_app surjective_pairing, THEN conjunct1]
  from t200 r200 n200 have 1: "\<exists>rid. committed (snd (deploy (example_world 200) (py ''pcconfig.py'')
        False None (start example_root)))
       = [(rid, py ''Deploy demo!'',
           operations (snd (deploy (example_world 200) (py ''pcconfig.py'') False None
             (start example_root))))]"
    by (simp add: s)
  from t409 r409 n409 have 2: "\<exists>rid. committed (snd (deploy (example_world 409) (py ''pcconfig.py'')
        False None (start example_root)))
       = [(rid, py ''Update demo'',
           operations (snd (deploy (example_world 409) (py ''pcconfig.py'') False None
             (start example_root))))]"
    by (simp add: s)
  from r200 1 r409 2 show ?thesis by blast
qed

section \<open>What a run changes on the local filesystem\<close>




section \<open>The application name without a word character\<close>

text \<open>
  Claim C10.  When the extracted name has no word character (as \<open>---\<close>), its curated
  form is the empty string; once the local checks have passed and the user is known,
  the run sends the duplication request for the repository id \<open>{username}/\<close>: no check
  stops it before.
\<close>

theorem empty_curated_name_is_posted:
  assumes "find_app w arg (start r) = (Inr (cfg, name, app, assets), s)"
      and "whoami w tok = Inr user"
      and "\<forall>c\<in>set name. \<not> is_word (isalnum w) c"
      and "deploy w arg priv tok (start r) = (res, st')"
  shows "curated_name (isalnum w) name = [] \<and> posted st' = [(user @ py ''/'', priv)]"
proof -
  have c: "curated_name (isalnum w) name = []"
    by (rule curated_name_empty[OF assms(3)])
  from deploy_outcome(1)[OF assms(1,2,4)] c show ?thesis by simp
qed

theorem empty_curated_name_is_posted_witness:
  "curated_name (isalnum (example_world 200)) (py ''---'') = []
   \<and> posted (snd (deploy (example_world 200) (py ''pcconfig.py'') False None (start hyphen_root)))
       = [(py ''alice/'', False)]"
proof -
  have nw: "\<forall>c\<in>set (py ''---''). \<not> is_word (isalnum (example_world 200)) c"
    by (simp add: py_def is_word_def ascii_alnum_def)
  have s: "py ''alice'' @ py ''/'' = py ''alice/''" by (simp add: py_def)
  from empty_curated_name_is_posted[OF hyphen_find_app example_whoami nw surjective_pairing,
      where priv=False] s
  show ?thesis by simp
qed

section \<open>The files of a new space\<close>

text \<open>
  Claim C5, as amended.  The claim says that a run for a repository that exists leaves
  the remote \<open>README.md\<close>, \<open>pcconfig_docker.py\<close> and \<open>Dockerfile\<close> untouched.  The sync of
  the application folder can touch them: an application named \<open>Dockerfile\<close> has the
  remote \<open>Dockerfile\<close> deleted as a folder, and an application folder that is the root
  of the filesystem has every file there uploaded under its own name.  What holds for a
  run that submits a commit: \<open>is_new\<close> is true exactly when the duplication request did
  not return an error status and false exactly when it returned 409.  When it is true
  the operation list starts with the Add entries for \<open>README.md\<close>, \<open>pcconfig_docker.py\<close>
  and \<open>Dockerfile\<close>, built in memory, and no other entry is built in memory.  When it is
  false no entry is built in memory, and, for an application of a plain name, the only
  operation that can have one of the three paths is the deletion of the application
  folder, when the application bears that name.
\<close>

theorem new_space_files_iff_new:
  assumes "find_app w arg (start r) = (Inr (cfg, name, app, assets), s)"
      and "whoami w tok = Inr user"
      and "deploy w arg priv tok (start r) = (res, st')"
      and "(rid, msg, ops) \<in> set (committed st')"
  shows "(is_new st' = Some True \<or> is_new st' = Some False)
     \<and> (is_new st' = Some True \<longleftrightarrow>
           (\<exists>status. post_duplicate w (user @ py ''/'' @ curated_name (isalnum w) name) priv tok
                       = Inr status \<and> \<not> (400 \<le> status \<and> status < 600)))
     \<and> (is_new st' = Some False \<longleftrightarrow>
           post_duplicate w (user @ py ''/'' @ curated_name (isalnum w) name) priv tok = Inr 409)
     \<and> (is_new st' = Some True \<longrightarrow>
           (\<exists>c1 c2 c3 rest. ops =
              CommitOperationAdd (py ''README.md'') (Bytes c1)
              # CommitOperationAdd (py ''pcconfig_docker.py'') (Bytes c2)
              # CommitOperationAdd (py ''Dockerfile'') (Bytes c3) # rest
              \<and> (\<forall>x\<in>set rest. \<not> in_memory x)))
     \<and> (is_new st' = Some False \<longrightarrow>
           (\<forall>x\<in>set ops. \<not> in_memory x)
           \<and> (plain_name name \<longrightarrow>
                (\<forall>x\<in>set ops.
                   op_path x \<in> {py ''README.md'', py ''pcconfig_docker.py'', py ''Dockerfile''}
                   \<longrightarrow> x = CommitOperationDelete name True)))"
proof -
  let ?l = "mk_locals w tok (cfg, name, app, assets) user"
  have ne: "committed st' \<noteq> []" using assms(4) by auto
  note d = deploy_outcome(4,5)[OF assms(1,2,3)]
  from deploy_outcome(6)[OF assms(1,2,3)] ne obtain new head rest where
    o: "is_new st' = Some new" "if new then new_head head else head = []"
       "operations st' = head @ rest" "\<forall>x\<in>set rest. \<not> in_memory x"
       "committed st' = [(user @ py ''/'' @ curated_name (isalnum w) name,
           commit_message new name, operations st')]"
    by blast
  from o(5) assms(4) have ops: "ops = head @ rest" using o(3) by simp
  have 1: "is_new st' = Some True \<or> is_new st' = Some False"
    using o(1) by (cases new) simp_all
  have 4: "is_new st' = Some True \<longrightarrow>
           (\<exists>c1 c2 c3 rest. ops =
              CommitOperationAdd (py ''README.md'') (Bytes c1)
              # CommitOperationAdd (py ''pcconfig_docker.py'') (Bytes c2)
              # CommitOperationAdd (py ''Dockerfile'') (Bytes c3) # rest
              \<and> (\<forall>x\<in>set rest. \<not> in_memory x))"
  proof
    assume "is_new st' = Some True"
    with o have "new_head head" by simp
    from new_head_facts(1)[OF this] obtain c1 c2 c3 where
      "head = [CommitOperationAdd (py ''README.md'') (Bytes c1),
            CommitOperationAdd (py ''pcconfig_docker.py'') (Bytes c2),
            CommitOperationAdd (py ''Dockerfile'') (Bytes c3)]" by blast
    with ops o(4) have "ops =
              CommitOperationAdd (py ''README.md'') (Bytes c1)
              # CommitOperationAdd (py ''pcconfig_docker.py'') (Bytes c2)
              # CommitOperationAdd (py ''Dockerfile'') (Bytes c3) # rest
              \<and> (\<forall>x\<in>set rest. \<not> in_memory x)" by simp
    then show "\<exists>c1 c2 c3 rest. ops =
              CommitOperationAdd (py ''README.md'') (Bytes c1)
              # CommitOperationAdd (py ''pcconfig_docker.py'') (Bytes c2)
              # CommitOperationAdd (py ''Dockerfile'') (Bytes c3) # rest
              \<and> (\<forall>x\<in>set rest. \<not> in_memory x)" by blast
  qed
  have 5: "is_new st' = Some False \<longrightarrow>
           (\<forall>x\<in>set ops. \<not> in_memory x)
           \<and> (plain_name name \<longrightarrow>
                (\<forall>x\<in>set ops.
                   op_path x \<in> {py ''README.md'', py ''pcconfig_docker.py'', py ''Dockerfile''}
                   \<longrightarrow> x = CommitOperationDelete name True))"
  proof (intro impI conjI ballI)
    fix x
    assume f: "is_new st' = Some False" and x: "x \<in> set ops"
    from f o have "head = []" by simp
    with ops o(4) x show "\<not> in_memory x" by simp
  next
    fix x
    assume f: "is_new st' = Some False" and pl: "plain_name name" and x: "x \<in> set ops"
      and t: "op_path x \<in> {py ''README.md'', py ''pcconfig_docker.py'', py ''Dockerfile''}"
    from outcome_ops[OF assms(1) pl assms(2,3,4)] f
    have "ops = sync_ops (fs st') ?l False" by auto
    with x have "x \<in> set (sync_ops (fs st') ?l False)" by simp
    from sync_ops_touch[OF tidy_mk_locals[OF assms(1) pl] this t]
    show "x = CommitOperationDelete name True" by (simp add: mk_locals_sel)
  qed
  from 1 d 4 5 show ?thesis by blast
qed

theorem new_space_files_iff_new_witness:
  "is_new (snd (deploy (example_world 200) (py ''pcconfig.py'') False None (start example_root)))
     = Some True
   \<and> (\<exists>c1 c2 c3 rest. example_new_ops =
              CommitOperationAdd (py ''README.md'') (Bytes c1)
              # CommitOperationAdd (py ''pcconfig_docker.py'') (Bytes c2)
              # CommitOperationAdd (py ''Dockerfile'') (Bytes c3) # rest)
   \<and> is_new (snd (deploy (example_world 409) (py ''pcconfig.py'') False None (start example_root)))
     = Some False
   \<and> plain_name (py ''demo'')
   \<and> py ''README.md'' \<notin> set (map op_path (operations (snd
         (deploy (example_world 409) (py ''pcconfig.py'') False None (start example_root)))))
   \<and> py ''pcconfig_docker.py'' \<notin> set (map op_path (operations (snd
         (deploy (example_world 409) (py ''pcconfig.py'') False None (start example_root)))))
   \<and> py ''Dockerfile'' \<notin> set (map op_path (operations (snd
         (deploy (example_world 409) (py ''pcconfig.py'') False None (start example_root)))))"
proof -
  let ?ops = "operations (snd (deploy (example_world 409) (py ''pcconfig.py'') False None
                (start example_root)))"
  have c200: "(py ''alice/demo'', py ''Deploy demo!'', example_new_ops)
      \<in> set (committed (snd (deploy (example_world 200) (py ''pcconfig.py'') False None
                (start example_root))))"
    using example_new_run by simp
  have c409: "(py ''alice/demo'', py ''Update demo'', ?ops)
      \<in> set (committed (snd (deploy (example_world 409) (py ''pcconfig.py'') False None
                (start example_root))))"
    by (simp add: example_update_run committed_def)
  have pl: "plain_name (py ''demo'')" by (simp add: plain_name_def py_def slash_def)
  note n = new_space_files_iff_new[OF example_find_app example_whoami surjective_pairing c200]
  note u = new_space_files_iff_new[OF example_find_app example_whoami surjective_pairing c409]
  have p200: "post_duplicate (example_world 200)
      (py ''alice'' @ py ''/'' @ curated_name (isalnum (example_world 200)) (py ''demo'')) False None
      = Inr 200" by (rule example_post)
  have p409: "post_duplicate (example_world 409)
      (py ''alice'' @ py ''/'' @ curated_name (isalnum (example_world 409)) (py ''demo'')) False None
      = Inr 409" by (rule example_post)
  have t: "is_new (snd (deploy (example_world 200) (py ''pcconfig.py'') False None
                (start example_root))) = Some True"
    using n p200 by auto
  have f: "is_new (snd (deploy (example_world 409) (py ''pcconfig.py'') False None
                (start example_root))) = Some False"
    using u p409 by blast
  from n t have h: "\<exists>c1 c2 c3 rest. example_new_ops =
              CommitOperationAdd (py ''README.md'') (Bytes c1)
              # CommitOperationAdd (py ''pcconfig_docker.py'') (Bytes c2)
              # CommitOperationAdd (py ''Dockerfile'') (Bytes c3) # rest"
    by blast
  from u f pl have only: "\<forall>x\<in>set ?ops.
      op_path x \<in> {py ''README.md'', py ''pcconfig_docker.py'', py ''Dockerfile''}
        \<longrightarrow> x = CommitOperationDelete (py ''demo'') True"
    by blast
  have dn: "py ''demo'' \<noteq> py ''README.md''" "py ''demo'' \<noteq> py ''pcconfig_docker.py''"
    "py ''demo'' \<noteq> py ''Dockerfile''"
    by (simp_all add: py_def)
  have no: "\<And>n. n \<in> {py ''README.md'', py ''pcconfig_docker.py'', py ''Dockerfile''} \<Longrightarrow>
      n \<notin> set (map op_path ?ops)"
  proof
    fix n
    assume n: "n \<in> {py ''README.md'', py ''pcconfig_docker.py'', py ''Dockerfile''}"
      and "n \<in> set (map op_path ?ops)"
    then obtain x where x: "x \<in> set ?ops" "op_path x = n" by auto
    with only n have "x = CommitOperationDelete (py ''demo'') True" by blast
    with x(2) n dn show False by auto
  qed
  from t h f pl no[of "py ''README.md''"] no[of "py ''pcconfig_docker.py''"]
    no[of "py ''Dockerfile''"]
  show ?thesis by simp
qed

text \<open>
  An application named \<open>Dockerfile\<close>, deployed to a repository that exists: the remote
  \<open>Dockerfile\<close> is deleted.  An application named \<open>/\<close>, whose folder is the root of the
  filesystem: the \<open>README.md\<close> found there is uploaded.
\<close>

theorem update_touches_the_new_space_files:
  "committed (snd (deploy (example_world 409) (py ''pcconfig.py'') False None (start docker_root)))
     = [(py ''alice/Dockerfile'', py ''Update Dockerfile'',
         [CommitOperationDelete (py ''assets'') True,
          CommitOperationDelete (py ''Dockerfile'') True,
          CommitOperationAdd (py ''Dockerfile/index.py'')
            (LocalFile [py ''proj'', py ''Dockerfile'', py ''index.py''])])]
   \<and> committed (snd (deploy (example_world 409) (py ''pcconfig.py'') False None (start slash_root)))
     = [(py ''alice/'', py ''Update /'',
         [CommitOperationDelete (py ''assets'') True,
          CommitOperationDelete [] True,
          CommitOperationAdd (py ''README.md'') (LocalFile [py ''README.md'']),
          CommitOperationAdd (py ''proj/pcconfig.py'') (LocalFile [py ''proj'', py ''pcconfig.py''])])]"
  using docker_update_run slash_update_run by simp

section \<open>The assets folder\<close>

text \<open>
  Claim C6, as amended.  The claim says that the operation list always has exactly one
  \<open>Delete("assets", folder)\<close>.  When the application is itself named \<open>assets\<close> and the
  repository exists already, the sync of the application folder queues a second one.
  What holds for every run that submits a commit, when the application has a plain
  name (one path component, not \<open>.\<close> or \<open>..\<close>): the list has a
  \<open>Delete("assets", folder)\<close> with none before it, followed at once by the Add entries
  of the files that the traversal of the local assets folder finds, each under its path
  relative to the config folder; and the list has one such Delete, or two in the case
  just named.
\<close>

theorem assets_sync_operations:
  assumes "find_app w arg (start r) = (Inr (cfg, name, app, assets), s)"
      and "plain_name name"
      and "deploy w arg priv tok (start r) = (res, st')"
      and "(rid, msg, ops) \<in> set (committed st')"
  shows "(\<exists>before after. ops = before @ CommitOperationDelete (py ''assets'') True #
            map (\<lambda>p. CommitOperationAdd (rel_str (drop (length (parent cfg)) p)) (LocalFile p))
              (filter (is_file (fs st')) (glob_all (fs st') (parent cfg @ [py ''assets''])))
            @ after
          \<and> CommitOperationDelete (py ''assets'') True \<notin> set before)
       \<and> (\<forall>p\<in>set (glob_all (fs st') (parent cfg @ [py ''assets''])).
             relative_to p (parent cfg) = Some (drop (length (parent cfg)) p))
       \<and> length (filter (\<lambda>x. x = CommitOperationDelete (py ''assets'') True) ops)
           = (if is_new st' = Some False \<and> name = py ''assets'' then 2 else 1)"
proof -
  have ne: "committed st' \<noteq> []" using assms(4) by auto
  from committed_needs_whoami[OF assms(1,3) ne] obtain user where who: "whoami w tok = Inr user"
    by blast
  let ?l = "mk_locals w tok (cfg, name, app, assets) user"
  from outcome_ops[OF assms(1,2) who assms(3,4)] obtain new head where
    o: "is_new st' = Some new" "if new then new_head head else head = []"
       "ops = head @ sync_ops (fs st') ?l new"
    by blast
  have a: "assets = parent cfg @ [py ''assets'']"
    by (rule find_app_Inr(6)[OF assms(1)])
  have hd: "CommitOperationDelete (py ''assets'') True \<notin> set head"
    using o(2) new_head_facts(2) by (cases new) auto
  let ?before = "head @ requirements_ops (fs st') app"
  let ?after = "CommitOperationDelete (if new then py ''default_app'' else name) True
       # upload_ops (fs st') (\<lambda>p. \<not> sublist (py ''__pycache__'') (path_str p)) app"
  have 1: "ops = ?before @ CommitOperationDelete (py ''assets'') True #
            map (\<lambda>p. CommitOperationAdd (rel_str (drop (length (parent cfg)) p)) (LocalFile p))
              (filter (is_file (fs st')) (glob_all (fs st') (parent cfg @ [py ''assets''])))
            @ ?after"
    unfolding o(3) by (simp add: sync_ops_def upload_ops_def mk_locals_sel a parent_def)
  have 2: "CommitOperationDelete (py ''assets'') True \<notin> set ?before"
    using hd requirements_ops_no_assets_delete by simp
  have 3: "\<forall>p\<in>set (glob_all (fs st') (parent cfg @ [py ''assets''])).
             relative_to p (parent cfg) = Some (drop (length (parent cfg)) p)"
    using glob_all_relative by blast
  have "filter (\<lambda>x. x = CommitOperationDelete (py ''assets'') True) head = []"
    using hd by (auto simp: filter_empty_conv)
  then have 4: "length (filter (\<lambda>x. x = CommitOperationDelete (py ''assets'') True) ops)
           = (if is_new st' = Some False \<and> name = py ''assets'' then 2 else 1)"
    unfolding o(3) using o(1) sync_ops_count[of "fs st'" ?l new]
    by (cases new) (simp_all add: mk_locals_sel)
  from 1 2 3 4 show ?thesis by blast
qed

theorem assets_sync_operations_witness:
  "plain_name (py ''demo'')
   \<and> length (filter (\<lambda>x. x = CommitOperationDelete (py ''assets'') True)
     (operations (snd (deploy (example_world 409) (py ''pcconfig.py'') False None
        (start example_root))))) = 1
   \<and> [py ''proj'', py ''assets'', py ''logo.png'']
        \<in> set (glob_all example_root [py ''proj'', py ''assets''])
   \<and> relative_to [py ''proj'', py ''assets'', py ''logo.png''] [py ''proj'']
        = Some [py ''assets'', py ''logo.png'']"
proof -
  have c409: "(py ''alice/demo'', py ''Update demo'',
        operations (snd (deploy (example_world 409) (py ''pcconfig.py'') False None
                (start example_root))))
      \<in> set (committed (snd (deploy (example_world 409) (py ''pcconfig.py'') False None
                (start example_root))))"
    by (simp add: example_update_run committed_def)
  have n: "py ''demo'' \<noteq> py ''assets''" by (simp add: py_def)
  have f: "fs (snd (deploy (example_world 409) (py ''pcconfig.py'') False None
                (start example_root))) = example_root"
    by (simp add: example_update_run)
  have g: "[py ''proj'', py ''assets'', py ''logo.png'']
        \<in> set (glob_all example_root [py ''proj'', py ''assets''])"
    by (simp add: example_root_def eval_defs)
  have pl: "plain_name (py ''demo'')" by (simp add: plain_name_def py_def slash_def)
  note t = assets_sync_operations[OF example_find_app pl surjective_pairing c409]
  from t n f have 1: "length (filter (\<lambda>x. x = CommitOperationDelete (py ''assets'') True)
     (operations (snd (deploy (example_world 409) (py ''pcconfig.py'') False None
        (start example_root))))) = 1"
    by simp
  from t f have "\<forall>p\<in>set (glob_all example_root [py ''proj'', py ''assets'']).
         relative_to p [py ''proj''] = Some (drop 1 p)"
    by (simp add: parent_def)
  with g have 2: "relative_to [py ''proj'', py ''assets'', py ''logo.png''] [py ''proj'']
        = Some [py ''assets'', py ''logo.png'']"
    by fastforce
  from pl 1 g 2 show ?thesis by blast
qed

text \<open>
  The application named \<open>assets\<close>, deployed to a repository that exists: the list has
  the folder deletion twice.
\<close>

theorem assets_deleted_twice:
  "committed (snd (deploy (example_world 409) (py ''pcconfig.py'') False None (start assets_root)))
     = [(py ''alice/assets'', py ''Update assets'',
         [CommitOperationDelete (py ''assets'') True,
          CommitOperationAdd (py ''assets/logo.png'')
            (LocalFile [py ''proj'', py ''assets'', py ''logo.png'']),
          CommitOperationDelete (py ''assets'') True,
          CommitOperationAdd (py ''assets/logo.png'')
            (LocalFile [py ''proj'', py ''assets'', py ''logo.png''])])]"
  by (rule assets_update_run)

section \<open>The application folder\<close>

text \<open>
  Claim C4, as amended.  The claim says that the Add entries of the application folder
  always have paths relative to the config folder.  The paths are relative to the parent
  of the application folder, which is the config folder only when the application name
  is a plain folder name (one path component, not \<open>.\<close> or \<open>..\<close>): for the application
  \<open>pkg/demo\<close> the file \<open>pkg/demo/index.py\<close> is added as \<open>demo/index.py\<close>.  What holds for
  an application of a plain name: the application folder is the folder of that name next
  to the config file, and in every run that submits a commit the operation list ends with one
  \<open>Delete(folder)\<close>, of \<open>default_app\<close> when the deploy is new and of the application's
  name when it updates, followed by the Add entries of the traversal of the local
  application folder, for the files whose path does not contain \<open>__pycache__\<close>, each
  under its path relative to the config folder; and every file below the application
  folder whose path does not contain \<open>__pycache__\<close> has its Add entry there.
\<close>

theorem app_folder_sync_operations:
  assumes "find_app w arg (start r) = (Inr (cfg, name, app, assets), s)"
      and "plain_name name"
      and "deploy w arg priv tok (start r) = (res, st')"
      and "(rid, msg, ops) \<in> set (committed st')"
  shows "app = parent cfg @ [name]
       \<and> (\<exists>before. ops = before @
             CommitOperationDelete (if is_new st' = Some True then py ''default_app'' else name) True #
             map (\<lambda>p. CommitOperationAdd (rel_str (drop (length (parent cfg)) p)) (LocalFile p))
               (filter (\<lambda>p. is_file (fs st') p \<and> \<not> sublist (py ''__pycache__'') (path_str p))
                  (glob_all (fs st') (parent cfg @ [name]))))
       \<and> (\<forall>p\<in>set (glob_all (fs st') (parent cfg @ [name])).
             relative_to p (parent cfg) = Some (drop (length (parent cfg)) p))
       \<and> (\<forall>q. q \<noteq> [] \<and> py ''..'' \<notin> set q \<and> is_file (fs st') (parent cfg @ name # q)
               \<and> \<not> sublist (py ''__pycache__'') (path_str (parent cfg @ name # q))
             \<longrightarrow> CommitOperationAdd (rel_str (name # q)) (LocalFile (parent cfg @ name # q))
                   \<in> set ops)"
proof -
  have ne: "committed st' \<noteq> []" using assms(4) by auto
  from committed_needs_whoami[OF assms(1,3) ne] obtain user where who: "whoami w tok = Inr user"
    by blast
  let ?l = "mk_locals w tok (cfg, name, app, assets) user"
  let ?d = "parent cfg @ [name]"
  let ?keep = "\<lambda>p. \<not> sublist (py ''__pycache__'') (path_str p)"
  from outcome_ops[OF assms(1,2) who assms(3,4)] obtain new head where
    o: "is_new st' = Some new" "if new then new_head head else head = []"
       "ops = head @ sync_ops (fs st') ?l new"
    by blast
  have app: "app = ?d"
    using find_app_Inr(4)[OF assms(1)] by (simp add: joinpath_plain[OF assms(2)])
  have pd: "parent ?d = parent cfg" by (simp add: parent_def)
  have up: "upload_ops (fs st') ?keep ?d =
      map (\<lambda>p. CommitOperationAdd (rel_str (drop (length (parent cfg)) p)) (LocalFile p))
        (filter (\<lambda>p. is_file (fs st') p \<and> \<not> sublist (py ''__pycache__'') (path_str p))
           (glob_all (fs st') ?d))"
    by (simp add: upload_ops_def pd)
  have tgt: "(if new then py ''default_app'' else name)
      = (if is_new st' = Some True then py ''default_app'' else name)"
    using o(1) by simp
  have 2: "\<exists>before. ops = before @
             CommitOperationDelete (if is_new st' = Some True then py ''default_app'' else name) True #
             map (\<lambda>p. CommitOperationAdd (rel_str (drop (length (parent cfg)) p)) (LocalFile p))
               (filter (\<lambda>p. is_file (fs st') p \<and> \<not> sublist (py ''__pycache__'') (path_str p))
                  (glob_all (fs st') ?d))"
  proof -
    have "ops = (head @ requirements_ops (fs st') app
             @ CommitOperationDelete (py ''assets'') True # upload_ops (fs st') (\<lambda>p. True) assets)
           @ CommitOperationDelete (if new then py ''default_app'' else name) True
             # upload_ops (fs st') ?keep ?d"
      unfolding o(3) by (simp add: sync_ops_def mk_locals_sel app)
    then show ?thesis unfolding up tgt by blast
  qed
  have 3: "\<forall>p\<in>set (glob_all (fs st') ?d).
             relative_to p (parent cfg) = Some (drop (length (parent cfg)) p)"
    using glob_all_relative by blast
  have cfg: "cfg = resolve (cwd w) arg" by (rule find_app_Inr(1)[OF assms(1)])
  have nd: "py ''..'' \<notin> set (parent cfg)"
    unfolding cfg resolve_def parent_def
    using normalize_no_dotdot[of "joinpath (cwd w) arg"] by (auto dest: in_set_butlastD)
  have nn: "name \<noteq> py ''..''" using assms(2) by (simp add: plain_name_def)
  have 4: "\<forall>q. q \<noteq> [] \<and> py ''..'' \<notin> set q \<and> is_file (fs st') (parent cfg @ name # q)
               \<and> \<not> sublist (py ''__pycache__'') (path_str (parent cfg @ name # q))
             \<longrightarrow> CommitOperationAdd (rel_str (name # q)) (LocalFile (parent cfg @ name # q))
                   \<in> set ops"
  proof (intro allI impI)
    fix q
    assume h: "q \<noteq> [] \<and> py ''..'' \<notin> set q \<and> is_file (fs st') (parent cfg @ name # q)
               \<and> \<not> sublist (py ''__pycache__'') (path_str (parent cfg @ name # q))"
    have e: "parent cfg @ name # q = ?d @ q" by simp
    have "py ''..'' \<notin> set (?d @ q)" using nd nn h by auto
    from glob_all_complete[OF this] h have g: "?d @ q \<in> set (glob_all (fs st') ?d)"
      unfolding e by blast
    have mem: "?d @ q \<in> set (filter (\<lambda>p. is_file (fs st') p
          \<and> \<not> sublist (py ''__pycache__'') (path_str p)) (glob_all (fs st') ?d))"
      using g h unfolding e by simp
    have "(\<lambda>p. CommitOperationAdd (rel_str (drop (length (parent cfg)) p)) (LocalFile p)) (?d @ q)
        \<in> (\<lambda>p. CommitOperationAdd (rel_str (drop (length (parent cfg)) p)) (LocalFile p))
            ` set (filter (\<lambda>p. is_file (fs st') p
                \<and> \<not> sublist (py ''__pycache__'') (path_str p)) (glob_all (fs st') ?d))"
      using mem by (rule imageI)
    then have "CommitOperationAdd (rel_str (drop (length (parent cfg)) (?d @ q))) (LocalFile (?d @ q))
        \<in> set (upload_ops (fs st') ?keep ?d)"
      unfolding up set_map by simp
    moreover have "drop (length (parent cfg)) (?d @ q) = name # q" by simp
    ultimately have "CommitOperationAdd (rel_str (name # q)) (LocalFile (?d @ q))
        \<in> set (upload_ops (fs st') ?keep ?d)"
      by simp
    then show "CommitOperationAdd (rel_str (name # q)) (LocalFile (parent cfg @ name # q))
                   \<in> set ops"
      unfolding o(3) e by (simp add: sync_ops_def mk_locals_sel app)
  qed
  from app 2 3 4 show ?thesis by blast
qed

theorem app_folder_sync_operations_witness:
  "plain_name (py ''demo'')
   \<and> is_file (fs (snd (deploy (example_world 200) (py ''pcconfig.py'') False None
          (start rich_root)))) [py ''proj'', py ''demo'', py ''__pycache__'', py ''index.pyc'']
   \<and> (\<exists>before. rich_new_ops = before @
         [CommitOperationDelete (py ''default_app'') True,
          CommitOperationAdd (py ''demo/index.py'')
            (LocalFile [py ''proj'', py ''demo'', py ''index.py'']),
          CommitOperationAdd (py ''demo/pages/home.py'')
            (LocalFile [py ''proj'', py ''demo'', py ''pages'', py ''home.py''])])
   \<and> [py ''proj'', py ''demo'', py ''pages'', py ''home.py'']
        \<in> set (glob_all (fs (snd (deploy (example_world 200) (py ''pcconfig.py'') False None
              (start rich_root)))) [py ''proj'', py ''demo''])
   \<and> relative_to [py ''proj'', py ''demo'', py ''pages'', py ''home.py''] [py ''proj'']
        = Some [py ''demo'', py ''pages'', py ''home.py'']"
proof -
  let ?st = "snd (deploy (example_world 200) (py ''pcconfig.py'') False None (start rich_root))"
  have c200: "(py ''alice/demo'', py ''Deploy demo!'', rich_new_ops) \<in> set (committed ?st)"
    using rich_new_run by simp
  have pl: "plain_name (py ''demo'')" by (simp add: plain_name_def py_def slash_def)
  have n: "is_new ?st = Some True" using rich_new_run by simp
  have f: "fs ?st = Dir [(py ''proj'', Dir [
            (py ''pcconfig.py'', File example_config),
            (py ''demo'', Dir [
               (py ''index.py'', File (py ''import pynecone'')),
               (py ''pages'', Dir [(py ''home.py'', File (py ''import pynecone''))]),
               (py ''__pycache__'', Dir [(py ''index.pyc'', File (py ''PYC''))])]),
            (py ''assets'', Dir [(py ''logo.png'', File (py ''PNG''))])]),
          (py ''cache'', Dir [(py ''README.md'', File (py ''app = default_app'')),
            (py ''pcconfig_docker.py'', File (py ''app = default_app'')),
            (py ''Dockerfile'', File (py ''app = default_app''))])]"
    using rich_new_run by simp
  have fi: "is_file (fs ?st) [py ''proj'', py ''demo'', py ''__pycache__'', py ''index.pyc'']"
    unfolding f by (simp add: eval_defs)
  have g: "[py ''proj'', py ''demo'', py ''pages'', py ''home.py'']
        \<in> set (glob_all (fs ?st) [py ''proj'', py ''demo''])"
    unfolding f by (simp add: eval_defs)
  have fl: "filter (\<lambda>p. is_file (fs ?st) p \<and> \<not> sublist (py ''__pycache__'') (path_str p))
      (glob_all (fs ?st) [py ''proj'', py ''demo''])
      = [[py ''proj'', py ''demo'', py ''index.py''],
         [py ''proj'', py ''demo'', py ''pages'', py ''home.py'']]"
    unfolding f by (simp add: eval_defs sublist_code)
  note t = app_folder_sync_operations[OF rich_find_app pl surjective_pairing c200]
  from t have "\<exists>before. rich_new_ops = before @
      CommitOperationDelete (if is_new ?st = Some True then py ''default_app'' else py ''demo'') True #
      map (\<lambda>p. CommitOperationAdd (rel_str (drop (length (parent [py ''proj'', py ''pcconfig.py''])) p))
                 (LocalFile p))
        (filter (\<lambda>p. is_file (fs ?st) p \<and> \<not> sublist (py ''__pycache__'') (path_str p))
           (glob_all (fs ?st) (parent [py ''proj'', py ''pcconfig.py''] @ [py ''demo''])))"
    by blast
  then have 1: "\<exists>before. rich_new_ops = before @
         [CommitOperationDelete (py ''default_app'') True,
          CommitOperationAdd (py ''demo/index.py'')
            (LocalFile [py ''proj'', py ''demo'', py ''index.py'']),
          CommitOperationAdd (py ''demo/pages/home.py'')
            (LocalFile [py ''proj'', py ''demo'', py ''pages'', py ''home.py''])]"
    unfolding n
    by (simp add: parent_def fl) (simp add: rel_str_def py_def slash_def)
  from t have "\<forall>p\<in>set (glob_all (fs ?st) (parent [py ''proj'', py ''pcconfig.py''] @ [py ''demo''])).
         relative_to p (parent [py ''proj'', py ''pcconfig.py''])
           = Some (drop (length (parent [py ''proj'', py ''pcconfig.py''])) p)"
    by blast
  then have "\<forall>p\<in>set (glob_all (fs ?st) [py ''proj'', py ''demo'']).
         relative_to p [py ''proj''] = Some (drop 1 p)"
    by (simp add: parent_def)
  with g have 2: "relative_to [py ''proj'', py ''demo'', py ''pages'', py ''home.py''] [py ''proj'']
        = Some [py ''demo'', py ''pages'', py ''home.py'']"
    by fastforce
  from pl fi 1 g 2 show ?thesis by blast
qed

text \<open>
  The application \<open>pkg/demo\<close>, deployed to a repository that exists: its file is added as
  \<open>demo/index.py\<close>, and its path relative to the config folder is \<open>pkg/demo/index.py\<close>.
\<close>

theorem app_in_subfolder_paths:
  "committed (snd (deploy (example_world 409) (py ''pcconfig.py'') False None (start nested_root)))
     = [(py ''alice/pkg-demo'', py ''Update pkg/demo'',
         [CommitOperationDelete (py ''assets'') True,
          CommitOperationAdd (py ''assets/logo.png'')
            (LocalFile [py ''proj'', py ''assets'', py ''logo.png'']),
          CommitOperationDelete (py ''pkg/demo'') True,
          CommitOperationAdd (py ''demo/index.py'')
            (LocalFile [py ''proj'', py ''pkg'', py ''demo'', py ''index.py''])])]
   \<and> parent [py ''proj'', py ''pcconfig.py''] = [py ''proj'']
   \<and> relative_to [py ''proj'', py ''pkg'', py ''demo'', py ''index.py''] [py ''proj'']
       = Some [py ''pkg'', py ''demo'', py ''index.py'']
   \<and> rel_str [py ''pkg'', py ''demo'', py ''index.py''] = py ''pkg/demo/index.py''
   \<and> py ''pkg/demo/index.py'' \<noteq> py ''demo/index.py''"
  using nested_update_run by (simp add: eval_defs)

section \<open>The application name in the config file\<close>

text \<open>
  Claim C3, as amended.  The claim says that extraction returns the name of every
  assignment \<open>app_name="<name>"\<close>.  The pattern also wants a comma after the closing
  quote, and its \<open>.+\<close> is greedy.  What holds: when the first \<open>app_name=\<close> of the text is
  followed by a quote, a non-empty name without a newline, a quote and a comma, and the
  rest of that line has no quote followed at once by a comma, extraction returns the
  name; extraction fails exactly when the text has no part of the form \<open>app_name=\<close>,
  quote, non-empty text without newline, quote, comma; and when it fails on the text of
  the config file, \<open>deploy\<close> raises the error that names \<open>app_name\<close> and the file.
\<close>

theorem app_name_extraction:
  "(is_quote q \<and> is_quote q' \<and> name \<noteq> [] \<and> newline \<notin> set name
      \<and> (\<forall>i<length pre. \<not> prefix (py ''app_name='')
             (drop i (pre @ py ''app_name='' @ [q] @ name @ [q', 44] @ post)))
      \<and> (\<forall>j. \<not> closes (drop j (takeWhile (\<lambda>c. c \<noteq> newline) post)))
     \<longrightarrow> search_app_name (pre @ py ''app_name='' @ [q] @ name @ [q', 44] @ post) = Some name)
   \<and> (search_app_name v = None \<longleftrightarrow>
        \<not> (\<exists>pre q g q' post. v = pre @ py ''app_name='' @ [q] @ g @ [q', 44] @ post
              \<and> is_quote q \<and> is_quote q' \<and> g \<noteq> [] \<and> newline \<notin> set g))
   \<and> (is_file r (resolve (cwd w) arg) \<and> read_text r (resolve (cwd w) arg) = Inr v
        \<and> search_app_name v = None
     \<longrightarrow> deploy w arg priv tok (start r)
           = (Inl (ValueError (py ''Could not find app_name in ''
                                 @ path_str (resolve (cwd w) arg))), start r))"
proof (intro conjI impI)
  assume h: "is_quote q \<and> is_quote q' \<and> name \<noteq> [] \<and> newline \<notin> set name
      \<and> (\<forall>i<length pre. \<not> prefix (py ''app_name='')
             (drop i (pre @ py ''app_name='' @ [q] @ name @ [q', 44] @ post)))
      \<and> (\<forall>j. \<not> closes (drop j (takeWhile (\<lambda>c. c \<noteq> newline) post)))"
  let ?u = "py ''app_name='' @ [q] @ name @ [q', 44] @ post"
  have mg: "match_group (name @ [q', 44] @ post) = Some name"
    using h by (intro match_group_name) auto
  have mh: "match_here ?u = Some name"
    using h mg by (simp add: match_here_def pat_length)
  have "\<forall>i<length pre. match_here (drop i (pre @ ?u)) = None"
    using h by (auto intro: match_here_no_prefix)
  from search_skip[OF this mh]
  show "search_app_name (pre @ py ''app_name='' @ [q] @ name @ [q', 44] @ post) = Some name" .
next
  show "search_app_name v = None \<longleftrightarrow>
        \<not> (\<exists>pre q g q' post. v = pre @ py ''app_name='' @ [q] @ g @ [q', 44] @ post
              \<and> is_quote q \<and> is_quote q' \<and> g \<noteq> [] \<and> newline \<notin> set g)"
    by (rule search_None_iff)
next
  assume h: "is_file r (resolve (cwd w) arg) \<and> read_text r (resolve (cwd w) arg) = Inr v
        \<and> search_app_name v = None"
  then have "find_app w arg (start r) = (Inl (ValueError (py ''Could not find app_name in ''
                                 @ path_str (resolve (cwd w) arg))), start r)"
    by (simp add: find_app_eq start_def)
  from deploy_find_fail[OF this]
  show "deploy w arg priv tok (start r)
           = (Inl (ValueError (py ''Could not find app_name in ''
                                 @ path_str (resolve (cwd w) arg))), start r)" .
qed

theorem app_name_extraction_witness:
  "search_app_name (py ''app_name='' @ [34] @ py ''demo_app'' @ [34, 44]) = Some (py ''demo_app'')
   \<and> search_app_name nocomma_config = None
   \<and> deploy (example_world 200) (py ''pcconfig.py'') False None (start nocomma_root)
       = (Inl (ValueError (py ''Could not find app_name in /proj/pcconfig.py'')), start nocomma_root)"
proof -
  have q: "is_quote 34" by (simp add: is_quote_def)
  have n: "py ''demo_app'' \<noteq> [] \<and> newline \<notin> set (py ''demo_app'')"
    by (simp add: py_def newline_def)
  have p: "\<forall>i<length ([]::pystr). \<not> prefix (py ''app_name='')
             (drop i ([] @ py ''app_name='' @ [34] @ py ''demo_app'' @ [34, 44] @ []))"
    by simp
  have c: "\<forall>j. \<not> closes (drop j (takeWhile (\<lambda>c. c \<noteq> newline) []))"
    by (simp add: closes_def)
  have r: "resolve (cwd (example_world 200)) (py ''pcconfig.py'') = [py ''proj'', py ''pcconfig.py'']"
    by (simp add: example_world_def eval_defs)
  have f: "is_file nocomma_root [py ''proj'', py ''pcconfig.py'']"
    "read_text nocomma_root [py ''proj'', py ''pcconfig.py''] = Inr nocomma_config"
    by (simp_all add: nocomma_root_def eval_defs)
  have s: "path_str [py ''proj'', py ''pcconfig.py''] = py ''/proj/pcconfig.py''"
    "py ''Could not find app_name in '' @ py ''/proj/pcconfig.py''
       = py ''Could not find app_name in /proj/pcconfig.py''"
    by (simp_all add: eval_defs)
  note t1 = app_name_extraction[where q=34 and q'=34 and name="py ''demo_app''" and pre="[]"
      and post="[]", THEN conjunct1, rule_format]
  have 1: "search_app_name (py ''app_name='' @ [34] @ py ''demo_app'' @ [34, 44]) = Some (py ''demo_app'')"
    using t1 q n p c by simp
  note t3 = app_name_extraction[where v=nocomma_config and r=nocomma_root
      and w="example_world 200" and arg="py ''pcconfig.py''" and priv=False and tok=None,
      THEN conjunct2, THEN conjunct2, rule_format]
  have 3: "deploy (example_world 200) (py ''pcconfig.py'') False None (start nocomma_root)
       = (Inl (ValueError (py ''Could not find app_name in /proj/pcconfig.py'')), start nocomma_root)"
    using t3 f nocomma_search by (simp add: r s)
  from 1 nocomma_search 3 show ?thesis by blast
qed

text \<open>
  A text with the assignment and no comma after it is not matched; on one line with a
  second quoted value the greedy match returns more than the name.
\<close>

theorem app_name_needs_comma_and_is_greedy:
  "search_app_name (py ''app_name='' @ [34] @ py ''demo'' @ [34]) = None
   \<and> search_app_name (py ''app_name='' @ [34] @ py ''a'' @ [34, 44] @ py '' b='' @ [34]
        @ py ''c'' @ [34, 44])
       = Some (py ''a'' @ [34, 44] @ py '' b='' @ [34] @ py ''c'')"
  by (simp add: eval_defs)

section \<open>Which README.md a first-time deploy uses\<close>

text \<open>
  Claim C9, as amended.  The claim says that the application folder, the assets folder
  and \<open>requirements.txt\<close> are all looked up next to the config file.  The application
  folder is the config folder joined with the application name, and \<open>requirements.txt\<close>
  is looked up next to the application folder: for the application \<open>pkg/demo\<close> a
  \<open>requirements.txt\<close> next to the config file is not seen.  What holds: the assets
  folder is next to the config file, and so are the application folder and the
  \<open>requirements.txt\<close> that is uploaded when the application name is a plain folder
  name.  The local \<open>README.md\<close> is not looked up there: a first-time deploy, once the card
  of the new space is loaded, tests and reads \<open>README.md\<close> in the working directory of
  the process.  If that file is absent the operation list starts with the \<open>README.md\<close>
  whose body is the synthesized text, and if it is present and parses, with the
  \<open>README.md\<close> whose body is the text of its card, whatever the folder of the config file
  holds.
\<close>

theorem readme_is_read_from_working_directory:
  assumes "find_app w arg (start r) = (Inr (cfg, name, app, assets), s)"
      and "whoami w tok = Inr user"
      and "post_duplicate w (user @ py ''/'' @ curated_name (isalnum w) name) priv tok
             = Inr status"
      and "\<not> (400 \<le> status \<and> status < 600)"
      and "RepoCard_load w (user @ py ''/'' @ curated_name (isalnum w) name) tok (start r)
             = (Inr rcard, s1)"
      and "deploy w arg priv tok (start r) = (res, st')"
  shows "cfg = resolve (cwd w) arg \<and> app = joinpath (parent cfg) name
       \<and> assets = parent cfg @ [py ''assets'']
       \<and> (plain_name name \<longrightarrow> app = parent cfg @ [name])
       \<and> (plain_name name \<and> committed st' \<noteq> [] \<longrightarrow>
             (\<forall>f. CommitOperationAdd (py ''requirements.txt'') (LocalFile f) \<in> set (operations st')
                \<longleftrightarrow> f = parent cfg @ [py ''requirements.txt''] \<and> is_file (fs st') f))
       \<and> (\<not> is_file (fs s1) (cwd w @ [py ''README.md'']) \<longrightarrow>
             (\<exists>rest. operations st' =
                readme_op w (mk_locals w tok (cfg, name, app, assets) user) rcard
                  (readme_text w name) # rest))
       \<and> (is_file (fs s1) (cwd w @ [py ''README.md''])
             \<and> read_text (fs s1) (cwd w @ [py ''README.md'']) = Inr v \<and> parse_card w v = Inr c
           \<longrightarrow>
             (\<exists>rest. operations st' =
                readme_op w (mk_locals w tok (cfg, name, app, assets) user) rcard
                  (card_text c) # rest))"
proof -
  let ?l = "mk_locals w tok (cfg, name, app, assets) user"
  let ?st = "(start r)\<lparr>out := [Whoami tok]\<rparr>"
  have p: "push w ?l priv ?st = (res, st')"
    using deploy_push[OF assms(1,2), of priv] assms(6) by simp
  have post: "post_duplicate w (repo_id ?l) priv (token ?l) = Inr status"
    using assms(3) by (simp add: mk_locals_sel)
  have load: "RepoCard_load w (repo_id ?l) (token ?l) (start (fs ?st)) = (Inr rcard, s1)"
    using assms(5) by (simp add: mk_locals_sel start_def)
  note pr = push_readme[OF post assms(4) load p, unfolded mk_locals_sel]
  have 4: "plain_name name \<longrightarrow> app = parent cfg @ [name]"
    using find_app_Inr(4)[OF assms(1)] by (simp add: joinpath_plain)
  have 5: "plain_name name \<and> committed st' \<noteq> [] \<longrightarrow>
             (\<forall>f. CommitOperationAdd (py ''requirements.txt'') (LocalFile f) \<in> set (operations st')
                \<longleftrightarrow> f = parent cfg @ [py ''requirements.txt''] \<and> is_file (fs st') f)"
  proof (intro impI allI)
    fix f
    assume h: "plain_name name \<and> committed st' \<noteq> []"
    then have pl: "plain_name name" and ne: "committed st' \<noteq> []" by simp_all
    from deploy_outcome_plain(1)[OF assms(1) pl assms(2,6)] ne obtain new head where
      o: "if new then new_head head else head = []"
         "operations st' = head @ sync_ops (fs st') ?l new"
      by blast
    have hd: "CommitOperationAdd (py ''requirements.txt'') (LocalFile f) \<notin> set head"
      using o(1) by (cases new) (auto simp: new_head_def)
    have app: "app = parent cfg @ [name]" using 4 pl by simp
    have rq: "joinpath (parent (app_path ?l)) (py ''requirements.txt'')
        = parent cfg @ [py ''requirements.txt'']"
      by (simp add: mk_locals_sel app parent_def joinpath_plain[OF plain_requirements])
    from sync_ops_requirements[where f=f and r="fs st'" and new=new,
        OF tidy_mk_locals[OF assms(1) pl, of tok user]] hd
    show "CommitOperationAdd (py ''requirements.txt'') (LocalFile f) \<in> set (operations st')
                \<longleftrightarrow> f = parent cfg @ [py ''requirements.txt''] \<and> is_file (fs st') f"
      unfolding o(2) rq by simp
  qed
  from find_app_Inr(1,4,6)[OF assms(1)] 4 5 pr show ?thesis by blast
qed

theorem readme_is_read_from_working_directory_witness:
  "is_file other_root [py ''proj'', py ''README.md'']
   \<and> cwd other_world = [py ''home'']
   \<and> (\<exists>rest. operations (snd (deploy other_world (py ''/proj/pcconfig.py'') False None
          (start other_root)))
        = CommitOperationAdd (py ''README.md'') (Bytes (readme_text other_world (py ''demo'')))
          # rest)
   \<and> cwd (example_world 200) = [py ''proj'']
   \<and> (\<exists>rest. operations (snd (deploy (example_world 200) (py ''pcconfig.py'') False None
          (start other_root)))
        = CommitOperationAdd (py ''README.md'') (Bytes (py ''local'')) # rest)"
proof -
  have f: "is_file other_root [py ''proj'', py ''README.md'']"
    by (simp add: other_root_def eval_defs)
  have c: "cwd other_world = [py ''home'']" "cwd (example_world 200) = [py ''proj'']"
    by (simp_all add: other_world_def example_world_def)
  have who: "whoami other_world None = Inr (py ''alice'')"
    by (simp add: other_world_def example_world_def)
  have post: "post_duplicate other_world
      (py ''alice'' @ py ''/'' @ curated_name (isalnum other_world) (py ''demo'')) False None
      = Inr 200"
    by (simp add: other_world_def example_world_def)
  have ok: "\<not> (400 \<le> (200::nat) \<and> (200::nat) < 600)" by simp
  note h = readme_is_read_from_working_directory[OF other_find_app who post ok other_load_home
      surjective_pairing, THEN conjunct2, THEN conjunct2, THEN conjunct2, THEN conjunct2,
      THEN conjunct2, THEN conjunct1]
  from h other_home_absent
  have 1: "\<exists>rest. operations (snd (deploy other_world (py ''/proj/pcconfig.py'') False None
          (start other_root)))
        = CommitOperationAdd (py ''README.md'') (Bytes (readme_text other_world (py ''demo'')))
          # rest"
    by (simp add: readme_op_def other_world_def example_world_def)
  note p = readme_is_read_from_working_directory[OF other_find_app_proj example_whoami
      example_post ok other_load_proj surjective_pairing,
      where v="py ''local''" and c="\<lparr>card_data = [], card_text = py ''local''\<rparr>",
      THEN conjunct2, THEN conjunct2, THEN conjunct2, THEN conjunct2,
      THEN conjunct2, THEN conjunct2]
  from p other_proj_present
  have 2: "\<exists>rest. operations (snd (deploy (example_world 200) (py ''pcconfig.py'') False None
          (start other_root)))
        = CommitOperationAdd (py ''README.md'') (Bytes (py ''local'')) # rest"
    by (simp add: readme_op_def example_world_def)
  from f c 1 2 show ?thesis by blast
qed

text \<open>
  The application \<open>pkg/demo\<close> with a \<open>requirements.txt\<close> next to the config file and none
  in \<open>pkg\<close>: the commit has no operation for \<open>requirements.txt\<close>.
\<close>

theorem requirements_not_next_to_config:
  "is_file nested_root [py ''proj'', py ''requirements.txt'']
   \<and> parent [py ''proj'', py ''pcconfig.py''] = [py ''proj'']
   \<and> committed (snd (deploy (example_world 409) (py ''pcconfig.py'') False None (start nested_root)))
     = [(py ''alice/pkg-demo'', py ''Update pkg/demo'',
         [CommitOperationDelete (py ''assets'') True,
          CommitOperationAdd (py ''assets/logo.png'')
            (LocalFile [py ''proj'', py ''assets'', py ''logo.png'']),
          CommitOperationDelete (py ''pkg/demo'') True,
          CommitOperationAdd (py ''demo/index.py'')
            (LocalFile [py ''proj'', py ''pkg'', py ''demo'', py ''index.py''])])]"
  using nested_update_run by (simp add: nested_root_def eval_defs)

end
